(* ===== verification/Prelude.thy ===== *)
theory Prelude
  imports Main "HOL-Library.Multiset" "HOL-Library.List_Lexorder"
begin

text \<open>
  What every component of the bridge contract shares: the machine integers of the source and
  their checked arithmetic, the errors of \<^verbatim>\<open>error.rs\<close> and the result type every fallible
  function returns, and the generic facts about results, lists and sums that carry the proofs
  of the components.

  The workspace builds with \<^verbatim>\<open>overflow-checks = true\<close> and \<^verbatim>\<open>panic = "abort"\<close>, so an
  arithmetic operation that leaves its type's range, an index out of range, a failed
  \<^verbatim>\<open>unwrap\<close> and a failed \<^verbatim>\<open>assert!\<close> end the call. They are the value \<open>Panic\<close> of the
  model: no \<^verbatim>\<open>?\<close> and no \<^verbatim>\<open>match\<close> of the source observes one, while a
  \<^verbatim>\<open>ContractError\<close> may be caught. Both revert every write of the transaction, which is why
  a failing operation of the model returns no state.
\<close>

section \<open>Machine integers\<close>

text \<open>
  Unsigned integers are natural numbers and signed ones integers; every operation that may
  leave the range of its type is one of the checked operations below, and every \<^verbatim>\<open>as\<close>
  conversion is written out.
\<close>

type_synonym u8 = nat
type_synonym u16 = nat
type_synonym u32 = nat
type_synonym u64 = nat
type_synonym u128 = nat
type_synonym u256 = nat
type_synonym i64 = int
type_synonym bytes = "u8 list"

section \<open>Errors and results\<close>

text \<open>
  \<^verbatim>\<open>ContractError\<close> of \<^verbatim>\<open>error.rs\<close>, one constructor per variant. A payload that is an error
  value of another crate is kept as its message.
\<close>

datatype contract_error =
    Std string
  | Verify string
  | Account string
  | Coins string
  | Address string
  | Bitcoin string
  | ParseOutPoint string
  | BitcoinHash string
  | BitcoinEncode string
  | BitcoinFee u64
  | BitcoinRecoveryScript string
  | Bip32 string
  | Checkpoint string
  | Sighash string
  | TryFrom string
  | App string
  | Secp string
  | BitcoinMerkleBlockError
  | Header string
  | Ibc string
  | InputIndexOutOfBounds nat
  | Signer string
  | Unauthorized

text \<open>\<^verbatim>\<open>ToString\<close> of a number in decimal, and of an error by its \<^verbatim>\<open>#[error]\<close> attribute.\<close>

fun nat_to_string :: "nat \<Rightarrow> string" where
  "nat_to_string n =
     (if n < 10 then [char_of (48 + n)] else nat_to_string (n div 10) @ [char_of (48 + n mod 10)])"

declare nat_to_string.simps [simp del]

fun error_to_string :: "contract_error \<Rightarrow> string" where
  "error_to_string (Std s) = s"
| "error_to_string (Verify s) = s"
| "error_to_string (Account s) = ''Account Error: '' @ s"
| "error_to_string (Coins s) = ''Coins Error: '' @ s"
| "error_to_string (Address s) = ''Address Error: '' @ s"
| "error_to_string (Bitcoin s) = s"
| "error_to_string (ParseOutPoint s) = s"
| "error_to_string (BitcoinHash s) = s"
| "error_to_string (BitcoinEncode s) = s"
| "error_to_string (BitcoinFee n) = ''Unable to deduct fee: '' @ nat_to_string n"
| "error_to_string (BitcoinRecoveryScript s) = s"
| "error_to_string (Bip32 s) = s"
| "error_to_string (Checkpoint s) = s"
| "error_to_string (Sighash s) = s"
| "error_to_string (TryFrom s) = s"
| "error_to_string (App s) = ''App Error: '' @ s"
| "error_to_string (Secp s) = s"
| "error_to_string BitcoinMerkleBlockError = ''Could not verify merkle proof''"
| "error_to_string (Header s) = s"
| "error_to_string (Ibc s) = s"
| "error_to_string (InputIndexOutOfBounds n) = ''Input index: '' @ nat_to_string n @ '' out of bounds''"
| "error_to_string (Signer s) = s"
| "error_to_string Unauthorized = ''unauthorized''"

text \<open>
  How a call can fail: with an error value, or by a panic, which aborts it. The two crates of the
  workspace have error types of their own, so the outcome of a call takes the type of its errors
  as a parameter; \<open>result\<close> is the outcome of a call of the contract.
\<close>

datatype 'e failure = Fail 'e | Panic

type_synonym ('e, 'a) outcome = "'e failure + 'a"

type_synonym 'a result = "(contract_error, 'a) outcome"

abbreviation Ok :: "'a \<Rightarrow> ('e, 'a) outcome" where
  "Ok \<equiv> Inr"

abbreviation Err :: "'e \<Rightarrow> ('e, 'a) outcome" where
  "Err e \<equiv> Inl (Fail e)"

abbreviation panic :: "('e, 'a) outcome" where
  "panic \<equiv> Inl Panic"

text \<open>The \<^verbatim>\<open>?\<close> operator: go on with the value, or return the failure.\<close>

definition bnd :: "('e, 'a) outcome \<Rightarrow> ('a \<Rightarrow> ('e, 'b) outcome) \<Rightarrow> ('e, 'b) outcome" where
  "bnd m f = (case m of Inl e \<Rightarrow> Inl e | Inr x \<Rightarrow> f x)"

text \<open>\<^verbatim>\<open>map_err\<close>, which sees error values only.\<close>

definition map_err :: "('e \<Rightarrow> 'f) \<Rightarrow> ('e, 'a) outcome \<Rightarrow> ('f, 'a) outcome" where
  "map_err g m = (case m of Inl (Fail e) \<Rightarrow> Err (g e) | Inl Panic \<Rightarrow> panic | Inr x \<Rightarrow> Ok x)"

text \<open>\<^verbatim>\<open>ok_or\<close> and \<^verbatim>\<open>unwrap\<close> of an option, and an early error return.\<close>

definition ok_or :: "'e \<Rightarrow> 'a option \<Rightarrow> ('e, 'a) outcome" where
  "ok_or e x = (case x of None \<Rightarrow> Err e | Some v \<Rightarrow> Ok v)"

definition unwrap :: "'a option \<Rightarrow> ('e, 'a) outcome" where
  "unwrap x = (case x of None \<Rightarrow> panic | Some v \<Rightarrow> Ok v)"

text \<open>\<^verbatim>\<open>unwrap\<close> of a result: an error value turns into a panic.\<close>

definition unwrap_res :: "('e, 'a) outcome \<Rightarrow> ('f, 'a) outcome" where
  "unwrap_res x = (case x of Inl _ \<Rightarrow> panic | Inr v \<Rightarrow> Ok v)"

definition throw_if :: "bool \<Rightarrow> 'e \<Rightarrow> ('e, unit) outcome" where
  "throw_if c e = (if c then Err e else Ok ())"

text \<open>\<^verbatim>\<open>assert!\<close>.\<close>

definition assert_r :: "bool \<Rightarrow> ('e, unit) outcome" where
  "assert_r c = (if c then Ok () else panic)"

text \<open>Vector indexing \<^verbatim>\<open>v[i]\<close>, which panics out of range.\<close>

definition index_r :: "'a list \<Rightarrow> nat \<Rightarrow> ('e, 'a) outcome" where
  "index_r xs i = (if i < length xs then Ok (xs ! i) else panic)"

text \<open>\<^verbatim>\<open>Vec::first\<close>, \<^verbatim>\<open>Vec::last\<close> and \<^verbatim>\<open>Vec::get\<close>.\<close>

definition vec_first :: "'a list \<Rightarrow> 'a option" where
  "vec_first xs = (case xs of [] \<Rightarrow> None | x # _ \<Rightarrow> Some x)"

definition vec_last :: "'a list \<Rightarrow> 'a option" where
  "vec_last xs = (if xs = [] then None else Some (last xs))"

definition vec_get :: "'a list \<Rightarrow> nat \<Rightarrow> 'a option" where
  "vec_get xs i = (if i < length xs then Some (xs ! i) else None)"

text \<open>\<^verbatim>\<open>iter().map(f).collect::<Result<Vec<_>>>()\<close>: stops at the first failure.\<close>

fun map_r :: "('a \<Rightarrow> ('e, 'b) outcome) \<Rightarrow> 'a list \<Rightarrow> ('e, 'b list) outcome" where
  "map_r f [] = Ok []"
| "map_r f (x # xs) = bnd (f x) (\<lambda>y. bnd (map_r f xs) (\<lambda>ys. Ok (y # ys)))"

text \<open>A \<^verbatim>\<open>for\<close> loop whose body may fail, over an accumulator.\<close>

fun fold_r :: "('a \<Rightarrow> 's \<Rightarrow> ('e, 's) outcome) \<Rightarrow> 'a list \<Rightarrow> 's \<Rightarrow> ('e, 's) outcome" where
  "fold_r f [] s = Ok s"
| "fold_r f (x # xs) s = bnd (f x s) (\<lambda>s'. fold_r f xs s')"

section \<open>Checked arithmetic\<close>

definition add_w :: "nat \<Rightarrow> nat \<Rightarrow> nat \<Rightarrow> ('e, nat) outcome" where
  "add_w w a b = (if a + b < 2 ^ w then Ok (a + b) else panic)"

definition sub_w :: "nat \<Rightarrow> nat \<Rightarrow> ('e, nat) outcome" where
  "sub_w a b = (if b \<le> a then Ok (a - b) else panic)"

definition mul_w :: "nat \<Rightarrow> nat \<Rightarrow> nat \<Rightarrow> ('e, nat) outcome" where
  "mul_w w a b = (if a * b < 2 ^ w then Ok (a * b) else panic)"

definition div_r :: "nat \<Rightarrow> nat \<Rightarrow> ('e, nat) outcome" where
  "div_r a b = (if b = 0 then panic else Ok (a div b))"

definition rem_r :: "nat \<Rightarrow> nat \<Rightarrow> ('e, nat) outcome" where
  "rem_r a b = (if b = 0 then panic else Ok (a mod b))"

abbreviation add_u16 :: "nat \<Rightarrow> nat \<Rightarrow> ('e, nat) outcome" where "add_u16 \<equiv> add_w 16"
abbreviation add_u32 :: "nat \<Rightarrow> nat \<Rightarrow> ('e, nat) outcome" where "add_u32 \<equiv> add_w 32"
abbreviation add_u64 :: "nat \<Rightarrow> nat \<Rightarrow> ('e, nat) outcome" where "add_u64 \<equiv> add_w 64"
abbreviation add_u256 :: "nat \<Rightarrow> nat \<Rightarrow> ('e, nat) outcome" where "add_u256 \<equiv> add_w 256"
abbreviation mul_u32 :: "nat \<Rightarrow> nat \<Rightarrow> ('e, nat) outcome" where "mul_u32 \<equiv> mul_w 32"
abbreviation mul_u64 :: "nat \<Rightarrow> nat \<Rightarrow> ('e, nat) outcome" where "mul_u64 \<equiv> mul_w 64"

text \<open>\<^verbatim>\<open>checked_sub\<close> and \<^verbatim>\<open>saturating_sub\<close>; the latter is subtraction on \<^typ>\<open>nat\<close>.\<close>

definition checked_sub :: "nat \<Rightarrow> nat \<Rightarrow> nat option" where
  "checked_sub a b = (if b \<le> a then Some (a - b) else None)"

abbreviation (input) saturating_sub :: "nat \<Rightarrow> nat \<Rightarrow> nat" where
  "saturating_sub a b \<equiv> a - b"

text \<open>\<^verbatim>\<open>x as u64\<close>, \<^verbatim>\<open>x as u16\<close> and \<^verbatim>\<open>x as i64\<close> (the value modulo the width, read in two's complement).\<close>

definition as_u64 :: "nat \<Rightarrow> u64" where
  "as_u64 n = n mod 2 ^ 64"

definition as_u32 :: "nat \<Rightarrow> u32" where
  "as_u32 n = n mod 2 ^ 32"

text \<open>A \<^verbatim>\<open>usize\<close> of the contract's target, \<^verbatim>\<open>wasm32\<close>, has 32 bits.\<close>

abbreviation as_usize :: "nat \<Rightarrow> u32" where "as_usize \<equiv> as_u32"

definition as_u16 :: "nat \<Rightarrow> u16" where
  "as_u16 n = n mod 2 ^ 16"

definition as_i64 :: "u64 \<Rightarrow> i64" where
  "as_i64 n = (let m = int (n mod 2 ^ 64) in if m < 2 ^ 63 then m else m - 2 ^ 64)"

definition i64_as_u64 :: "i64 \<Rightarrow> u64" where
  "i64_as_u64 i = nat (i mod 2 ^ 64)"

definition in_i64 :: "int \<Rightarrow> bool" where
  "in_i64 i \<longleftrightarrow> - (2 ^ 63) \<le> i \<and> i < 2 ^ 63"

definition add_i64 :: "i64 \<Rightarrow> i64 \<Rightarrow> ('e, i64) outcome" where
  "add_i64 a b = (if in_i64 (a + b) then Ok (a + b) else panic)"

definition sub_i64 :: "i64 \<Rightarrow> i64 \<Rightarrow> ('e, i64) outcome" where
  "sub_i64 a b = (if in_i64 (a - b) then Ok (a - b) else panic)"

text \<open>\<^verbatim>\<open>Ord::clamp\<close>, which panics on an empty range.\<close>

definition clamp_r :: "nat \<Rightarrow> nat \<Rightarrow> nat \<Rightarrow> ('e, nat) outcome" where
  "clamp_r x lo hi = (if lo \<le> hi then Ok (if x < lo then lo else if x > hi then hi else x) else panic)"

text \<open>A sum of \<^verbatim>\<open>u64\<close> values with the additions checked one by one.\<close>

fun sum_u64 :: "u64 \<Rightarrow> u64 list \<Rightarrow> ('e, u64) outcome" where
  "sum_u64 acc [] = Ok acc"
| "sum_u64 acc (x # xs) = bnd (add_u64 acc x) (\<lambda>a. sum_u64 a xs)"

text \<open>Big-endian bytes of a 16-bit and of a 32-bit number (\<^verbatim>\<open>to_be_bytes\<close>).\<close>

definition be16 :: "u16 \<Rightarrow> bytes" where
  "be16 n = [n div 256 mod 256, n mod 256]"

definition be32 :: "u32 \<Rightarrow> bytes" where
  "be32 n = [n div 256 ^ 3 mod 256, n div 256 ^ 2 mod 256, n div 256 mod 256, n mod 256]"

text \<open>The number big-endian bytes stand for (\<^verbatim>\<open>from_be_bytes\<close>).\<close>

definition from_be_bytes :: "bytes \<Rightarrow> nat" where
  "from_be_bytes bs = foldl (\<lambda>n b. n * 256 + b) 0 bs"

section \<open>Facts about results\<close>

named_theorems ok_simps \<open>what a successful step of the model says about its parts\<close>

lemma bnd_simps [simp]:
  "bnd (Inl e) f = Inl e"
  "bnd (Inr x) f = f x"
  by (simp_all add: bnd_def)

lemma bnd_Inr_iff [ok_simps]: "bnd m f = Inr y \<longleftrightarrow> (\<exists>x. m = Inr x \<and> f x = Inr y)"
  by (cases m) auto

lemma bnd_Inl_iff: "bnd m f = Inl e \<longleftrightarrow> m = Inl e \<or> (\<exists>x. m = Inr x \<and> f x = Inl e)"
  by (cases m) auto

lemma bnd_assoc: "bnd (bnd m f) g = bnd m (\<lambda>x. bnd (f x) g)"
  by (cases m) auto

lemma bnd_cong [fundef_cong]:
  "m = n \<Longrightarrow> (\<And>x. n = Inr x \<Longrightarrow> f x = g x) \<Longrightarrow> bnd m f = bnd n g"
  by (cases n) (auto simp: bnd_def)

lemma map_err_Inr_iff [ok_simps]: "map_err g m = Inr v \<longleftrightarrow> m = Inr v"
  by (auto simp: map_err_def split: sum.splits failure.splits)

lemma map_err_simps [simp]:
  "map_err g (Err e) = Err (g e)" "map_err g panic = panic" "map_err g (Ok v) = Ok v"
  by (simp_all add: map_err_def)

lemma ok_or_Inr_iff [ok_simps]: "ok_or e x = Inr v \<longleftrightarrow> x = Some v"
  by (cases x) (auto simp: ok_or_def)

lemma ok_or_simps [simp]: "ok_or e None = Err e" "ok_or e (Some v) = Ok v"
  by (simp_all add: ok_or_def)

lemma unwrap_Inr_iff [ok_simps]: "unwrap x = Inr v \<longleftrightarrow> x = Some v"
  by (cases x) (auto simp: unwrap_def)

lemma unwrap_simps [simp]: "unwrap None = panic" "unwrap (Some v) = Ok v"
  by (simp_all add: unwrap_def)

lemma unwrap_res_Inr_iff [ok_simps]: "unwrap_res x = Inr v \<longleftrightarrow> x = Inr v"
  by (cases x) (auto simp: unwrap_res_def)

lemma unwrap_res_simps [simp]: "unwrap_res (Inl e) = panic" "unwrap_res (Inr v) = Ok v"
  by (simp_all add: unwrap_res_def)

lemma throw_if_Inr_iff [ok_simps]: "throw_if c e = Inr u \<longleftrightarrow> \<not> c"
  by (auto simp: throw_if_def)

lemma throw_if_simps [simp]: "throw_if True e = Err e" "throw_if False e = Ok ()"
  by (simp_all add: throw_if_def)

lemma assert_r_Inr_iff [ok_simps]: "assert_r c = Inr u \<longleftrightarrow> c"
  by (auto simp: assert_r_def)

lemma assert_r_simps [simp]: "assert_r True = Ok ()" "assert_r False = panic"
  by (simp_all add: assert_r_def)

lemma index_r_Inr_iff [ok_simps]: "index_r xs i = Inr v \<longleftrightarrow> i < length xs \<and> v = xs ! i"
  by (auto simp: index_r_def)

lemma add_w_Inr_iff [ok_simps]: "add_w w a b = Inr c \<longleftrightarrow> c = a + b \<and> a + b < 2 ^ w"
  by (auto simp: add_w_def)

lemma sub_w_Inr_iff [ok_simps]: "sub_w a b = Inr c \<longleftrightarrow> c = a - b \<and> b \<le> a"
  by (auto simp: sub_w_def)

lemma mul_w_Inr_iff [ok_simps]: "mul_w w a b = Inr c \<longleftrightarrow> c = a * b \<and> a * b < 2 ^ w"
  by (auto simp: mul_w_def)

lemma div_r_Inr_iff [ok_simps]: "div_r a b = Inr c \<longleftrightarrow> c = a div b \<and> b \<noteq> 0"
  by (auto simp: div_r_def)

lemma rem_r_Inr_iff [ok_simps]: "rem_r a b = Inr c \<longleftrightarrow> c = a mod b \<and> b \<noteq> 0"
  by (auto simp: rem_r_def)

lemma add_i64_Inr_iff [ok_simps]: "add_i64 a b = Inr c \<longleftrightarrow> c = a + b \<and> in_i64 (a + b)"
  by (auto simp: add_i64_def)

lemma sub_i64_Inr_iff [ok_simps]: "sub_i64 a b = Inr c \<longleftrightarrow> c = a - b \<and> in_i64 (a - b)"
  by (auto simp: sub_i64_def)

lemma clamp_r_Inr_iff [ok_simps]:
  "clamp_r x lo hi = Inr y \<longleftrightarrow> lo \<le> hi \<and> y = (if x < lo then lo else if x > hi then hi else x)"
  by (auto simp: clamp_r_def)

lemma checked_sub_Some_iff [ok_simps]: "checked_sub a b = Some c \<longleftrightarrow> c = a - b \<and> b \<le> a"
  by (auto simp: checked_sub_def)

lemma if_Err_Inr_iff [ok_simps]: "(if c then Inl e else r) = Inr v \<longleftrightarrow> \<not> c \<and> r = Inr v"
  by auto

section \<open>Facts about lists and loops\<close>

lemma vec_first_simps [simp]: "vec_first [] = None" "vec_first (x # xs) = Some x"
  by (simp_all add: vec_first_def)

lemma vec_last_simps [simp]: "vec_last [] = None" "vec_last (xs @ [x]) = Some x"
  by (simp_all add: vec_last_def)

lemma vec_first_Some_iff: "vec_first xs = Some x \<longleftrightarrow> (\<exists>ys. xs = x # ys)"
  by (cases xs) auto

lemma vec_last_Some_iff: "vec_last xs = Some x \<longleftrightarrow> xs \<noteq> [] \<and> last xs = x"
  by (auto simp: vec_last_def)

lemma vec_get_Some_iff [ok_simps]: "vec_get xs i = Some v \<longleftrightarrow> i < length xs \<and> v = xs ! i"
  by (auto simp: vec_get_def)

lemma map_r_length: "map_r f xs = Inr ys \<Longrightarrow> length ys = length xs"
  by (induction xs arbitrary: ys) (auto simp: ok_simps)

lemma map_r_Ok: "(\<And>x. x \<in> set xs \<Longrightarrow> f x = Inr (g x)) \<Longrightarrow> map_r f xs = Inr (map g xs)"
  by (induction xs) auto

lemma map_r_Inr_nth: "map_r f xs = Inr ys \<Longrightarrow> i < length xs \<Longrightarrow> f (xs ! i) = Inr (ys ! i)"
  by (induction xs arbitrary: ys i) (auto simp: ok_simps nth_Cons split: nat.splits)

lemma fold_r_append: "fold_r f (xs @ ys) s = bnd (fold_r f xs s) (\<lambda>t. fold_r f ys t)"
proof (induction xs arbitrary: s)
  case (Cons x xs)
  then show ?case by (cases "f x s") simp_all
qed simp

lemma fold_r_invariant:
  assumes "fold_r f xs s = Inr t" and "P s"
    and "\<And>x s t. x \<in> set xs \<Longrightarrow> P s \<Longrightarrow> f x s = Inr t \<Longrightarrow> P t"
  shows "P t"
  using assms by (induction xs arbitrary: s) (auto simp: ok_simps)

lemma sum_u64_Inr_iff [ok_simps]:
  "sum_u64 acc xs = Inr s \<longleftrightarrow> s = acc + sum_list xs \<and> (xs = [] \<or> acc + sum_list xs < 2 ^ 64)"
proof (induction xs arbitrary: acc)
  case (Cons x xs)
  show ?case
    unfolding sum_u64.simps bnd_Inr_iff add_w_Inr_iff Cons.IH by (cases xs) auto
qed auto

lemma sum_list_filter_le:
  fixes f :: "'a \<Rightarrow> nat"
  shows "sum_list (map f (filter P xs)) \<le> sum_list (map f xs)"
  by (induction xs) auto

lemma sum_list_take_drop:
  fixes xs :: "nat list"
  shows "sum_list (take n xs) + sum_list (drop n xs) = sum_list xs"
  by (metis append_take_drop_id sum_list_append)

lemma sum_list_mset_eq:
  fixes xs ys :: "nat list"
  shows "mset xs = mset ys \<Longrightarrow> sum_list xs = sum_list ys"
  by (metis sum_mset_sum_list)

lemma member_le_sum_list_nat:
  fixes xs :: "nat list"
  shows "x \<in> set xs \<Longrightarrow> x \<le> sum_list xs"
  by (induction xs) auto

lemma list_all_update: "list_all P xs \<Longrightarrow> P x \<Longrightarrow> list_all P (xs[i := x])"
  by (auto simp: list_all_iff dest!: set_update_subset_insert [THEN subsetD])

lemma map_eq_conv_all_nth:
  "map f xs = map g ys \<longleftrightarrow> length xs = length ys \<and> (\<forall>i < length ys. f (xs ! i) = g (ys ! i))"
  by (auto simp: list_eq_iff_nth_eq)

lemma map_r_snoc: "map_r f (xs @ [x]) = bnd (map_r f xs) (\<lambda>ys. bnd (f x) (\<lambda>y. Ok (ys @ [y])))"
  by (induction xs) (auto simp: bnd_def split: sum.splits)

lemma map_r_rev: "map_r f xs = Ok ys \<Longrightarrow> map_r f (rev xs) = Ok (rev ys)"
proof (induction xs arbitrary: ys)
  case (Cons x xs)
  then show ?case by (auto simp: map_r_snoc bnd_Inr_iff)
qed simp

lemma sum_list_div_le:
  fixes f :: "'a \<Rightarrow> nat"
  shows "sum_list (map (\<lambda>x. f x div k) xs) \<le> sum_list (map f xs) div k"
proof (induction xs)
  case (Cons x xs)
  have "f x div k + sum_list (map f xs) div k \<le> (f x + sum_list (map f xs)) div k"
    by (metis div_add1_eq le_add1)
  then show ?case using Cons by simp
qed simp

lemma takeWhile_split:
  "list_all P xs \<Longrightarrow> ys = [] \<or> \<not> P (hd ys) \<Longrightarrow> takeWhile P (xs @ ys) = xs \<and> dropWhile P (xs @ ys) = ys"
  by (induction xs) (cases ys; auto)+

section \<open>Big-endian bytes\<close>

lemma be32_digits:
  fixes x :: nat
  assumes "x < 2 ^ 32"
  shows "x = ((x div 256 ^ 3 mod 256 * 256 + x div 256 ^ 2 mod 256) * 256 + x div 256 mod 256) * 256 + x mod 256"
proof -
  define q r t where "q = x div 256" and "r = q div 256" and "t = r div 256"
  have "x div 256 ^ 2 = r" and "x div 256 ^ 3 = t"
    by (simp_all add: q_def r_def t_def div_mult2_eq [symmetric])
  moreover have "t < 256"
    using assms by (simp add: q_def r_def t_def div_mult2_eq [symmetric] less_mult_imp_div_less)
  moreover have "x = q * 256 + x mod 256" "q = r * 256 + q mod 256" "r = t * 256 + r mod 256"
    by (simp_all add: q_def r_def t_def)
  ultimately show ?thesis by (simp flip: q_def)
qed

lemma from_be_bytes_zeros [simp]: "from_be_bytes (replicate n 0 @ bs) = from_be_bytes bs"
proof -
  have "foldl (\<lambda>n b. n * 256 + b) 0 (replicate n 0) = (0 :: nat)" by (induction n) simp_all
  then show ?thesis by (simp add: from_be_bytes_def)
qed

lemma from_be_bytes_be32: "n < 2 ^ 32 \<Longrightarrow> from_be_bytes (be32 n) = n"
  using be32_digits [of n] unfolding from_be_bytes_def be32_def by simp

end
