(* ===== verification/Extern.thy ===== *)
theory Extern
  imports Prelude
begin

text \<open>
  The world around the contract. The first part holds the data types of the
  \<^verbatim>\<open>bitcoin\<close> crate and of \<^verbatim>\<open>cosmwasm_std\<close> that the contract builds and takes apart, with
  their public fields. The second part is the record \<open>ext\<close> of the functions the contract
  calls and that are not part of the repository: hashing, transaction encoding, script
  encoding, elliptic-curve arithmetic, the signature check of the host, the price oracle. A
  definition that uses one of them takes a value \<open>E\<close> of this record as an argument, so
  every theorem of the development holds for every such library; a theorem that relies on
  documented behaviour of one of them says so in a named hypothesis.
\<close>

section \<open>Data of the crates\<close>

type_synonym script = bytes
type_synonym txid = bytes
type_synonym block_hash = bytes
type_synonym merkle_root = bytes
type_synonym pubkey = bytes
type_synonym signature = bytes
type_synonym message = bytes
type_synonym addr = string

record outpoint =
  op_txid :: txid
  op_vout :: u32

record txout =
  txo_value :: u64
  txo_script_pubkey :: script

record txin =
  txi_previous_output :: outpoint
  txi_script_sig :: script
  txi_sequence :: u32
  txi_witness :: "bytes list"

record transaction =
  btx_version :: nat
  btx_lock_time :: u32
  btx_input :: "txin list"
  btx_output :: "txout list"

record block_header =
  bh_version :: nat
  bh_prev_blockhash :: block_hash
  bh_merkle_root :: merkle_root
  bh_time :: u32
  bh_bits :: u32
  bh_nonce :: u32

datatype network = Mainnet | Testnet | Signet | Regtest

text \<open>\<^verbatim>\<open>bip32::ExtendedPubKey\<close>, wrapped by the contract as \<^verbatim>\<open>Xpub\<close>.\<close>

record xpub =
  xp_network :: network
  xp_depth :: u8
  xp_parent_fingerprint :: bytes
  xp_child_number :: nat
  xp_public_key :: bytes
  xp_chain_code :: bytes

text \<open>
  \<^verbatim>\<open>script::Instruction\<close>; an item of the iterator \<^verbatim>\<open>Script::instructions\<close> is \<open>None\<close>
  where the script cannot be read.
\<close>

datatype instruction = PushBytes bytes | Op nat

text \<open>What the macro \<^verbatim>\<open>script! { ... }\<close> is given: bytes, integers and opcodes.\<close>

datatype script_item = SBytes bytes | SInt int | SOp nat

abbreviation (input) OP_FALSE :: nat where "OP_FALSE \<equiv> 0x00"
abbreviation (input) OP_IF :: nat where "OP_IF \<equiv> 0x63"
abbreviation (input) OP_ELSE :: nat where "OP_ELSE \<equiv> 0x67"
abbreviation (input) OP_ENDIF :: nat where "OP_ENDIF \<equiv> 0x68"
abbreviation (input) OP_DROP :: nat where "OP_DROP \<equiv> 0x75"
abbreviation (input) OP_SWAP :: nat where "OP_SWAP \<equiv> 0x7c"
abbreviation (input) OP_ADD :: nat where "OP_ADD \<equiv> 0x93"
abbreviation (input) OP_GREATERTHAN :: nat where "OP_GREATERTHAN \<equiv> 0xa0"
abbreviation (input) OP_CHECKSIG :: nat where "OP_CHECKSIG \<equiv> 0xac"

text \<open>\<^verbatim>\<open>cosmwasm_std::Coin\<close> and the parts of \<^verbatim>\<open>Env\<close> the contract reads.\<close>

record coin =
  coin_denom :: string
  coin_amount :: u128

record env =
  env_seconds :: u64
  env_nanos :: u64
  env_contract :: addr

text \<open>\<^verbatim>\<open>oraiswap::asset::AssetInfo\<close> and \<^verbatim>\<open>router::SwapOperation\<close>.\<close>

datatype asset_info = Token addr | NativeToken string

datatype swap_operation = OraiSwap asset_info asset_info

text \<open>\<^verbatim>\<open>Uint256\<close> of the \<^verbatim>\<open>bitcoin\<close> crate: arithmetic modulo \<open>2 ^ 256\<close>.\<close>

definition u256_add :: "u256 \<Rightarrow> u256 \<Rightarrow> u256" where
  "u256_add a b = (a + b) mod 2 ^ 256"

definition u256_sub :: "u256 \<Rightarrow> u256 \<Rightarrow> u256" where
  "u256_sub a b = nat ((int a - int b) mod 2 ^ 256)"

definition u256_mul :: "u256 \<Rightarrow> u256 \<Rightarrow> u256" where
  "u256_mul a b = (a * b) mod 2 ^ 256"

section \<open>Functions of the crates\<close>

record ext =
  \<comment> \<open>\<^verbatim>\<open>Api::secp256k1_verify\<close>: message, signature, public key\<close>
  secp256k1_verify :: "message \<Rightarrow> signature \<Rightarrow> pubkey \<Rightarrow> bool result"
  \<comment> \<open>\<^verbatim>\<open>ecdsa::Signature::from_compact\<close> followed by \<^verbatim>\<open>serialize_der\<close>\<close>
  signature_der :: "signature \<Rightarrow> bytes result"
  \<comment> \<open>\<^verbatim>\<open>secp256k1::PublicKey::from_slice\<close>: the error's message, or the key's bytes\<close>
  public_key_from_slice :: "bytes \<Rightarrow> string + bytes"
  \<comment> \<open>\<^verbatim>\<open>bip32\<close>: \<^verbatim>\<open>ChildNumber::from_normal_idx\<close>, \<^verbatim>\<open>ckd_pub_tweak\<close>, \<^verbatim>\<open>encode\<close>\<close>
  from_normal_idx :: "u32 \<Rightarrow> nat result"
  ckd_pub_tweak :: "xpub \<Rightarrow> nat \<Rightarrow> bytes result"
  xpub_encode :: "xpub \<Rightarrow> bytes"
  \<comment> \<open>\<^verbatim>\<open>libsecp256k1_core\<close>: field and scalar parsing, the point with an abscissa and a parity,
     and \<open>a + k * G\<close> in normalized affine coordinates\<close>
  field_set_b32 :: "bytes \<Rightarrow> nat option"
  affine_set_xo :: "nat \<Rightarrow> bool \<Rightarrow> nat \<times> nat"
  scalar_set_b32 :: "bytes \<Rightarrow> nat option"
  ecmult_add :: "nat \<times> nat \<Rightarrow> nat \<Rightarrow> nat \<times> nat"
  fill_b32 :: "nat \<Rightarrow> bytes"
  \<comment> \<open>\<^verbatim>\<open>Script\<close>: the macro \<^verbatim>\<open>script!\<close>, the instruction iterator, \<^verbatim>\<open>read_scriptint\<close>, the debug name of an opcode,
     \<^verbatim>\<open>to_v0_p2wsh\<close>, \<^verbatim>\<open>new_op_return\<close>, \<^verbatim>\<open>dust_value\<close>\<close>
  build_script :: "script_item list \<Rightarrow> script"
  script_instructions :: "script \<Rightarrow> instruction option list"
  read_scriptint :: "bytes \<Rightarrow> int option"
  opcode_debug :: "nat \<Rightarrow> string"
  to_v0_p2wsh :: "script \<Rightarrow> script"
  new_op_return :: "bytes \<Rightarrow> script"
  dust_value :: "script \<Rightarrow> u64"
  \<comment> \<open>\<^verbatim>\<open>Transaction::txid\<close>, \<^verbatim>\<open>Transaction::vsize\<close>, \<^verbatim>\<open>SighashCache::segwit_signature_hash\<close>\<close>
  tx_txid :: "transaction \<Rightarrow> txid"
  tx_vsize :: "transaction \<Rightarrow> u64"
  segwit_signature_hash :: "transaction \<Rightarrow> nat \<Rightarrow> script \<Rightarrow> u64 \<Rightarrow> message result"
  \<comment> \<open>\<^verbatim>\<open>BlockHeader\<close>: hash, compact targets, work, the proof-of-work check\<close>
  block_hash :: "block_header \<Rightarrow> block_hash"
  u256_from_compact_target :: "u32 \<Rightarrow> u256"
  compact_target_from_u256 :: "u256 \<Rightarrow> u32"
  header_work :: "block_header \<Rightarrow> u256"
  header_validate_pow :: "block_header \<Rightarrow> u256 \<Rightarrow> block_hash result"
  \<comment> \<open>\<^verbatim>\<open>PartialMerkleTree::extract_matches\<close>: the root and the matched transaction ids\<close>
  extract_matches :: "bytes \<Rightarrow> (merkle_root \<times> txid list) option"
  \<comment> \<open>\<^verbatim>\<open>OutPoint::to_string\<close> and \<^verbatim>\<open>OutPoint::from_str\<close>\<close>
  outpoint_to_string :: "outpoint \<Rightarrow> string"
  outpoint_from_str :: "string \<Rightarrow> outpoint result"
  \<comment> \<open>\<^verbatim>\<open>Address::from_str\<close> followed by \<^verbatim>\<open>script_pubkey\<close>\<close>
  address_script :: "string \<Rightarrow> string + script"
  \<comment> \<open>\<^verbatim>\<open>Uint128 * Decimal::from_ratio(n, d)\<close>\<close>
  mul_ratio :: "u128 \<Rightarrow> u64 \<Rightarrow> u64 \<Rightarrow> u128 result"
  \<comment> \<open>\<^verbatim>\<open>Api::addr_validate\<close> and the router's \<^verbatim>\<open>simulate_swap\<close>\<close>
  addr_validate :: "string \<Rightarrow> addr option"
  simulate_swap :: "addr \<Rightarrow> u128 \<Rightarrow> swap_operation list \<Rightarrow> u128 option"

end
