(* ===== verification/Signatory.thy ===== *)
theory Signatory
  imports Extern "HOL-Library.Product_Lexorder"
begin

text \<open>
  \<^verbatim>\<open>signatory.rs\<close> (without the key registry, which is in the theory of the stored keys) and
  the key derivation of \<^verbatim>\<open>interface.rs\<close>: signatory sets, how they are built from the
  validators, their thresholds, and the weighted multisig script they stand for, with the
  parser that reads a set back from a script.
\<close>

section \<open>Public keys and extended public keys\<close>

text \<open>\<^verbatim>\<open>Pubkey::new\<close> and \<^verbatim>\<open>Pubkey::try_from_slice\<close> of \<^verbatim>\<open>threshold_sig.rs\<close>.\<close>

definition PUBLIC_KEY_SIZE :: nat where
  "PUBLIC_KEY_SIZE = 33"

definition Pubkey_new :: "'x ext_scheme \<Rightarrow> bytes \<Rightarrow> pubkey result" where
  "Pubkey_new E pubkey =
     (case public_key_from_slice E pubkey of
        Inl err \<Rightarrow> Err (App (''Error deserializing public key from slice: '' @ err))
      | Inr _ \<Rightarrow> Ok pubkey)"

definition Pubkey_try_from_slice :: "'x ext_scheme \<Rightarrow> bytes \<Rightarrow> pubkey result" where
  "Pubkey_try_from_slice E bytes =
     (if length bytes \<noteq> PUBLIC_KEY_SIZE then Err (App ''Incorrect length'')
      else Pubkey_new E bytes)"

text \<open>\<^verbatim>\<open>Xpub\<close>: the derivation of a signatory's key for one signatory set.\<close>

definition TAG_PUBKEY_EVEN :: u8 where "TAG_PUBKEY_EVEN = 2"
definition TAG_PUBKEY_ODD :: u8 where "TAG_PUBKEY_ODD = 3"

definition Xpub_parse_pubkey :: "'x ext_scheme \<Rightarrow> xpub \<Rightarrow> (nat \<times> nat) result" where
  "Xpub_parse_pubkey E self =
     (let bytes = xp_public_key self
      in case field_set_b32 E (take 32 (drop 1 bytes)) of
           None \<Rightarrow> Err (Std ''invalid pubkey'')
         | Some x \<Rightarrow> bnd (index_r bytes 0) (\<lambda>b0. Ok (affine_set_xo E x (b0 = TAG_PUBKEY_ODD))))"

definition Xpub_add_exp_tweak :: "'x ext_scheme \<Rightarrow> xpub \<Rightarrow> bytes \<Rightarrow> pubkey result" where
  "Xpub_add_exp_tweak E self tweak =
     bnd (Xpub_parse_pubkey E self) (\<lambda>elem.
     case scalar_set_b32 E tweak of
       None \<Rightarrow> Err (Std ''invalid secret'')
     | Some scala \<Rightarrow>
         (let r = ecmult_add E elem scala;
              ret = (if odd (snd r) then TAG_PUBKEY_ODD else TAG_PUBKEY_EVEN) # fill_b32 E (fst r)
          in case public_key_from_slice E ret of
               Inl err \<Rightarrow> Err (Secp err)
             | Inr pk \<Rightarrow> Ok pk))"

definition Xpub_derive_pubkey :: "'x ext_scheme \<Rightarrow> xpub \<Rightarrow> u32 \<Rightarrow> pubkey result" where
  "Xpub_derive_pubkey E self sigset_index =
     bnd (from_normal_idx E sigset_index) (\<lambda>child_number.
     bnd (ckd_pub_tweak E self child_number) (\<lambda>sk.
     Xpub_add_exp_tweak E self sk))"

section \<open>Signatory sets\<close>

text \<open>
  \<^verbatim>\<open>Signatory\<close> derives its order from its fields, in their order: voting power, then key.
\<close>

datatype signatory = Signatory (sg_voting_power: u64) (sg_pubkey: pubkey)

instantiation signatory :: linorder
begin

definition less_eq_signatory :: "signatory \<Rightarrow> signatory \<Rightarrow> bool" where
  "less_eq_signatory a b \<longleftrightarrow> (sg_voting_power a, sg_pubkey a) \<le> (sg_voting_power b, sg_pubkey b)"

definition less_signatory :: "signatory \<Rightarrow> signatory \<Rightarrow> bool" where
  "less_signatory a b \<longleftrightarrow> (sg_voting_power a, sg_pubkey a) < (sg_voting_power b, sg_pubkey b)"

instance
proof
  fix x y z :: signatory
  show "x < y \<longleftrightarrow> x \<le> y \<and> \<not> y \<le> x"
    unfolding less_eq_signatory_def less_signatory_def by (rule less_le_not_le)
  show "x \<le> x"
    unfolding less_eq_signatory_def by (rule order_refl)
  show "x \<le> y \<Longrightarrow> y \<le> z \<Longrightarrow> x \<le> z"
    unfolding less_eq_signatory_def by (rule order_trans)
  show "x \<le> y \<Longrightarrow> y \<le> x \<Longrightarrow> x = y"
    unfolding less_eq_signatory_def by (drule (1) order_antisym) (simp add: signatory.expand)
  show "x \<le> y \<or> y \<le> x"
    unfolding less_eq_signatory_def by (rule linear)
qed

end

record signatory_set =
  ss_create_time :: u64
  ss_present_vp :: u64
  ss_possible_vp :: u64
  ss_index :: u32
  ss_signatories :: "signatory list"

type_synonym consensus_key = bytes

text \<open>\<^verbatim>\<open>Validator\<close> of \<^verbatim>\<open>interface.rs\<close>.\<close>

record validator =
  val_pubkey :: consensus_key
  val_power :: u64

definition MAX_SIGNATORIES :: u64 where
  "MAX_SIGNATORIES = 20"

definition SignatorySet_insert :: "signatory_set \<Rightarrow> signatory \<Rightarrow> signatory_set result" where
  "SignatorySet_insert self s =
     bnd (add_u64 (ss_present_vp self) (sg_voting_power s)) (\<lambda>vp.
     Ok (self\<lparr>ss_present_vp := vp, ss_signatories := ss_signatories self @ [s]\<rparr>))"

definition SignatorySet_sort_and_truncate :: "signatory_set \<Rightarrow> signatory_set result" where
  "SignatorySet_sort_and_truncate self =
     (let sorted_sigs = rev (sort (ss_signatories self))
      in if length sorted_sigs > MAX_SIGNATORIES
         then bnd (fold_r (\<lambda>removed vp. sub_w vp (sg_voting_power removed))
                     (drop MAX_SIGNATORIES sorted_sigs) (ss_present_vp self)) (\<lambda>vp.
              Ok (self\<lparr>ss_present_vp := vp, ss_signatories := take MAX_SIGNATORIES sorted_sigs\<rparr>))
         else Ok (self\<lparr>ss_signatories := sorted_sigs\<rparr>))"

text \<open>
  \<^verbatim>\<open>from_validator_ctx\<close> reads the validators in ascending key order and the registered
  extended keys; a validator without a key counts towards the possible voting power only.
\<close>

definition from_validator_step ::
  "'x ext_scheme \<Rightarrow> (consensus_key \<Rightarrow> xpub option) \<Rightarrow> u32 \<Rightarrow> validator \<Rightarrow> signatory_set \<Rightarrow> signatory_set result"
where
  "from_validator_step E sig_keys index entry sigset =
     bnd (add_u64 (ss_possible_vp sigset) (val_power entry)) (\<lambda>vp.
     let sigset = sigset\<lparr>ss_possible_vp := vp\<rparr>
     in case sig_keys (val_pubkey entry) of
          None \<Rightarrow> Ok sigset
        | Some xpub \<Rightarrow>
            bnd (Xpub_derive_pubkey E xpub index) (\<lambda>signatory_key.
            SignatorySet_insert sigset (Signatory (val_power entry) signatory_key)))"

definition SignatorySet_from_validator_ctx ::
  "'x ext_scheme \<Rightarrow> validator list \<Rightarrow> (consensus_key \<Rightarrow> xpub option) \<Rightarrow> u64 \<Rightarrow> u32 \<Rightarrow> signatory_set result"
where
  "SignatorySet_from_validator_ctx E val_set sig_keys create_time index =
     bnd (fold_r (from_validator_step E sig_keys index) val_set
           \<lparr>ss_create_time = create_time, ss_present_vp = 0, ss_possible_vp = 0,
            ss_index = index, ss_signatories = []\<rparr>) (\<lambda>sigset.
     SignatorySet_sort_and_truncate sigset)"

definition SignatorySet_signature_threshold :: "signatory_set \<Rightarrow> u64 \<times> u64 \<Rightarrow> u64 result" where
  "SignatorySet_signature_threshold self ratio =
     bnd (mul_w 128 (ss_present_vp self) (fst ratio)) (\<lambda>p.
     bnd (div_r p (snd ratio)) (\<lambda>q.
     Ok (as_u64 q)))"

definition SignatorySet_quorum_threshold :: "signatory_set \<Rightarrow> u64" where
  "SignatorySet_quorum_threshold self = ss_possible_vp self div 2"

definition SignatorySet_has_quorum :: "signatory_set \<Rightarrow> bool" where
  "SignatorySet_has_quorum self \<longleftrightarrow> SignatorySet_quorum_threshold self \<le> ss_present_vp self"

definition SignatorySet_present_vp :: "signatory_set \<Rightarrow> u64" where
  "SignatorySet_present_vp self = ss_present_vp self"

definition SignatorySet_possible_vp :: "signatory_set \<Rightarrow> u64" where
  "SignatorySet_possible_vp self = ss_possible_vp self"

definition SignatorySet_create_time :: "signatory_set \<Rightarrow> u64" where
  "SignatorySet_create_time self = ss_create_time self"

definition SignatorySet_index :: "signatory_set \<Rightarrow> u32" where
  "SignatorySet_index self = ss_index self"

definition SignatorySet_iter :: "signatory_set \<Rightarrow> signatory list" where
  "SignatorySet_iter self = ss_signatories self"

definition SignatorySet_len :: "signatory_set \<Rightarrow> nat" where
  "SignatorySet_len self = length (ss_signatories self)"

definition SignatorySet_is_empty :: "signatory_set \<Rightarrow> bool" where
  "SignatorySet_is_empty self \<longleftrightarrow> SignatorySet_len self = 0"

text \<open>The number of significant bits, \<^verbatim>\<open>u64::BITS - leading_zeros\<close>.\<close>

fun bit_len :: "nat \<Rightarrow> nat" where
  "bit_len n = (if n = 0 then 0 else Suc (bit_len (n div 2)))"

declare bit_len.simps [simp del]

definition SignatorySet_get_truncation :: "signatory_set \<Rightarrow> u32 \<Rightarrow> u32" where
  "SignatorySet_get_truncation self target_precision =
     saturating_sub (bit_len (ss_present_vp self)) target_precision"

definition SignatorySet_est_witness_vsize :: "signatory_set \<Rightarrow> u64 result" where
  "SignatorySet_est_witness_vsize self =
     bnd (mul_u64 (length (ss_signatories self)) 79) (\<lambda>n. add_u64 n 39)"

section \<open>The redeem script\<close>

definition first_signatory_items :: "nat \<Rightarrow> signatory \<Rightarrow> script_item list" where
  "first_signatory_items truncation s =
     [SBytes (sg_pubkey s), SOp OP_CHECKSIG,
      SOp OP_IF,
        SInt (as_i64 (sg_voting_power s div 2 ^ truncation)),
      SOp OP_ELSE,
        SInt 0,
      SOp OP_ENDIF]"

definition nth_signatory_items :: "nat \<Rightarrow> signatory \<Rightarrow> script_item list" where
  "nth_signatory_items truncation s =
     [SOp OP_SWAP,
      SBytes (sg_pubkey s), SOp OP_CHECKSIG,
      SOp OP_IF,
        SInt (as_i64 (sg_voting_power s div 2 ^ truncation)), SOp OP_ADD,
      SOp OP_ENDIF]"

definition SignatorySet_redeem_script ::
  "'x ext_scheme \<Rightarrow> signatory_set \<Rightarrow> bytes \<Rightarrow> u64 \<times> u64 \<Rightarrow> script result"
where
  "SignatorySet_redeem_script E self dest threshold =
     (let truncation = SignatorySet_get_truncation self 23
      in case ss_signatories self of
           [] \<Rightarrow> Err (App ''Cannot create redeem script for empty signatory set'')
         | signatory # iter \<Rightarrow>
             (let bytes = build_script E (first_signatory_items truncation signatory)
                  @ concat (map (\<lambda>s. build_script E (nth_signatory_items truncation s)) iter)
              in bnd (SignatorySet_signature_threshold self threshold) (\<lambda>t.
                 Ok (bytes
                   @ build_script E [SInt (as_i64 (t div 2 ^ truncation)), SOp OP_GREATERTHAN]
                   @ build_script E [SBytes dest, SOp OP_DROP]))))"

definition SignatorySet_output_script ::
  "'x ext_scheme \<Rightarrow> signatory_set \<Rightarrow> bytes \<Rightarrow> u64 \<times> u64 \<Rightarrow> script result"
where
  "SignatorySet_output_script E self dest threshold =
     bnd (SignatorySet_redeem_script E self dest threshold) (\<lambda>s. Ok (to_v0_p2wsh E s))"

section \<open>Reading a set back from a script\<close>

type_synonym instrs = "instruction option list"

definition take_instruction :: "instrs \<Rightarrow> (instruction \<times> instrs) result" where
  "take_instruction ins =
     (case ins of
        [] \<Rightarrow> Err (App ''Unexpected end of script'')
      | None # _ \<Rightarrow> Err (App ''Failed to read script'')
      | Some i # rest \<Rightarrow> Ok (i, rest))"

definition take_bytes :: "instrs \<Rightarrow> (bytes \<times> instrs) result" where
  "take_bytes ins =
     bnd (take_instruction ins) (\<lambda>(instruction, ins).
     case instruction of
       PushBytes bytes \<Rightarrow> Ok (bytes, ins)
     | Op _ \<Rightarrow> Err (App ''Expected OP_PUSHBYTES''))"

definition take_key :: "'x ext_scheme \<Rightarrow> instrs \<Rightarrow> (pubkey \<times> instrs) result" where
  "take_key E ins =
     bnd (take_bytes ins) (\<lambda>(bytes, ins).
     if length bytes \<noteq> 33 then Err (App ''Expected 33 bytes'')
     else bnd (Pubkey_try_from_slice E bytes) (\<lambda>k. Ok (k, ins)))"

definition take_number :: "'x ext_scheme \<Rightarrow> instrs \<Rightarrow> (i64 \<times> instrs) result" where
  "take_number E ins =
     bnd (take_bytes ins) (\<lambda>(bytes, ins).
     bnd (ok_or (App ''Failed to read scriptint'') (read_scriptint E bytes)) (\<lambda>n. Ok (n, ins)))"

definition take_op :: "'x ext_scheme \<Rightarrow> nat \<Rightarrow> instrs \<Rightarrow> instrs result" where
  "take_op E expected_op ins =
     bnd (take_instruction ins) (\<lambda>(instruction, ins).
     let expected = Err (App (''Expected '' @ opcode_debug E expected_op))
     in case instruction of
          Op op \<Rightarrow> (if op \<noteq> expected_op then expected else Ok ins)
        | PushBytes [] \<Rightarrow> (if OP_FALSE \<noteq> expected_op then expected else Ok ins)
        | PushBytes _ \<Rightarrow> expected)"

definition take_first_signatory :: "'x ext_scheme \<Rightarrow> instrs \<Rightarrow> (signatory \<times> instrs) result" where
  "take_first_signatory E ins =
     bnd (take_key E ins) (\<lambda>(pubkey, ins).
     bnd (take_op E OP_CHECKSIG ins) (\<lambda>ins.
     bnd (take_op E OP_IF ins) (\<lambda>ins.
     bnd (take_number E ins) (\<lambda>(voting_power, ins).
     bnd (take_op E OP_ELSE ins) (\<lambda>ins.
     bnd (take_op E OP_FALSE ins) (\<lambda>ins.
     bnd (take_op E OP_ENDIF ins) (\<lambda>ins.
     Ok (Signatory (i64_as_u64 voting_power) pubkey, ins))))))))"

definition take_nth_signatory :: "'x ext_scheme \<Rightarrow> instrs \<Rightarrow> (signatory \<times> instrs) result" where
  "take_nth_signatory E ins =
     bnd (take_op E OP_SWAP ins) (\<lambda>ins.
     bnd (take_key E ins) (\<lambda>(pubkey, ins).
     bnd (take_op E OP_CHECKSIG ins) (\<lambda>ins.
     bnd (take_op E OP_IF ins) (\<lambda>ins.
     bnd (take_number E ins) (\<lambda>(voting_power, ins).
     bnd (take_op E OP_ADD ins) (\<lambda>ins.
     bnd (take_op E OP_ENDIF ins) (\<lambda>ins.
     Ok (Signatory (i64_as_u64 voting_power) pubkey, ins))))))))"

definition take_threshold :: "'x ext_scheme \<Rightarrow> instrs \<Rightarrow> (u64 \<times> instrs) result" where
  "take_threshold E ins =
     bnd (take_number E ins) (\<lambda>(threshold, ins).
     bnd (take_op E OP_GREATERTHAN ins) (\<lambda>ins.
     Ok (i64_as_u64 threshold, ins)))"

definition take_commitment :: "'x ext_scheme \<Rightarrow> instrs \<Rightarrow> (bytes \<times> instrs) result" where
  "take_commitment E ins =
     bnd (take_bytes ins) (\<lambda>(bytes, ins).
     bnd (take_op E OP_DROP ins) (\<lambda>ins.
     Ok (bytes, ins)))"

text \<open>The loop of \<^verbatim>\<open>from_script\<close>: further signatories as long as the next instruction is
  \<^verbatim>\<open>OP_SWAP\<close>.\<close>

lemma take_op_shorter: "take_op E op ins = Inr ins' \<Longrightarrow> length ins' < length ins"
  by (auto simp: take_op_def take_instruction_def Let_def ok_simps
      split: list.splits option.splits instruction.splits if_splits)

lemma take_bytes_shorter: "take_bytes ins = Inr (b, ins') \<Longrightarrow> length ins' < length ins"
  by (auto simp: take_bytes_def take_instruction_def ok_simps
      split: list.splits option.splits instruction.splits if_splits)

lemma take_key_shorter: "take_key E ins = Inr (k, ins') \<Longrightarrow> length ins' < length ins"
  by (auto simp: take_key_def ok_simps dest!: take_bytes_shorter split: if_splits)

lemma take_number_shorter: "take_number E ins = Inr (k, ins') \<Longrightarrow> length ins' < length ins"
  by (auto simp: take_number_def ok_simps dest!: take_bytes_shorter)

lemma take_nth_signatory_shorter:
  "take_nth_signatory E ins = Inr (s, ins') \<Longrightarrow> length ins' < length ins"
  unfolding take_nth_signatory_def bnd_Inr_iff
  by (fastforce simp: bnd_Inr_iff dest!: take_op_shorter take_key_shorter take_number_shorter)

function take_signatories ::
  "'x ext_scheme \<Rightarrow> instrs \<Rightarrow> signatory list \<Rightarrow> (signatory list \<times> instrs) result"
where
  "take_signatories E ins sigs =
     (case ins of
        [] \<Rightarrow> Err (App ''Unexpected end of script'')
      | None # _ \<Rightarrow> Err (App ''Failed to read script'')
      | Some next # _ \<Rightarrow>
          if next = Op OP_SWAP
          then bnd (take_nth_signatory E ins) (\<lambda>p. take_signatories E (snd p) (sigs @ [fst p]))
          else Ok (sigs, ins))"
  by pat_completeness auto
termination
  by (relation "measure (\<lambda>(E, ins, sigs). length ins)")
    (auto dest: take_nth_signatory_shorter)

declare take_signatories.simps [simp del]

text \<open>The loop that searches, for at most a hundred steps, the voting power that explains the
  threshold found in the script.\<close>

fun adjust_present_vp :: "nat \<Rightarrow> u64 \<times> u64 \<Rightarrow> u64 \<Rightarrow> signatory_set \<Rightarrow> signatory_set result" where
  "adjust_present_vp 0 ratio expected sigset = Ok sigset"
| "adjust_present_vp (Suc n) ratio expected sigset =
     bnd (SignatorySet_signature_threshold sigset ratio) (\<lambda>actual.
     if actual = expected then Ok sigset
     else if actual < expected then
       bnd (add_u64 (ss_present_vp sigset) 1) (\<lambda>vp.
       bnd (add_u64 (ss_possible_vp sigset) 1) (\<lambda>pvp.
       adjust_present_vp n ratio expected (sigset\<lparr>ss_present_vp := vp, ss_possible_vp := pvp\<rparr>)))
     else
       bnd (sub_w (ss_present_vp sigset) 1) (\<lambda>vp.
       bnd (sub_w (ss_possible_vp sigset) 1) (\<lambda>pvp.
       adjust_present_vp n ratio expected (sigset\<lparr>ss_present_vp := vp, ss_possible_vp := pvp\<rparr>))))"

definition SignatorySet_from_script ::
  "'x ext_scheme \<Rightarrow> script \<Rightarrow> u64 \<times> u64 \<Rightarrow> (signatory_set \<times> bytes) result"
where
  "SignatorySet_from_script E script threshold_ratio =
     bnd (take_first_signatory E (script_instructions E script)) (\<lambda>(first, ins).
     bnd (take_signatories E ins [first]) (\<lambda>(sigs, ins).
     bnd (take_threshold E ins) (\<lambda>(expected_threshold, ins).
     bnd (take_commitment E ins) (\<lambda>(commitment, ins).
     bnd (assert_r (ins = [])) (\<lambda>_.
     bnd (sum_u64 0 (map sg_voting_power sigs)) (\<lambda>total_vp.
     bnd (adjust_present_vp 100 threshold_ratio expected_threshold
            \<lparr>ss_create_time = 0, ss_present_vp = total_vp, ss_possible_vp = total_vp,
             ss_index = 0, ss_signatories = sigs\<rparr>) (\<lambda>sigset.
     bnd (SignatorySet_signature_threshold sigset threshold_ratio) (\<lambda>t.
     bnd (assert_r (t = expected_threshold)) (\<lambda>_.
     bnd (SignatorySet_redeem_script E sigset commitment threshold_ratio) (\<lambda>s.
     bnd (assert_r (s = script)) (\<lambda>_.
     Ok (sigset, commitment))))))))))))"

section \<open>Building a set from the validators\<close>

text \<open>
  The specification of \<^verbatim>\<open>from_validator_ctx\<close>: the signatories of the validators that have a
  registered key, in the order of the validators.
\<close>

fun registered ::
  "'x ext_scheme \<Rightarrow> (consensus_key \<Rightarrow> xpub option) \<Rightarrow> u32 \<Rightarrow> validator list \<Rightarrow> signatory list result"
where
  "registered E sig_keys index [] = Ok []"
| "registered E sig_keys index (v # vs) =
     (case sig_keys (val_pubkey v) of
        None \<Rightarrow> registered E sig_keys index vs
      | Some xpub \<Rightarrow>
          bnd (Xpub_derive_pubkey E xpub index) (\<lambda>k.
          bnd (registered E sig_keys index vs) (\<lambda>ss. Ok (Signatory (val_power v) k # ss))))"

lemma from_validator_fold:
  assumes "fold_r (from_validator_step E sig_keys index) vs s = Inr t"
  shows "\<exists>ss. registered E sig_keys index vs = Inr ss \<and>
    t = s\<lparr>ss_signatories := ss_signatories s @ ss,
          ss_present_vp := ss_present_vp s + sum_list (map sg_voting_power ss),
          ss_possible_vp := ss_possible_vp s + sum_list (map val_power vs)\<rparr>"
  using assms
proof (induction vs arbitrary: s)
  case (Cons v vs)
  then obtain s' where s': "from_validator_step E sig_keys index v s = Inr s'"
      and rest: "fold_r (from_validator_step E sig_keys index) vs s' = Inr t"
    by (auto simp: bnd_Inr_iff)
  from Cons.IH [OF rest] obtain ss where ss: "registered E sig_keys index vs = Inr ss"
    "t = s'\<lparr>ss_signatories := ss_signatories s' @ ss,
          ss_present_vp := ss_present_vp s' + sum_list (map sg_voting_power ss),
          ss_possible_vp := ss_possible_vp s' + sum_list (map val_power vs)\<rparr>" by blast
  show ?case
  proof (cases "sig_keys (val_pubkey v)")
    case None
    then show ?thesis using s' ss by (auto simp: from_validator_step_def Let_def ok_simps)
  next
    case (Some x)
    then show ?thesis
      using s' ss by (auto simp: from_validator_step_def SignatorySet_insert_def Let_def ok_simps)
  qed
qed simp

lemma registered_power:
  "registered E sig_keys index vs = Inr ss \<Longrightarrow>
     sum_list (map sg_voting_power ss) \<le> sum_list (map val_power vs)"
proof (induction vs arbitrary: ss)
  case (Cons v vs)
  then show ?case
    by (cases "sig_keys (val_pubkey v)") (auto simp: bnd_Inr_iff intro: trans_le_add2)
qed simp

lemma fold_sub_powers:
  "fold_r (\<lambda>s vp. sub_w vp (sg_voting_power s)) xs n = Inr m \<longleftrightarrow>
     sum_list (map sg_voting_power xs) \<le> n \<and> m = n - sum_list (map sg_voting_power xs)"
proof (induction xs arbitrary: n)
  case (Cons x xs)
  show ?case by (simp add: bnd_Inr_iff sub_w_Inr_iff Cons.IH) linarith
qed auto

lemma sum_list_map_rev_sort [simp]:
  fixes f :: "'a :: linorder \<Rightarrow> nat"
  shows "sum_list (map f (rev (sort xs))) = sum_list (map f xs)"
  by (intro sum_list_mset_eq) simp

lemma sort_and_truncate_ok:
  assumes "ss_present_vp s = sum_list (map sg_voting_power (ss_signatories s))"
  defines "kept \<equiv> take MAX_SIGNATORIES (rev (sort (ss_signatories s)))"
  shows "SignatorySet_sort_and_truncate s =
    Ok (s\<lparr>ss_signatories := kept, ss_present_vp := sum_list (map sg_voting_power kept)\<rparr>)"
proof (cases "length (ss_signatories s) > MAX_SIGNATORIES")
  case True
  let ?r = "rev (sort (ss_signatories s))"
  have "sum_list (map sg_voting_power kept) + sum_list (map sg_voting_power (drop MAX_SIGNATORIES ?r)) =
      ss_present_vp s"
    using sum_list_take_drop [of MAX_SIGNATORIES "map sg_voting_power ?r"]
    by (simp only: kept_def take_map drop_map sum_list_map_rev_sort assms(1))
  then have "fold_r (\<lambda>removed vp. sub_w vp (sg_voting_power removed)) (drop MAX_SIGNATORIES ?r) (ss_present_vp s)
      = (Ok (sum_list (map sg_voting_power kept)) :: nat result)"
    unfolding fold_sub_powers by linarith
  then show ?thesis
    using True by (simp add: SignatorySet_sort_and_truncate_def Let_def kept_def)
next
  case False
  then have "kept = rev (sort (ss_signatories s))" by (simp add: kept_def)
  then show ?thesis
    using False assms(1) sum_list_map_rev_sort [of sg_voting_power "ss_signatories s"]
    by (simp add: SignatorySet_sort_and_truncate_def)
qed

lemma from_validator_ctx_Inr:
  assumes "SignatorySet_from_validator_ctx E vs sig_keys time index = Inr s"
  shows "\<exists>ss. registered E sig_keys index vs = Inr ss \<and>
    s = \<lparr>ss_create_time = time,
         ss_present_vp = sum_list (map sg_voting_power (take MAX_SIGNATORIES (rev (sort ss)))),
         ss_possible_vp = sum_list (map val_power vs), ss_index = index,
         ss_signatories = take MAX_SIGNATORIES (rev (sort ss))\<rparr>"
proof -
  obtain t where f: "fold_r (from_validator_step E sig_keys index) vs
           \<lparr>ss_create_time = time, ss_present_vp = 0, ss_possible_vp = 0, ss_index = index, ss_signatories = []\<rparr> = Inr t"
      and t: "SignatorySet_sort_and_truncate t = Inr s"
    using assms by (auto simp: SignatorySet_from_validator_ctx_def ok_simps)
  from from_validator_fold [OF f] obtain ss where "registered E sig_keys index vs = Inr ss"
      and "t = \<lparr>ss_create_time = time, ss_present_vp = sum_list (map sg_voting_power ss),
         ss_possible_vp = sum_list (map val_power vs), ss_index = index, ss_signatories = ss\<rparr>"
    by auto
  then show ?thesis using t sort_and_truncate_ok [of t] by simp
qed

text \<open>What the rest of the contract relies on in a signatory set.\<close>

definition sigset_ok :: "signatory_set \<Rightarrow> bool" where
  "sigset_ok s \<longleftrightarrow>
     ss_present_vp s = sum_list (map sg_voting_power (ss_signatories s)) \<and>
     ss_present_vp s \<le> ss_possible_vp s \<and>
     length (ss_signatories s) \<le> MAX_SIGNATORIES \<and>
     sorted_wrt (\<ge>) (ss_signatories s)"

lemma from_validator_ctx_sigset_ok:
  assumes "SignatorySet_from_validator_ctx E vs sig_keys time index = Inr s"
  shows "sigset_ok s"
proof -
  obtain ss where r: "registered E sig_keys index vs = Inr ss"
      and s: "s = \<lparr>ss_create_time = time,
         ss_present_vp = sum_list (map sg_voting_power (take MAX_SIGNATORIES (rev (sort ss)))),
         ss_possible_vp = sum_list (map val_power vs), ss_index = index,
         ss_signatories = take MAX_SIGNATORIES (rev (sort ss))\<rparr>"
    using from_validator_ctx_Inr [OF assms] by blast
  have "sum_list (map sg_voting_power (take MAX_SIGNATORIES (rev (sort ss)))) \<le>
      sum_list (map sg_voting_power (rev (sort ss)))"
    using sum_list_take_drop [of MAX_SIGNATORIES "map sg_voting_power (rev (sort ss))"]
    unfolding take_map by linarith
  also have "\<dots> = sum_list (map sg_voting_power ss)" by (rule sum_list_map_rev_sort)
  also have "\<dots> \<le> sum_list (map val_power vs)" by (rule registered_power [OF r])
  finally show ?thesis
    by (simp add: s sigset_ok_def sorted_wrt_take sorted_wrt_rev)
qed

text \<open>
  C25: The signatory set of a block is made of the registered validators: it holds the (at most
  twenty) strongest of the validators with a registered key, strongest first, each with its voting
  power and the key derived for the index of the set; \<^verbatim>\<open>present_vp\<close> is the power of the members
  that are kept and \<^verbatim>\<open>possible_vp\<close> the power of all validators.
\<close>

theorem signatory_set_of_validators:
  assumes "SignatorySet_from_validator_ctx E vs sig_keys time index = Ok s"
  shows "\<exists>ss. registered E sig_keys index vs = Ok ss \<and>
    ss_signatories s = take 20 (rev (sort ss)) \<and> sorted_wrt (\<ge>) (ss_signatories s) \<and>
    ss_present_vp s = sum_list (map sg_voting_power (ss_signatories s)) \<and>
    ss_possible_vp s = sum_list (map val_power vs) \<and> ss_present_vp s \<le> ss_possible_vp s \<and>
    ss_create_time s = time \<and> ss_index s = index"
  using from_validator_ctx_Inr [OF assms] from_validator_ctx_sigset_ok [OF assms]
  by (auto simp: sigset_ok_def MAX_SIGNATORIES_def)

section \<open>Truncation of voting powers\<close>

lemma bit_len_less: "n < 2 ^ bit_len n"
proof (induction n rule: bit_len.induct)
  case (1 n)
  then show ?case
    by (cases "n = 0") (auto simp: bit_len.simps [of n])
qed

text \<open>A voting power of at most the total fits in 23 bits after truncation.\<close>

lemma truncated_less:
  assumes "n \<le> ss_present_vp s"
  shows "n div 2 ^ SignatorySet_get_truncation s 23 < 2 ^ 23"
proof -
  have "n < 2 ^ bit_len (ss_present_vp s)" using assms bit_len_less le_less_trans by blast
  also have "\<dots> \<le> 2 ^ (SignatorySet_get_truncation s 23 + 23)"
    by (intro power_increasing) (simp_all add: SignatorySet_get_truncation_def)
  finally show ?thesis by (simp add: less_mult_imp_div_less power_add mult.commute)
qed

lemma as_i64_small: "n < 2 ^ 63 \<Longrightarrow> as_i64 n = int n"
  by (simp add: as_i64_def)

lemma signature_threshold_le:
  assumes "SignatorySet_signature_threshold s ratio = Inr t" and "fst ratio \<le> snd ratio"
    and "ss_present_vp s < 2 ^ 64"
  shows "t = ss_present_vp s * fst ratio div snd ratio \<and> t \<le> ss_present_vp s"
proof -
  have "ss_present_vp s * fst ratio div snd ratio \<le> ss_present_vp s * snd ratio div snd ratio"
    by (intro div_le_mono mult_le_mono2 assms(2))
  also have "\<dots> \<le> ss_present_vp s" by (cases "snd ratio = 0") simp_all
  finally have le: "ss_present_vp s * fst ratio div snd ratio \<le> ss_present_vp s" .
  then have "t = ss_present_vp s * fst ratio div snd ratio"
    using assms(1,3) by (auto simp: SignatorySet_signature_threshold_def ok_simps as_u64_def)
  with le show ?thesis by simp
qed

end
