(* ===== verification/ThresholdSig.thy ===== *)
theory ThresholdSig
  imports Signatory
begin

text \<open>
  \<^verbatim>\<open>threshold_sig.rs\<close>: the state that collects the signatures of a signatory set on one
  message, how a signature is added, and the witness that is built from it.
\<close>

section \<open>State\<close>

record share =
  sh_power :: u64
  sh_sig :: "signature option"

record threshold_sig =
  ts_threshold :: u64
  ts_signed :: u64
  ts_message :: message
  ts_len :: u16
  ts_sigs :: "(pubkey \<times> share) list"

definition SIGSET_THRESHOLD :: "u64 \<times> u64" where
  "SIGSET_THRESHOLD = (2, 3)"

section \<open>Operations\<close>

definition ThresholdSig_new :: threshold_sig where
  "ThresholdSig_new =
     \<lparr>ts_threshold = 0, ts_signed = 0, ts_message = replicate 32 0, ts_len = 0, ts_sigs = []\<rparr>"

definition ThresholdSig_len :: "threshold_sig \<Rightarrow> u16" where
  "ThresholdSig_len self = ts_len self"

definition ThresholdSig_message :: "threshold_sig \<Rightarrow> message" where
  "ThresholdSig_message self = ts_message self"

definition ThresholdSig_shares :: "threshold_sig \<Rightarrow> (pubkey \<times> share) list" where
  "ThresholdSig_shares self = ts_sigs self"

definition ThresholdSig_set_message :: "threshold_sig \<Rightarrow> message \<Rightarrow> threshold_sig" where
  "ThresholdSig_set_message self m = self\<lparr>ts_message := m\<rparr>"

definition ThresholdSig_clear_sigs :: "threshold_sig \<Rightarrow> threshold_sig" where
  "ThresholdSig_clear_sigs self =
     self\<lparr>ts_signed := 0, ts_sigs := map (\<lambda>(k, sh). (k, sh\<lparr>sh_sig := None\<rparr>)) (ts_sigs self)\<rparr>"

text \<open>The threshold both constructors give a set of the total voting power \<open>total_vp\<close>.\<close>

definition sigset_threshold_of :: "u64 \<Rightarrow> u64 result" where
  "sigset_threshold_of total_vp =
     bnd (mul_w 128 total_vp (fst SIGSET_THRESHOLD)) (\<lambda>p.
     bnd (div_r p (snd SIGSET_THRESHOLD)) (\<lambda>q. Ok (as_u64 q)))"

definition from_sigset_step :: "signatory \<Rightarrow> threshold_sig \<times> u64 \<Rightarrow> (threshold_sig \<times> u64) result" where
  "from_sigset_step s st =
     (case st of (ts, total_vp) \<Rightarrow>
        bnd (add_u16 (ts_len ts) 1) (\<lambda>n.
        bnd (add_u64 total_vp (sg_voting_power s)) (\<lambda>vp.
        Ok (ts\<lparr>ts_sigs := ts_sigs ts @ [(sg_pubkey s, \<lparr>sh_power = sg_voting_power s, sh_sig = None\<rparr>)],
               ts_len := n\<rparr>, vp))))"

definition ThresholdSig_from_sigset :: "signatory_set \<Rightarrow> threshold_sig result" where
  "ThresholdSig_from_sigset signatories =
     bnd (fold_r from_sigset_step (ss_signatories signatories) (ThresholdSig_new, 0)) (\<lambda>(ts, total_vp).
     bnd (sigset_threshold_of total_vp) (\<lambda>t.
     Ok (ts\<lparr>ts_threshold := t\<rparr>)))"

definition from_shares_step ::
  "pubkey \<times> share \<Rightarrow> threshold_sig \<times> u64 \<times> u16 \<Rightarrow> (threshold_sig \<times> u64 \<times> u16) result"
where
  "from_shares_step entry st =
     (case st of (ts, total_vp, n) \<Rightarrow>
        bnd (assert_r (sh_sig (snd entry) = None)) (\<lambda>_.
        bnd (add_u64 total_vp (sh_power (snd entry))) (\<lambda>vp.
        bnd (add_u16 n 1) (\<lambda>n.
        Ok (ts\<lparr>ts_sigs := ts_sigs ts @ [entry]\<rparr>, vp, n)))))"

definition ThresholdSig_from_shares :: "(pubkey \<times> share) list \<Rightarrow> threshold_sig result" where
  "ThresholdSig_from_shares shares =
     bnd (fold_r from_shares_step shares (ThresholdSig_new, 0, 0)) (\<lambda>(ts, total_vp, n).
     bnd (sigset_threshold_of total_vp) (\<lambda>t.
     Ok (ts\<lparr>ts_threshold := t, ts_len := n\<rparr>)))"

definition ThresholdSig_signed :: "threshold_sig \<Rightarrow> bool" where
  "ThresholdSig_signed self \<longleftrightarrow> ts_signed self > ts_threshold self"

definition ThresholdSig_sigs :: "threshold_sig \<Rightarrow> (pubkey \<times> signature) list" where
  "ThresholdSig_sigs self =
     List.map_filter (\<lambda>(k, sh). map_option (Pair k) (sh_sig sh)) (ts_sigs self)"

definition ThresholdSig_contains_key :: "threshold_sig \<Rightarrow> pubkey \<Rightarrow> bool" where
  "ThresholdSig_contains_key self pubkey \<longleftrightarrow> list_ex (\<lambda>(k, _). pubkey = k) (ts_sigs self)"

definition ThresholdSig_needs_sig :: "threshold_sig \<Rightarrow> pubkey \<Rightarrow> bool" where
  "ThresholdSig_needs_sig self pubkey \<longleftrightarrow>
     (case find (\<lambda>(k, _). pubkey = k) (ts_sigs self) of
        None \<Rightarrow> False
      | Some (_, sh) \<Rightarrow> sh_sig sh = None)"

definition ThresholdSig_secp_verify :: "'x ext_scheme \<Rightarrow> message \<Rightarrow> pubkey \<Rightarrow> signature \<Rightarrow> unit result" where
  "ThresholdSig_secp_verify E msg pubkey sig =
     bnd (secp256k1_verify E msg sig pubkey) (\<lambda>verified.
     throw_if (\<not> verified) (App ''Can not verify signature''))"

definition ThresholdSig_verify :: "'x ext_scheme \<Rightarrow> threshold_sig \<Rightarrow> pubkey \<Rightarrow> signature \<Rightarrow> unit result" where
  "ThresholdSig_verify E self pubkey sig = ThresholdSig_secp_verify E (ts_message self) pubkey sig"

text \<open>The index of the first entry with a key, which \<^verbatim>\<open>iter_mut().find\<close> borrows.\<close>

fun key_position :: "pubkey \<Rightarrow> (pubkey \<times> 'a) list \<Rightarrow> nat option" where
  "key_position k [] = None"
| "key_position k (e # es) = (if k = fst e then Some 0 else map_option Suc (key_position k es))"

definition ThresholdSig_sign ::
  "'x ext_scheme \<Rightarrow> threshold_sig \<Rightarrow> pubkey \<Rightarrow> signature \<Rightarrow> threshold_sig result"
where
  "ThresholdSig_sign E self pubkey sig =
     bnd (unwrap (key_position pubkey (ts_sigs self))) (\<lambda>i.
     let share = snd (ts_sigs self ! i)
     in bnd (throw_if (sh_sig share \<noteq> None) (App ''Pubkey already signed'')) (\<lambda>_.
        bnd (ThresholdSig_secp_verify E (ts_message self) pubkey sig) (\<lambda>_.
        bnd (add_u64 (ts_signed self) (sh_power share)) (\<lambda>n.
        Ok (self\<lparr>ts_sigs := (ts_sigs self)[i := (fst (ts_sigs self ! i), share\<lparr>sh_sig := Some sig\<rparr>)],
                 ts_signed := n\<rparr>)))))"

definition EcdsaSighashType_All :: u8 where
  "EcdsaSighashType_All = 1"

definition share_witness :: "'x ext_scheme \<Rightarrow> pubkey \<times> share \<Rightarrow> bytes result" where
  "share_witness E entry =
     (case sh_sig (snd entry) of
        None \<Rightarrow> Ok []
      | Some sig \<Rightarrow> bnd (signature_der E sig) (\<lambda>v. Ok (v @ [EcdsaSighashType_All])))"

definition ThresholdSig_to_witness :: "'x ext_scheme \<Rightarrow> threshold_sig \<Rightarrow> bytes list result" where
  "ThresholdSig_to_witness E self =
     (if \<not> ThresholdSig_signed self then Ok []
      else map_r (share_witness E) (sort_key (\<lambda>(k, sh). (sh_power sh, k)) (ts_sigs self)))"

section \<open>The invariant of the signing state\<close>

text \<open>The voting power of the entries that carry a signature.\<close>

definition signed_power :: "(pubkey \<times> share) list \<Rightarrow> nat" where
  "signed_power es = sum_list (map (\<lambda>(k, sh). if sh_sig sh = None then 0 else sh_power sh) es)"

definition total_power :: "(pubkey \<times> share) list \<Rightarrow> nat" where
  "total_power es = sum_list (map (sh_power \<circ> snd) es)"

text \<open>An entry without a signature, or with one that its key made for the message.\<close>

definition entry_valid :: "'x ext_scheme \<Rightarrow> message \<Rightarrow> pubkey \<times> share \<Rightarrow> bool" where
  "entry_valid E m e \<longleftrightarrow> (case sh_sig (snd e) of None \<Rightarrow> True
     | Some sig \<Rightarrow> secp256k1_verify E m sig (fst e) = Ok True)"

text \<open>
  A well-formed signing state: the counter \<^verbatim>\<open>signed\<close> is the voting power of the entries
  that carry a signature, every signature was accepted for the message and the key of its
  entry, the counter \<^verbatim>\<open>len\<close> is the number of entries and the threshold is two thirds of
  the total.
\<close>

definition ts_inv :: "'x ext_scheme \<Rightarrow> threshold_sig \<Rightarrow> bool" where
  "ts_inv E ts \<longleftrightarrow>
     ts_signed ts = signed_power (ts_sigs ts) \<and>
     ts_len ts = length (ts_sigs ts) \<and>
     total_power (ts_sigs ts) < 2 ^ 64 \<and>
     ts_threshold ts = total_power (ts_sigs ts) * 2 div 3 \<and>
     list_all (entry_valid E (ts_message ts)) (ts_sigs ts)"

lemma key_position_SomeD:
  "key_position k es = Some i \<Longrightarrow> i < length es \<and> fst (es ! i) = k"
  by (induction es arbitrary: i) (auto split: if_splits)

lemma key_position_None_iff: "key_position k es = None \<longleftrightarrow> k \<notin> fst ` set es"
  by (induction es) auto

lemma find_key_position:
  "find (\<lambda>(k', _). k = k') es = map_option (\<lambda>i. es ! i) (key_position k es)"
  by (induction es) (auto simp: option.map_comp comp_def)

lemma needs_sig_iff:
  "ThresholdSig_needs_sig ts k \<longleftrightarrow>
     (\<exists>i. key_position k (ts_sigs ts) = Some i \<and> sh_sig (snd (ts_sigs ts ! i)) = None)"
  by (auto simp: ThresholdSig_needs_sig_def find_key_position split: option.splits prod.splits)

lemma contains_key_iff: "ThresholdSig_contains_key ts k \<longleftrightarrow> k \<in> fst ` set (ts_sigs ts)"
  by (force simp: ThresholdSig_contains_key_def list_ex_iff)

lemma secp_verify_Inr_iff [ok_simps]:
  "ThresholdSig_secp_verify E m k sig = Inr u \<longleftrightarrow> secp256k1_verify E m sig k = Ok True"
  by (auto simp: ThresholdSig_secp_verify_def ok_simps)

lemma signed_power_le: "signed_power es \<le> total_power es"
  by (induction es) (auto simp: signed_power_def total_power_def)

lemma sum_list_update_zero:
  fixes f :: "'a \<Rightarrow> nat"
  shows "i < length es \<Longrightarrow> f (es ! i) = 0 \<Longrightarrow>
    sum_list (map f (es[i := e])) = sum_list (map f es) + f e"
  by (induction es arbitrary: i) (auto split: nat.splits)

lemma signed_power_update:
  assumes "i < length es" and "sh_sig (snd (es ! i)) = None"
  shows "signed_power (es[i := (k, (snd (es ! i))\<lparr>sh_sig := Some sig\<rparr>)]) =
    signed_power es + sh_power (snd (es ! i))"
  unfolding signed_power_def using assms
  by (subst sum_list_update_zero) (auto split: prod.splits)

lemma total_power_update:
  assumes "i < length es"
  shows "total_power (es[i := (k, (snd (es ! i))\<lparr>sh_sig := s\<rparr>)]) = total_power es"
proof -
  have "map (sh_power \<circ> snd) (es[i := (k, (snd (es ! i))\<lparr>sh_sig := s\<rparr>)]) =
      (map (sh_power \<circ> snd) es)[i := sh_power (snd (es ! i))]"
    by (simp add: map_update)
  also have "\<dots> = map (sh_power \<circ> snd) es"
    using assms by (intro nth_equalityI) (auto simp: nth_list_update)
  finally show ?thesis by (simp only: total_power_def)
qed

text \<open>Everything a successful call of \<^verbatim>\<open>sign\<close> does.\<close>

lemma ThresholdSig_sign_Inr_iff:
  "ThresholdSig_sign E ts k sig = Inr ts' \<longleftrightarrow>
    (\<exists>i. key_position k (ts_sigs ts) = Some i \<and> sh_sig (snd (ts_sigs ts ! i)) = None \<and>
       secp256k1_verify E (ts_message ts) sig k = Ok True \<and>
       ts_signed ts + sh_power (snd (ts_sigs ts ! i)) < 2 ^ 64 \<and>
       ts' = ts\<lparr>ts_sigs := (ts_sigs ts)[i := (k, (snd (ts_sigs ts ! i))\<lparr>sh_sig := Some sig\<rparr>)],
                ts_signed := ts_signed ts + sh_power (snd (ts_sigs ts ! i))\<rparr>)"
  by (auto simp: ThresholdSig_sign_def Let_def ok_simps dest: key_position_SomeD)

lemma ts_inv_sign:
  assumes inv: "ts_inv E ts" and sign: "ThresholdSig_sign E ts k sig = Inr ts'"
  shows "ts_inv E ts'"
proof -
  obtain i where i: "key_position k (ts_sigs ts) = Some i"
      and none: "sh_sig (snd (ts_sigs ts ! i)) = None"
      and ver: "secp256k1_verify E (ts_message ts) sig k = Ok True"
      and ts': "ts' = ts\<lparr>ts_sigs := (ts_sigs ts)[i := (k, (snd (ts_sigs ts ! i))\<lparr>sh_sig := Some sig\<rparr>)],
                ts_signed := ts_signed ts + sh_power (snd (ts_sigs ts ! i))\<rparr>"
    using sign by (auto simp: ThresholdSig_sign_Inr_iff)
  have len: "i < length (ts_sigs ts)" using key_position_SomeD [OF i] by simp
  have set: "set (ts_sigs ts') \<subseteq> insert (k, (snd (ts_sigs ts ! i))\<lparr>sh_sig := Some sig\<rparr>) (set (ts_sigs ts))"
    unfolding ts' by (simp add: set_update_subset_insert)
  have "ts_message ts' = ts_message ts" by (simp add: ts')
  moreover have "entry_valid E (ts_message ts) (k, (snd (ts_sigs ts ! i))\<lparr>sh_sig := Some sig\<rparr>)"
    using ver by (simp add: entry_valid_def)
  ultimately have "list_all (entry_valid E (ts_message ts')) (ts_sigs ts')"
    using inv set unfolding ts_inv_def list_all_iff by auto
  moreover have "ts_signed ts' = signed_power (ts_sigs ts')" "total_power (ts_sigs ts') = total_power (ts_sigs ts)"
    using inv by (simp_all add: ts' ts_inv_def signed_power_update [OF len none] total_power_update [OF len])
  ultimately show ?thesis
    using inv by (simp add: ts_inv_def ts')
qed

lemma ts_inv_sign_progress:
  assumes inv: "ts_inv E ts" and needs: "ThresholdSig_needs_sig ts k"
    and ver: "secp256k1_verify E (ts_message ts) sig k = Ok True"
  shows "\<exists>ts'. ThresholdSig_sign E ts k sig = Inr ts'"
proof -
  obtain i where i: "key_position k (ts_sigs ts) = Some i"
      and none: "sh_sig (snd (ts_sigs ts ! i)) = None"
    using needs by (auto simp: needs_sig_iff)
  have len: "i < length (ts_sigs ts)" using key_position_SomeD [OF i] by simp
  have "signed_power (ts_sigs ts) + sh_power (snd (ts_sigs ts ! i)) \<le> total_power (ts_sigs ts)"
    using signed_power_update [OF len none, of k sig] total_power_update [OF len, of k "Some sig"]
      signed_power_le by metis
  then have "ts_signed ts + sh_power (snd (ts_sigs ts ! i)) < 2 ^ 64"
    using inv by (simp add: ts_inv_def)
  then show ?thesis
    using i none ver by (auto simp: ThresholdSig_sign_Inr_iff)
qed

section \<open>The constructors\<close>

lemma sigset_threshold_of_Inr_iff:
  "sigset_threshold_of n = Inr t \<longleftrightarrow> n * 2 < 2 ^ 128 \<and> t = (n * 2 div 3) mod 2 ^ 64"
  by (auto simp: sigset_threshold_of_def SIGSET_THRESHOLD_def ok_simps as_u64_def)

lemma sigset_threshold_of_small:
  assumes "n < 2 ^ 64"
  shows "sigset_threshold_of n = Ok (n * 2 div 3)"
proof -
  have "n * 2 < 2 ^ 128" using assms by simp
  moreover have "n * 2 div 3 < 2 ^ 64" using assms by linarith
  ultimately show ?thesis by (simp add: sigset_threshold_of_Inr_iff)
qed

definition unsigned_entry :: "signatory \<Rightarrow> pubkey \<times> share" where
  "unsigned_entry s = (sg_pubkey s, \<lparr>sh_power = sg_voting_power s, sh_sig = None\<rparr>)"

lemma from_sigset_step_Inr_iff:
  "from_sigset_step s (ts, vp) = Inr r \<longleftrightarrow> ts_len ts + 1 < 2 ^ 16 \<and> vp + sg_voting_power s < 2 ^ 64 \<and>
     r = (ts\<lparr>ts_sigs := ts_sigs ts @ [unsigned_entry s], ts_len := ts_len ts + 1\<rparr>, vp + sg_voting_power s)"
  by (auto simp: from_sigset_step_def ok_simps unsigned_entry_def)

lemma from_sigset_fold:
  assumes "fold_r from_sigset_step ss (ts, vp) = Inr (ts', vp')" and "vp < 2 ^ 64"
  shows "ts' = ts\<lparr>ts_sigs := ts_sigs ts @ map unsigned_entry ss, ts_len := ts_len ts + length ss\<rparr> \<and>
    vp' = vp + sum_list (map sg_voting_power ss) \<and> vp' < 2 ^ 64"
  using assms
proof (induction ss arbitrary: ts vp)
  case (Cons s ss)
  then show ?case
    by (auto simp: from_sigset_step_Inr_iff bnd_Inr_iff dest!: Cons.IH)
qed simp

lemma unsigned_entry_powers:
  "signed_power (map unsigned_entry ss) = 0"
  "total_power (map unsigned_entry ss) = sum_list (map sg_voting_power ss)"
  by (induction ss) (auto simp: signed_power_def total_power_def unsigned_entry_def)

lemma from_sigset_Inr:
  assumes "ThresholdSig_from_sigset ss = Inr ts"
  shows "ts_sigs ts = map unsigned_entry (ss_signatories ss) \<and> ts_inv E ts \<and>
    ts_threshold ts = sum_list (map sg_voting_power (ss_signatories ss)) * 2 div 3"
proof -
  obtain ts0 vp t where f: "fold_r from_sigset_step (ss_signatories ss) (ThresholdSig_new, 0) = Inr (ts0, vp)"
      and t: "sigset_threshold_of vp = Inr t" and ts: "ts = ts0\<lparr>ts_threshold := t\<rparr>"
    using assms by (auto simp: ThresholdSig_from_sigset_def ok_simps)
  from from_sigset_fold [OF f] have vp: "vp = sum_list (map sg_voting_power (ss_signatories ss))"
      "vp < 2 ^ 64" and ts0: "ts0 = ThresholdSig_new\<lparr>ts_sigs := map unsigned_entry (ss_signatories ss),
        ts_len := length (ss_signatories ss)\<rparr>"
    by (auto simp: ThresholdSig_new_def)
  have t': "t = vp * 2 div 3" using t sigset_threshold_of_small [OF vp(2)] by simp
  show ?thesis
    using vp(2) unfolding ts ts0 t' vp(1)
    by (simp add: ts_inv_def unsigned_entry_powers ThresholdSig_new_def list_all_iff entry_valid_def unsigned_entry_def)
qed

lemma from_sigset_fold_ok:
  assumes "ts_len ts + length ss < 2 ^ 16" and "vp + sum_list (map sg_voting_power ss) < 2 ^ 64"
  shows "\<exists>r. fold_r from_sigset_step ss (ts, vp) = Inr r"
  using assms
proof (induction ss arbitrary: ts vp)
  case (Cons s ss)
  have "ts_len ts + 1 < 2 ^ 16" "vp + sg_voting_power s < 2 ^ 64" using Cons.prems by simp_all
  then show ?case
    using Cons.IH Cons.prems by (simp add: from_sigset_step_def add_w_def)
qed simp

lemma from_sigset_ok:
  assumes "length (ss_signatories ss) < 2 ^ 16"
    and "sum_list (map sg_voting_power (ss_signatories ss)) < 2 ^ 64"
  shows "\<exists>ts. ThresholdSig_from_sigset ss = Inr ts"
proof -
  obtain ts vp where f: "fold_r from_sigset_step (ss_signatories ss) (ThresholdSig_new, 0) = Inr (ts, vp)"
    using from_sigset_fold_ok [of ThresholdSig_new "ss_signatories ss" 0] assms
    by (auto simp: ThresholdSig_new_def)
  have "vp < 2 ^ 64" using from_sigset_fold [OF f] by simp
  then show ?thesis
    using f sigset_threshold_of_small by (simp add: ThresholdSig_from_sigset_def)
qed

text \<open>A state made from the shares of another one.\<close>

lemma from_shares_step_Inr_iff:
  "from_shares_step e (ts, vp, n) = Inr r \<longleftrightarrow> sh_sig (snd e) = None \<and> vp + sh_power (snd e) < 2 ^ 64 \<and> n + 1 < 2 ^ 16 \<and>
     r = (ts\<lparr>ts_sigs := ts_sigs ts @ [e]\<rparr>, vp + sh_power (snd e), n + 1)"
  by (auto simp: from_shares_step_def ok_simps)

lemma from_shares_fold:
  assumes "fold_r from_shares_step es (ts, vp, n) = Inr (ts', vp', n')" and "vp < 2 ^ 64"
  shows "ts' = ts\<lparr>ts_sigs := ts_sigs ts @ es\<rparr> \<and> vp' = vp + total_power es \<and> vp' < 2 ^ 64 \<and> n' = n + length es"
  using assms
proof (induction es arbitrary: ts vp n)
  case (Cons e es)
  then show ?case
    by (auto simp: from_shares_step_Inr_iff bnd_Inr_iff total_power_def dest!: Cons.IH)
qed (simp add: total_power_def)

lemma from_sigset_eq:
  assumes "ThresholdSig_from_sigset ss = Inr ts"
  shows "ts = \<lparr>ts_threshold = sum_list (map sg_voting_power (ss_signatories ss)) * 2 div 3, ts_signed = 0,
    ts_message = replicate 32 0, ts_len = length (ss_signatories ss), ts_sigs = map unsigned_entry (ss_signatories ss)\<rparr>"
proof -
  obtain ts0 vp t where f: "fold_r from_sigset_step (ss_signatories ss) (ThresholdSig_new, 0) = Inr (ts0, vp)"
      and ts: "ts = ts0\<lparr>ts_threshold := t\<rparr>"
    using assms by (auto simp: ThresholdSig_from_sigset_def ok_simps)
  show ?thesis
    using from_sigset_fold [OF f] from_sigset_Inr [OF assms, THEN conjunct2, THEN conjunct2]
    by (simp add: ts ThresholdSig_new_def)
qed

text \<open>The shares of a fresh state give the fresh state again.\<close>

lemma from_shares_fresh:
  assumes "ThresholdSig_from_sigset ss = Inr ts" and "ThresholdSig_from_shares (ts_sigs ts) = Inr ts'"
  shows "ts' = ts"
proof -
  obtain ts0 vp n t where f: "fold_r from_shares_step (ts_sigs ts) (ThresholdSig_new, 0, 0) = Inr (ts0, vp, n)"
      and t: "sigset_threshold_of vp = Inr t" and ts': "ts' = ts0\<lparr>ts_threshold := t, ts_len := n\<rparr>"
    using assms(2) by (auto simp: ThresholdSig_from_shares_def ok_simps)
  note F = from_shares_fold [OF f]
  have "t = vp * 2 div 3" using t sigset_threshold_of_small [of vp] F by simp
  then show ?thesis
    using F from_sigset_eq [OF assms(1)]
    by (simp add: ts' ThresholdSig_new_def unsigned_entry_powers)
qed

section \<open>What signing changes\<close>

lemma key_position_update:
  "i < length es \<Longrightarrow> fst e = fst (es ! i) \<Longrightarrow> key_position k (es[i := e]) = key_position k es"
  by (induction es arbitrary: i) (auto simp: nth_Cons split: nat.splits)

lemma sign_state:
  assumes "ThresholdSig_sign E ts k sig = Inr ts'"
  shows "ts_message ts' = ts_message ts" and "ts_threshold ts' = ts_threshold ts"
    and "ts_signed ts \<le> ts_signed ts'" and "map fst (ts_sigs ts') = map fst (ts_sigs ts)"
    and "map (sh_power \<circ> snd) (ts_sigs ts') = map (sh_power \<circ> snd) (ts_sigs ts)"
    and "\<not> ThresholdSig_needs_sig ts' k"
    and "secp256k1_verify E (ts_message ts) sig k = Ok True"
proof -
  obtain i where i: "key_position k (ts_sigs ts) = Some i"
      and ver: "secp256k1_verify E (ts_message ts) sig k = Ok True"
      and ts': "ts' = ts\<lparr>ts_sigs := (ts_sigs ts)[i := (k, (snd (ts_sigs ts ! i))\<lparr>sh_sig := Some sig\<rparr>)],
                ts_signed := ts_signed ts + sh_power (snd (ts_sigs ts ! i))\<rparr>"
    using assms by (auto simp: ThresholdSig_sign_Inr_iff)
  have len: "i < length (ts_sigs ts)" and k: "fst (ts_sigs ts ! i) = k"
    using key_position_SomeD [OF i] by simp_all
  show "map fst (ts_sigs ts') = map fst (ts_sigs ts)"
    unfolding ts' using k by (auto simp: map_update intro: list_update_id)
      (metis k len list_update_id nth_map)
  show "map (sh_power \<circ> snd) (ts_sigs ts') = map (sh_power \<circ> snd) (ts_sigs ts)"
    unfolding ts' using len by (auto simp: map_update) (metis comp_apply list_update_id nth_map)
  have "key_position k (ts_sigs ts') = Some i"
    using i k len by (simp add: ts' key_position_update)
  then show "\<not> ThresholdSig_needs_sig ts' k"
    using len by (simp add: needs_sig_iff ts')
qed (use assms in \<open>auto simp: ThresholdSig_sign_Inr_iff\<close>)

lemma sign_signed_mono:
  "ThresholdSig_sign E ts k sig = Inr ts' \<Longrightarrow> ThresholdSig_signed ts \<Longrightarrow> ThresholdSig_signed ts'"
  using sign_state(2,3) [of E ts k sig ts'] by (simp add: ThresholdSig_signed_def)

lemma sign_needs: "ThresholdSig_sign E ts k sig = Inr ts' \<Longrightarrow> ThresholdSig_needs_sig ts k"
  by (auto simp: ThresholdSig_sign_Inr_iff needs_sig_iff)


section \<open>The states of a signing round\<close>

text \<open>
  The signing states an input goes through: a state made from the signatory set, with the
  message of the final transaction, and then any number of accepted signatures.
\<close>

lemma map_pair_signatories:
  "map fst es = map sg_pubkey ss \<Longrightarrow> map (sh_power \<circ> snd) es = map sg_voting_power ss \<Longrightarrow>
     map (\<lambda>(k, sh). (sh_power sh, k)) es = map (\<lambda>s. (sg_voting_power s, sg_pubkey s)) ss"
  by (induction es arbitrary: ss) (auto simp: Cons_eq_map_conv)

lemma map_nth_eq_signatories:
  "map fst es = map sg_pubkey ss \<Longrightarrow> map (sh_power \<circ> snd) es = map sg_voting_power ss \<Longrightarrow>
     map (\<lambda>e. Signatory (sh_power (snd e)) (fst e)) es = ss"
  by (induction es arbitrary: ss) (auto simp: Cons_eq_map_conv)

inductive ts_reachable :: "'x ext_scheme \<Rightarrow> signatory_set \<Rightarrow> threshold_sig \<Rightarrow> bool" for E ss where
  start: "ThresholdSig_from_sigset ss = Ok ts \<Longrightarrow> ts_reachable E ss (ThresholdSig_set_message ts m)"
| sign: "ts_reachable E ss ts \<Longrightarrow> ThresholdSig_sign E ts k sig = Ok ts' \<Longrightarrow> ts_reachable E ss ts'"

lemma ts_reachable_inv:
  assumes "ts_reachable E ss ts"
  shows "ts_inv E ts \<and> map fst (ts_sigs ts) = map sg_pubkey (ss_signatories ss) \<and>
    map (sh_power \<circ> snd) (ts_sigs ts) = map sg_voting_power (ss_signatories ss)"
  using assms
proof induction
  case (start ts m)
  have sigs: "ts_sigs ts = map unsigned_entry (ss_signatories ss)" and inv: "ts_inv E ts"
    using from_sigset_Inr [OF start] by auto
  have "list_all (entry_valid E m) (ts_sigs ts)"
    by (simp add: sigs list_all_iff entry_valid_def unsigned_entry_def)
  with inv show ?case
    by (auto simp: ThresholdSig_set_message_def ts_inv_def sigs unsigned_entry_def)
next
  case (sign ts k sig ts')
  then show ?case
    using ts_inv_sign [of E ts k sig ts'] sign_state(4,5) [OF sign.hyps(2)] by (simp add: comp_def)
qed

lemma reachable_signatories:
  assumes "ts_reachable E ss ts"
  shows "map (\<lambda>e. Signatory (sh_power (snd e)) (fst e)) (ts_sigs ts) = ss_signatories ss"
  using ts_reachable_inv [OF assms] map_nth_eq_signatories by blast

lemma reachable_signed_power:
  assumes "ts_reachable E ss ts" and "ThresholdSig_signed ts"
  shows "2 * sum_list (map sg_voting_power (ss_signatories ss)) < 3 * signed_power (ts_sigs ts)"
  using ts_reachable_inv [OF assms(1)] assms(2)
  by (auto simp: ts_inv_def ThresholdSig_signed_def total_power_def)

text \<open>
  C11: In every signing state the contract can reach for a signatory set, the counter
  \<^verbatim>\<open>signed\<close> is the voting power of the entries that carry a signature, each of these
  signatures was verified for the message and the key of its entry, and the entries are the
  signatories of the set; if the state counts as signed, these signatures carry more than two
  thirds of the voting power of the set.
\<close>

theorem signing_state_sound:
  assumes "ts_reachable E ss ts"
  shows "ts_signed ts = signed_power (ts_sigs ts) \<and>
    list_all (entry_valid E (ts_message ts)) (ts_sigs ts) \<and>
    map (\<lambda>e. Signatory (sh_power (snd e)) (fst e)) (ts_sigs ts) = ss_signatories ss \<and>
    (ThresholdSig_signed ts \<longleftrightarrow>
       3 * signed_power (ts_sigs ts) > 2 * sum_list (map sg_voting_power (ss_signatories ss)))"
proof -
  have "ts_inv E ts" "total_power (ts_sigs ts) = sum_list (map sg_voting_power (ss_signatories ss))"
    using ts_reachable_inv [OF assms] by (simp_all add: total_power_def)
  then show ?thesis
    using reachable_signatories [OF assms] by (auto simp: ts_inv_def ThresholdSig_signed_def)
qed

text \<open>
  C24: A signature is accepted from a key exactly once. A call of \<^verbatim>\<open>sign\<close> for a key that still
  has to sign, with a signature that verifies, succeeds, adds the power of the key's entry to the
  counter and leaves the other entries alone; after it the key has nothing left to sign, and a
  second signature of the same key is refused.
\<close>

theorem sign_once:
  assumes "ts_inv E ts" and "ThresholdSig_needs_sig ts k"
    and "secp256k1_verify E (ts_message ts) sig k = Ok True"
  shows "\<exists>ts' i. ThresholdSig_sign E ts k sig = Ok ts' \<and> key_position k (ts_sigs ts) = Some i \<and>
    ts_sigs ts' = (ts_sigs ts)[i := (k, \<lparr>sh_power = sh_power (snd (ts_sigs ts ! i)), sh_sig = Some sig\<rparr>)] \<and>
    ts_signed ts' = ts_signed ts + sh_power (snd (ts_sigs ts ! i)) \<and>
    \<not> ThresholdSig_needs_sig ts' k \<and>
    (\<forall>sig'. ThresholdSig_sign E ts' k sig' = Err (App ''Pubkey already signed''))"
proof -
  obtain ts' where ok: "ThresholdSig_sign E ts k sig = Ok ts'"
    using ts_inv_sign_progress [OF assms] by blast
  then obtain i where i: "key_position k (ts_sigs ts) = Some i"
      and ts': "ts' = ts\<lparr>ts_sigs := (ts_sigs ts)[i := (k, (snd (ts_sigs ts ! i))\<lparr>sh_sig := Some sig\<rparr>)],
                ts_signed := ts_signed ts + sh_power (snd (ts_sigs ts ! i))\<rparr>"
    by (auto simp: ThresholdSig_sign_Inr_iff)
  have len: "i < length (ts_sigs ts)" and k: "fst (ts_sigs ts ! i) = k"
    using key_position_SomeD [OF i] by simp_all
  have i': "key_position k (ts_sigs ts') = Some i"
    using i k len by (simp add: ts' key_position_update)
  have again: "ThresholdSig_sign E ts' k sig' = Err (App ''Pubkey already signed'')" for sig'
    using len by (simp add: ThresholdSig_sign_def i' Let_def) (simp add: ts')
  have eq: "(snd (ts_sigs ts ! i))\<lparr>sh_sig := Some sig\<rparr> =
      \<lparr>sh_power = sh_power (snd (ts_sigs ts ! i)), sh_sig = Some sig\<rparr>" by simp
  moreover have "ts_sigs ts' = (ts_sigs ts)[i := (k, \<lparr>sh_power = sh_power (snd (ts_sigs ts ! i)), sh_sig = Some sig\<rparr>)]"
    unfolding ts' eq by simp
  moreover have "ts_signed ts' = ts_signed ts + sh_power (snd (ts_sigs ts ! i))" by (simp add: ts')
  ultimately show ?thesis using ok i sign_state(6) [OF ok] again by blast
qed

lemma witness_entries:
  assumes "ts_reachable E ss ts" and "sigset_ok ss" and "ThresholdSig_signed ts"
    and "ThresholdSig_to_witness E ts = Ok w"
  shows "\<exists>es. mset es = mset (ts_sigs ts) \<and> map_r (share_witness E) es = Ok w \<and>
    map (\<lambda>(k, sh). (sh_power sh, k)) es = rev (map (\<lambda>s. (sg_voting_power s, sg_pubkey s)) (ss_signatories ss))"
proof -
  let ?f = "\<lambda>(k, sh). (sh_power sh, k)"
  define es where "es = sort_key ?f (ts_sigs ts)"
  have w: "map_r (share_witness E) es = Ok w"
    using assms(3,4) by (simp add: ThresholdSig_to_witness_def es_def)
  have "map fst (ts_sigs ts) = map sg_pubkey (ss_signatories ss)"
      and "map (sh_power \<circ> snd) (ts_sigs ts) = map sg_voting_power (ss_signatories ss)"
    using ts_reachable_inv [OF assms(1)] by simp_all
  then have fs: "map ?f (ts_sigs ts) = map (\<lambda>s. (sg_voting_power s, sg_pubkey s)) (ss_signatories ss)"
    by (rule map_pair_signatories)
  have "sorted (map ?f es)" by (simp add: es_def)
  moreover have "mset (map ?f es) = mset (rev (map ?f (ts_sigs ts)))" by (simp add: es_def)
  moreover have "sorted (rev (map ?f (ts_sigs ts)))"
    using assms(2) unfolding fs sorted_wrt_rev sorted_wrt_map
    by (auto simp: sigset_ok_def less_eq_signatory_def elim: sorted_wrt_mono_rel [rotated])
  ultimately have "map ?f es = rev (map ?f (ts_sigs ts))"
    by (metis properties_for_sort sort_key_id_if_sorted map_ident)
  then show ?thesis using w fs by (intro exI [of _ es]) (simp add: es_def)
qed

text \<open>
  The witness of a signed state has one item per signatory, and its items are in the
  opposite order of the keys in the redeem script: the first item belongs to the last
  signatory of the set.
\<close>

lemma witness_order:
  assumes "ts_reachable E ss ts" and "sigset_ok ss" and "ThresholdSig_signed ts"
    and "ThresholdSig_to_witness E ts = Ok w"
  shows "\<exists>es. mset es = mset (ts_sigs ts) \<and> map fst es = rev (map sg_pubkey (ss_signatories ss)) \<and>
    length w = length (ss_signatories ss) \<and> (\<forall>i < length w. share_witness E (es ! i) = Ok (w ! i))"
proof -
  obtain es where es: "mset es = mset (ts_sigs ts)" and w: "map_r (share_witness E) es = Ok w"
      and f: "map (\<lambda>(k, sh). (sh_power sh, k)) es = rev (map (\<lambda>s. (sg_voting_power s, sg_pubkey s)) (ss_signatories ss))"
    using witness_entries [OF assms] by blast
  from arg_cong [OF f, of "map snd"] have "map fst es = rev (map sg_pubkey (ss_signatories ss))"
    by (simp add: rev_map case_prod_unfold comp_def)
  moreover have "length es = length (ss_signatories ss)" using arg_cong [OF f, of length] by simp
  ultimately show ?thesis
    using es map_r_length [OF w] map_r_Inr_nth [OF w] by (intro exI [of _ es]) simp
qed

end
