(* ===== verification/Interface.thy ===== *)
theory Interface
  imports ThresholdSig
begin

text \<open>
  \<^verbatim>\<open>constants.rs\<close>, the configuration records and the destinations of \<^verbatim>\<open>interface.rs\<close>,
  the messages the contract sends to other contracts, and the configuration record of
  \<^verbatim>\<open>msg.rs\<close>.
\<close>

section \<open>Constants\<close>

definition MIN_FEE_RATE :: u64 where "MIN_FEE_RATE = 40"
definition MAX_FEE_RATE :: u64 where "MAX_FEE_RATE = 1000"
definition USER_FEE_FACTOR :: u64 where "USER_FEE_FACTOR = 27000"
definition DEFAULT_FEE_RATE :: u64 where "DEFAULT_FEE_RATE = 55"
definition TRANSFER_FEE :: u64 where "TRANSFER_FEE = 0"
definition MAX_DEPOSIT_AGE :: u64 where "MAX_DEPOSIT_AGE = 60 * 60 * 24 * 7 * 2"
definition MAX_CHECKPOINT_INTERVAL :: u64 where "MAX_CHECKPOINT_INTERVAL = 60 * 60 * 24 * 12"
definition MAX_CHECKPOINT_AGE :: u64 where "MAX_CHECKPOINT_AGE = 60 * 60 * 24 * 7 * 3"
definition MIN_DEPOSIT_AMOUNT :: u64 where "MIN_DEPOSIT_AMOUNT = 5000"
definition MIN_WITHDRAWAL_AMOUNT :: u64 where "MIN_WITHDRAWAL_AMOUNT = 5000"
definition MAX_LENGTH :: u64 where "MAX_LENGTH = 24192"
definition MAX_HEADERS_RELAY_ONE_TIME :: u64 where "MAX_HEADERS_RELAY_ONE_TIME = 1000"
definition MAX_TIME_INCREASE :: u32 where "MAX_TIME_INCREASE = 2 * 60 * 60"
definition RETARGET_INTERVAL :: u32 where "RETARGET_INTERVAL = 2016"
definition TARGET_SPACING :: u32 where "TARGET_SPACING = 10 * 60"
definition TARGET_TIMESPAN :: u32 where "TARGET_TIMESPAN = RETARGET_INTERVAL * TARGET_SPACING"
definition MAX_TARGET :: u32 where "MAX_TARGET = 0x1d00ffff"
definition BTC_NATIVE_TOKEN_DENOM :: string where "BTC_NATIVE_TOKEN_DENOM = ''obtc''"

section \<open>Configuration\<close>

record bitcoin_config =
  bc_min_withdrawal_checkpoints :: u32
  bc_min_deposit_amount :: u64
  bc_min_withdrawal_amount :: u64
  bc_max_withdrawal_amount :: u64
  bc_max_withdrawal_script_length :: u64
  bc_transfer_fee :: u64
  bc_min_confirmations :: u32
  bc_units_per_sat :: u64
  bc_max_offline_checkpoints :: u32
  bc_min_checkpoint_confirmations :: u32
  bc_capacity_limit :: u64
  bc_max_deposit_age :: u64
  bc_fee_pool_target_balance :: u64
  bc_fee_pool_reward_split :: "u64 \<times> u64"

definition BitcoinConfig_bitcoin :: bitcoin_config where
  "BitcoinConfig_bitcoin =
     \<lparr>bc_min_withdrawal_checkpoints = 4,
      bc_min_deposit_amount = MIN_DEPOSIT_AMOUNT,
      bc_min_withdrawal_amount = MIN_WITHDRAWAL_AMOUNT,
      bc_max_withdrawal_amount = 64,
      bc_max_withdrawal_script_length = 64,
      bc_transfer_fee = TRANSFER_FEE,
      bc_min_confirmations = 1,
      bc_units_per_sat = 1000000,
      bc_max_offline_checkpoints = 20,
      bc_min_checkpoint_confirmations = 0,
      bc_capacity_limit = 21 * 100000000,
      bc_max_deposit_age = MAX_DEPOSIT_AGE,
      bc_fee_pool_target_balance = 100000000,
      bc_fee_pool_reward_split = (1, 10)\<rparr>"

text \<open>\<^verbatim>\<open>app::NETWORK\<close> and the default it selects.\<close>

definition NETWORK :: network where
  "NETWORK = Mainnet"

definition BitcoinConfig_default :: "bitcoin_config result" where
  "BitcoinConfig_default =
     (if NETWORK = Testnet \<or> NETWORK = Mainnet then Ok BitcoinConfig_bitcoin else panic)"

record checkpoint_config =
  cc_min_checkpoint_interval :: u64
  cc_max_checkpoint_interval :: u64
  cc_max_inputs :: u64
  cc_max_outputs :: u64
  cc_fee_rate :: u64
  cc_max_age :: u64
  cc_target_checkpoint_inclusion :: u32
  cc_min_fee_rate :: u64
  cc_max_fee_rate :: u64
  cc_user_fee_factor :: u64
  cc_sigset_threshold :: "u64 \<times> u64"
  cc_max_unconfirmed_checkpoints :: u32

definition CheckpointConfig_default :: checkpoint_config where
  "CheckpointConfig_default =
     \<lparr>cc_min_checkpoint_interval = 60 * 5,
      cc_max_checkpoint_interval = MAX_CHECKPOINT_INTERVAL,
      cc_max_inputs = 40,
      cc_max_outputs = 200,
      cc_fee_rate = 0,
      cc_max_age = MAX_CHECKPOINT_AGE,
      cc_target_checkpoint_inclusion = 2,
      cc_min_fee_rate = MIN_FEE_RATE,
      cc_max_fee_rate = MAX_FEE_RATE,
      cc_user_fee_factor = USER_FEE_FACTOR,
      cc_sigset_threshold = SIGSET_THRESHOLD,
      cc_max_unconfirmed_checkpoints = 15\<rparr>"

record header_config =
  hc_max_length :: u64
  hc_max_time_increase :: u32
  hc_trusted_height :: u32
  hc_retarget_interval :: u32
  hc_target_spacing :: u32
  hc_target_timespan :: u32
  hc_max_target :: u32
  hc_retargeting :: bool
  hc_min_difficulty_blocks :: bool
  hc_trusted_header :: block_header

text \<open>\<^verbatim>\<open>HeaderConfig::from_bytes\<close> after the JSON of the trusted checkpoint was read.\<close>

definition HeaderConfig_from_bytes :: "u32 \<times> block_header \<Rightarrow> header_config" where
  "HeaderConfig_from_bytes checkpoint =
     \<lparr>hc_max_length = MAX_LENGTH,
      hc_max_time_increase = MAX_TIME_INCREASE,
      hc_trusted_height = fst checkpoint,
      hc_retarget_interval = RETARGET_INTERVAL,
      hc_target_spacing = TARGET_SPACING,
      hc_target_timespan = TARGET_TIMESPAN,
      hc_max_target = MAX_TARGET,
      hc_retargeting = True,
      hc_min_difficulty_blocks = False,
      hc_trusted_header = snd checkpoint\<rparr>"

text \<open>\<^verbatim>\<open>checkpoint.json\<close>, with the hashes in their internal byte order.\<close>

definition checkpoint_json :: "u32 \<times> block_header" where
  "checkpoint_json = (802368,
     \<lparr>bh_version = 1073676288,
      bh_prev_blockhash =
         [0x17, 0xdd, 0x31, 0x84, 0x36, 0xd6, 0x68, 0x75, 0x37, 0x6a, 0x55, 0xa1, 0x09, 0x62, 0xc3, 0xe7,
          0xfe, 0x1e, 0x7c, 0x8f, 0x1a, 0x4e, 0x03, 0x00, 0x00, 0x00, 0x00, 0x00, 0x00, 0x00, 0x00, 0x00],
      bh_merkle_root =
         [0xeb, 0x15, 0x0b, 0xe4, 0x24, 0x9d, 0x12, 0x8f, 0xf5, 0xca, 0x73, 0xe5, 0xbf, 0x1c, 0xbc, 0xbb,
          0x12, 0x42, 0x6d, 0xdb, 0x24, 0x14, 0x3d, 0xad, 0xb6, 0xa5, 0xd9, 0x99, 0xc1, 0xa5, 0x18, 0x77],
      bh_time = 1691584068, bh_bits = 386228059, bh_nonce = 4602308\<rparr>)"

definition HeaderConfig_mainnet :: header_config where
  "HeaderConfig_mainnet = HeaderConfig_from_bytes checkpoint_json"

text \<open>\<^verbatim>\<open>Ratio\<close> of \<^verbatim>\<open>state.rs\<close> and \<^verbatim>\<open>Config\<close> of \<^verbatim>\<open>msg.rs\<close>.\<close>

record ratio =
  nominator :: u64
  denominator :: u64

record config =
  cf_token_factory_addr :: addr
  cf_owner :: addr
  cf_relayer_fee_token :: asset_info
  cf_relayer_fee :: u128
  cf_token_fee_receiver :: addr
  cf_relayer_fee_receiver :: addr
  cf_swap_router_contract :: "addr option"
  cf_osor_entry_point_contract :: "addr option"

section \<open>Destinations\<close>

record ibc_dest =
  ib_source_port :: string
  ib_source_channel :: string
  ib_receiver :: string
  ib_sender :: string
  ib_timeout_timestamp :: u64
  ib_memo :: string

datatype dest = Dest_Address addr | Dest_Ibc ibc_dest

text \<open>
  What the derived \<^verbatim>\<open>Serialize\<close> of \<^verbatim>\<open>IbcDest\<close> hands to a JSON writer: the names of the fields with
  their values, in the order of the declaration.
\<close>

datatype json_value = JsonString string | JsonU64 u64

definition IbcDest_serialize :: "ibc_dest \<Rightarrow> (string \<times> json_value) list" where
  "IbcDest_serialize self =
     [(''source_port'', JsonString (ib_source_port self)),
      (''source_channel'', JsonString (ib_source_channel self)),
      (''receiver'', JsonString (ib_receiver self)),
      (''sender'', JsonString (ib_sender self)),
      (''timeout_timestamp'', JsonU64 (ib_timeout_timestamp self)),
      (''memo'', JsonString (ib_memo self))]"

text \<open>\<^verbatim>\<open>Memo\<close> of \<^verbatim>\<open>oraiswap::universal_swap_memo\<close>, with the fields the contract fills in.\<close>

record universal_swap_memo =
  me_minimum_receive :: u128
  me_receiver :: string
  me_source_port :: string
  me_source_channel :: string
  me_memo :: string
  me_recover_address :: string
  me_recovery_addr :: string
  me_timeout_timestamp :: u64

text \<open>
  The libraries the destinations are encoded with: SHA-256, the JSON writer \<^verbatim>\<open>to_json_vec\<close> and
  the base64 protobuf encoding of a memo.
\<close>

record iface_ext = ext +
  sha256 :: "bytes \<Rightarrow> bytes"
  to_json_vec :: "(string \<times> json_value) list \<Rightarrow> bytes result"
  encode_memo :: "universal_swap_memo \<Rightarrow> string"

text \<open>
  The metadata of a denomination (\<^verbatim>\<open>token_bindings::Metadata\<close>), as the text of its JSON: the
  contract passes it on unread.
\<close>

type_synonym token_metadata = string

text \<open>The messages to other contracts; the first argument is the contract called.\<close>

datatype cosmos_msg =
    MintTokens addr string u128 string
  | BurnTokens addr string u128 string
  | UniversalSwap addr string "coin list"
  | CreateDenom addr string "token_metadata option" "coin list"
  | ChangeDenomOwner addr string string "coin list"

definition Dest_to_receiver_addr :: "dest \<Rightarrow> string" where
  "Dest_to_receiver_addr self =
     (case self of Dest_Address addr \<Rightarrow> addr | Dest_Ibc d \<Rightarrow> ib_receiver d)"

definition Dest_to_source_addr :: "dest \<Rightarrow> string" where
  "Dest_to_source_addr self =
     (case self of Dest_Address addr \<Rightarrow> addr | Dest_Ibc d \<Rightarrow> ib_sender d)"

definition as_bytes :: "string \<Rightarrow> bytes" where
  "as_bytes s = map of_char s"

definition Dest_commitment_bytes :: "'x iface_ext_scheme \<Rightarrow> dest \<Rightarrow> bytes result" where
  "Dest_commitment_bytes E self =
     (case self of
        Dest_Address addr \<Rightarrow> Ok (as_bytes addr)
      | Dest_Ibc d \<Rightarrow> bnd (to_json_vec E (IbcDest_serialize d)) (\<lambda>j. Ok (sha256 E j)))"

definition Dest_build_cosmos_msg ::
  "'x iface_ext_scheme \<Rightarrow> dest \<Rightarrow> env \<Rightarrow> cosmos_msg list \<Rightarrow> coin \<Rightarrow> addr \<Rightarrow> addr \<Rightarrow> addr option \<Rightarrow> cosmos_msg list"
where
  "Dest_build_cosmos_msg E self env msgs coin bitcoin_bridge_addr token_factory_addr osor_api_contract =
     (case self of
        Dest_Address addr \<Rightarrow> msgs @ [MintTokens token_factory_addr (coin_denom coin) (coin_amount coin) addr]
      | Dest_Ibc d \<Rightarrow>
          (case osor_api_contract of
             None \<Rightarrow> msgs @ [MintTokens token_factory_addr (coin_denom coin) (coin_amount coin) (ib_sender d)]
           | Some osor \<Rightarrow>
               if ib_timeout_timestamp d < env_nanos env
               then msgs @ [MintTokens token_factory_addr (coin_denom coin) (coin_amount coin) (ib_sender d)]
               else if ib_source_port d \<noteq> ''transfer'' then msgs
               else (let memo = \<lparr>me_minimum_receive = coin_amount coin, me_receiver = ib_receiver d,
                          me_source_port = ib_source_port d, me_source_channel = ib_source_channel d,
                          me_memo = ib_memo d, me_recover_address = ib_sender d,
                          me_recovery_addr = ib_sender d, me_timeout_timestamp = ib_timeout_timestamp d\<rparr>
                     in msgs
                        @ [MintTokens token_factory_addr (coin_denom coin) (coin_amount coin) bitcoin_bridge_addr]
                        @ [UniversalSwap osor (encode_memo E memo) [coin]])))"

record change_rates =
  cr_withdrawal :: u16
  cr_sigset_change :: u16

end
