(* ===== verification/Script.thy ===== *)
theory Script
  imports ThresholdSig
begin

text \<open>
  What the redeem scripts of a signatory set mean. The scripts are built and parsed by
  \<^verbatim>\<open>signatory.rs\<close> with functions of the \<^verbatim>\<open>bitcoin\<close> crate; the locale \<open>script_laws\<close>
  states what is used of them. The execution of the ten opcodes of these scripts is defined
  as Bitcoin executes them, so that the theorems can say who can spend the reserve output, and
  that the witness of a signed state does.
\<close>

section \<open>Script numbers\<close>

text \<open>Little-endian digits to the base 256 with a clear sign bit in the last one.\<close>

fun scriptnum_tail :: "nat \<Rightarrow> bytes" where
  "scriptnum_tail n = (if n < 128 then [n] else n mod 256 # scriptnum_tail (n div 256))"

declare scriptnum_tail.simps [simp del]

definition scriptnum_encode :: "nat \<Rightarrow> bytes" where
  "scriptnum_encode n = (if n = 0 then [] else scriptnum_tail n)"

fun scriptnum_value :: "bytes \<Rightarrow> nat" where
  "scriptnum_value [] = 0"
| "scriptnum_value (b # bs) = b + 256 * scriptnum_value bs"

text \<open>The number an operand of at most four bytes with a clear sign bit stands for.\<close>

definition scriptnum_decode :: "bytes \<Rightarrow> nat option" where
  "scriptnum_decode bs =
     (if length bs \<le> 4 \<and> (bs = [] \<or> last bs < 128) then Some (scriptnum_value bs) else None)"

lemma scriptnum_tail_value [simp]: "scriptnum_value (scriptnum_tail n) = n"
  by (induction n rule: less_induct) (subst scriptnum_tail.simps, simp)

lemma scriptnum_encode_value [simp]: "scriptnum_value (scriptnum_encode n) = n"
  by (simp add: scriptnum_encode_def)

lemma scriptnum_tail_ne [simp]: "scriptnum_tail n \<noteq> []"
  by (subst scriptnum_tail.simps) simp

lemma scriptnum_tail_last: "last (scriptnum_tail n) < 128"
  by (induction n rule: less_induct) (subst scriptnum_tail.simps, simp)

lemma scriptnum_tail_length:
  "n < 128 * 256 ^ k \<Longrightarrow> length (scriptnum_tail n) \<le> Suc k"
proof (induction k arbitrary: n)
  case (Suc k)
  then have "n div 256 < 128 * 256 ^ k" by (simp add: less_mult_imp_div_less mult.commute mult.left_commute)
  then show ?case by (subst scriptnum_tail.simps) (simp add: Suc.IH)
qed (subst scriptnum_tail.simps, simp)

lemma scriptnum_decode_encode: 
  assumes "n < 2 ^ 31"
  shows "scriptnum_decode (scriptnum_encode n) = Some n"
proof -
  have "length (scriptnum_tail n) \<le> Suc 3"
    by (rule scriptnum_tail_length) (use assms in simp)
  then show ?thesis
    using scriptnum_tail_last [of n] by (simp add: scriptnum_decode_def) (simp add: scriptnum_encode_def)
qed

lemma scriptnum_encode_eq_Nil [simp]: "scriptnum_encode n = [] \<longleftrightarrow> n = 0"
  by (simp add: scriptnum_encode_def)

section \<open>Instructions\<close>

definition item_instr :: "script_item \<Rightarrow> instruction" where
  "item_instr item =
     (case item of
        SBytes b \<Rightarrow> PushBytes b
      | SInt n \<Rightarrow> (if 1 \<le> n \<and> n \<le> 16 then Op (nat (0x50 + n)) else PushBytes (scriptnum_encode (nat n)))
      | SOp opc \<Rightarrow> Op opc)"

definition item_ok :: "script_item \<Rightarrow> bool" where
  "item_ok item \<longleftrightarrow>
     (case item of
        SBytes b \<Rightarrow> 0 < length b \<and> length b \<le> 75
      | SInt n \<Rightarrow> 0 \<le> n \<and> n < 2 ^ 31
      | SOp opc \<Rightarrow> 0x60 < opc \<and> opc < 256)"

locale script_laws =
  fixes E :: "'x ext_scheme"
  assumes instructions_build:
      "list_all item_ok items \<Longrightarrow>
         script_instructions E (build_script E items @ s) = map (Some \<circ> item_instr) items @ script_instructions E s"
    and instructions_empty: "script_instructions E [] = []"
    and scriptint_encode: "n < 2 ^ 31 \<Longrightarrow> read_scriptint E (scriptnum_encode n) = Some (int n)"

section \<open>Execution\<close>

definition truthy :: "bytes \<Rightarrow> bool" where
  "truthy b \<longleftrightarrow> b \<noteq> [] \<and> scriptnum_value b \<noteq> 0"

definition bool_bytes :: "bool \<Rightarrow> bytes" where
  "bool_bytes b = (if b then [1] else [])"

text \<open>
  The signature check is a parameter \<open>chk\<close>: \<^term>\<open>None\<close> for a signature that is not in the strict
  DER encoding, which makes the whole script fail (BIP 66), and otherwise whether it verifies. The
  empty signature is the one encoding of no signature and pushes false.
\<close>

type_synonym sig_check = "bytes \<Rightarrow> pubkey \<Rightarrow> bool option"

definition exec_op :: "sig_check \<Rightarrow> nat \<Rightarrow> bytes list \<Rightarrow> bytes list option" where
  "exec_op chk opc stack =
     (if opc = OP_CHECKSIG then
        (case stack of key # sig # rest \<Rightarrow>
           (if sig = [] then Some (bool_bytes False # rest)
            else (case chk sig key of Some valid \<Rightarrow> Some (bool_bytes valid # rest) | None \<Rightarrow> None))
         | _ \<Rightarrow> None)
      else if opc = OP_SWAP then (case stack of a # b # rest \<Rightarrow> Some (b # a # rest) | _ \<Rightarrow> None)
      else if opc = OP_DROP then (case stack of a # rest \<Rightarrow> Some rest | _ \<Rightarrow> None)
      else if opc = OP_ADD then
        (case stack of a # b # rest \<Rightarrow>
           (case (scriptnum_decode a, scriptnum_decode b) of
              (Some m, Some n) \<Rightarrow> Some (scriptnum_encode (m + n) # rest) | _ \<Rightarrow> None)
         | _ \<Rightarrow> None)
      else if opc = OP_GREATERTHAN then
        (case stack of a # b # rest \<Rightarrow>
           (case (scriptnum_decode a, scriptnum_decode b) of
              (Some m, Some n) \<Rightarrow> Some (bool_bytes (n > m) # rest) | _ \<Rightarrow> None)
         | _ \<Rightarrow> None)
      else if 0x51 \<le> opc \<and> opc \<le> 0x60 then Some (scriptnum_encode (opc - 0x50) # stack)
      else None)"

fun run_script ::
  "sig_check \<Rightarrow> instruction list \<Rightarrow> bool list \<Rightarrow> bytes list \<Rightarrow> bytes list option"
where
  "run_script chk [] conds stack = (if conds = [] then Some stack else None)"
| "run_script chk (PushBytes b # is) conds stack =
     run_script chk is conds (if list_all id conds then b # stack else stack)"
| "run_script chk (Op opc # is) conds stack =
     (if opc = OP_IF then
        (if list_all id conds
         then (case stack of [] \<Rightarrow> None | a # rest \<Rightarrow> run_script chk is (truthy a # conds) rest)
         else run_script chk is (False # conds) stack)
      else if opc = OP_ELSE then
        (case conds of [] \<Rightarrow> None | c # cs \<Rightarrow> run_script chk is ((\<not> c) # cs) stack)
      else if opc = OP_ENDIF then
        (case conds of [] \<Rightarrow> None | c # cs \<Rightarrow> run_script chk is cs stack)
      else if list_all id conds
      then (case exec_op chk opc stack of None \<Rightarrow> None | Some stack' \<Rightarrow> run_script chk is conds stack')
      else run_script chk is conds stack)"

definition accepts :: "sig_check \<Rightarrow> instruction list \<Rightarrow> bytes list \<Rightarrow> bool" where
  "accepts chk is stack \<longleftrightarrow> (case run_script chk is [] stack of Some [a] \<Rightarrow> truthy a | _ \<Rightarrow> False)"

lemma run_push_int:
  assumes "n < 2 ^ 31"
  shows "run_script chk (item_instr (SInt (int n)) # is) [] stack = run_script chk is [] (scriptnum_encode n # stack)"
    and "run_script chk (item_instr (SInt (int n)) # is) [True] stack = run_script chk is [True] (scriptnum_encode n # stack)"
    and "run_script chk (item_instr (SInt (int n)) # is) [False] stack = run_script chk is [False] stack"
  by (auto simp: item_instr_def exec_op_def nat_add_distrib)

text \<open>The voting power that a signature adds, and whether a slot holds nothing or an encoded signature.\<close>

definition vote :: "sig_check \<Rightarrow> nat \<Rightarrow> bytes \<times> signatory \<Rightarrow> nat" where
  "vote chk truncation p =
     (if fst p \<noteq> [] \<and> chk (fst p) (sg_pubkey (snd p)) = Some True then sg_voting_power (snd p) div 2 ^ truncation else 0)"

definition encoded :: "sig_check \<Rightarrow> bytes \<times> signatory \<Rightarrow> bool" where
  "encoded chk p \<longleftrightarrow> fst p = [] \<or> chk (fst p) (sg_pubkey (snd p)) \<noteq> None"

lemma run_first:
  assumes "sg_voting_power s div 2 ^ t < 2 ^ 31"
  shows "run_script chk (map item_instr (first_signatory_items t s) @ is) [] (sig # stack) =
    (if encoded chk (sig, s) then run_script chk is [] (scriptnum_encode (vote chk t (sig, s)) # stack) else None)"
proof -
  have "as_i64 (sg_voting_power s div 2 ^ t) = int (sg_voting_power s div 2 ^ t)"
    using assms by (intro as_i64_small) simp
  then show ?thesis
    using run_push_int [OF assms] run_push_int [of 0]
    by (cases "chk sig (sg_pubkey s)")
       (simp add: first_signatory_items_def vote_def encoded_def exec_op_def bool_bytes_def truthy_def,
        simp add: item_instr_def exec_op_def bool_bytes_def truthy_def)+
qed

lemma run_nth:
  assumes "sg_voting_power s div 2 ^ t < 2 ^ 31" and "m < 2 ^ 31"
  shows "run_script chk (map item_instr (nth_signatory_items t s) @ is) [] (scriptnum_encode m # sig # stack) =
    (if encoded chk (sig, s) then run_script chk is [] (scriptnum_encode (m + vote chk t (sig, s)) # stack) else None)"
proof -
  have "as_i64 (sg_voting_power s div 2 ^ t) = int (sg_voting_power s div 2 ^ t)"
    using assms by (intro as_i64_small) simp
  then show ?thesis
    using run_push_int [OF assms(1)] scriptnum_decode_encode [OF assms(1)] scriptnum_decode_encode [OF assms(2)]
    by (cases "chk sig (sg_pubkey s)")
       (simp add: nth_signatory_items_def vote_def encoded_def exec_op_def bool_bytes_def truthy_def,
        simp add: item_instr_def exec_op_def bool_bytes_def truthy_def add.commute)+
qed

lemma vote_le: "vote chk t (sig, s) \<le> sg_voting_power s div 2 ^ t"
  by (simp add: vote_def)

lemma run_rest:
  assumes "length sigs = length ss" and "m + sum_list (map (\<lambda>s. sg_voting_power s div 2 ^ t) ss) < 2 ^ 31"
  shows "run_script chk (concat (map (\<lambda>s. map item_instr (nth_signatory_items t s)) ss) @ is) []
      (scriptnum_encode m # sigs @ stack) =
    (if list_all (encoded chk) (zip sigs ss)
     then run_script chk is [] (scriptnum_encode (m + sum_list (map (vote chk t) (zip sigs ss))) # stack) else None)"
  using assms
proof (induction sigs ss arbitrary: m rule: list_induct2)
  case (Cons sig sigs s ss)
  have "sg_voting_power s div 2 ^ t < 2 ^ 31" "m < 2 ^ 31" using Cons.prems by simp_all
  note run_nth [OF this, of chk _ sig]
  moreover have "m + vote chk t (sig, s) + sum_list (map (\<lambda>s. sg_voting_power s div 2 ^ t) ss) < 2 ^ 31"
    using Cons.prems vote_le [of chk t sig s] by simp
  ultimately show ?case
    using Cons.IH [of "m + vote chk t (sig, s)"] by (simp add: add.assoc)
qed simp

lemma run_tail:
  assumes "m < 2 ^ 31" and "n < 2 ^ 31"
  shows "run_script chk (map item_instr ([SInt (int n), SOp OP_GREATERTHAN] @ [SBytes dest, SOp OP_DROP])) []
      [scriptnum_encode m] = Some [bool_bytes (m > n)]"
  using run_push_int(1) [OF assms(2)] scriptnum_decode_encode [OF assms(1)] scriptnum_decode_encode [OF assms(2)]
  by (simp add: item_instr_def [of "SBytes dest"] item_instr_def [of "SOp opc" for opc] exec_op_def)

definition redeem_items :: "signatory_set \<Rightarrow> bytes \<Rightarrow> u64 \<Rightarrow> script_item list" where
  "redeem_items s dest t =
     (let truncation = SignatorySet_get_truncation s 23
      in first_signatory_items truncation (hd (ss_signatories s)) @
         concat (map (nth_signatory_items truncation) (tl (ss_signatories s))) @
         [SInt (as_i64 (t div 2 ^ truncation)), SOp OP_GREATERTHAN] @ [SBytes dest, SOp OP_DROP])"

text \<open>
  The redeem script is satisfied exactly when the votes exceed the threshold; it fails on a slot that
  holds something else than an encoded signature.
\<close>

lemma run_redeem_items:
  assumes ne: "ss_signatories s \<noteq> []" and len: "length sigs = length (ss_signatories s)"
    and total: "sum_list (map sg_voting_power (ss_signatories s)) \<le> ss_present_vp s" and t: "t \<le> ss_present_vp s"
  defines "k \<equiv> SignatorySet_get_truncation s 23"
  shows "run_script chk (map item_instr (redeem_items s dest t)) [] sigs =
    (if list_all (encoded chk) (zip sigs (ss_signatories s))
     then Some [bool_bytes (sum_list (map (vote chk k) (zip sigs (ss_signatories s))) > t div 2 ^ k)] else None)"
proof -
  obtain s0 ss where ss: "ss_signatories s = s0 # ss" using ne by (cases "ss_signatories s") auto
  obtain sig0 sigs' where sigs: "sigs = sig0 # sigs'" using len ss by (cases sigs) auto
  have "sum_list (map (\<lambda>s. sg_voting_power s div 2 ^ k) (s0 # ss)) \<le>
      sum_list (map sg_voting_power (s0 # ss)) div 2 ^ k"
    by (rule sum_list_div_le)
  also have "\<dots> \<le> ss_present_vp s div 2 ^ k" using total unfolding ss by (rule div_le_mono)
  also have small: "ss_present_vp s div 2 ^ k < 2 ^ 23"
    unfolding k_def by (rule truncated_less) simp
  finally have bound: "sg_voting_power s0 div 2 ^ k + sum_list (map (\<lambda>s. sg_voting_power s div 2 ^ k) ss) < 2 ^ 23"
    by simp
  have "(2 :: nat) ^ 23 < 2 ^ 31" by simp
  note bound = less_trans [OF bound this]
  have t31: "t div 2 ^ k < 2 ^ 31" using t small div_le_mono [of t "ss_present_vp s" "2 ^ k"] by simp
  have t64: "as_i64 (t div 2 ^ k) = int (t div 2 ^ k)" using t31 by (intro as_i64_small) simp
  let ?m = "sum_list (map (vote chk k) (zip sigs (ss_signatories s)))"
  have votes: "?m = vote chk k (sig0, s0) + sum_list (map (vote chk k) (zip sigs' ss))"
    by (simp add: sigs ss)
  have le: "sum_list (map (vote chk k) (zip sigs' ss)) \<le> sum_list (map (\<lambda>s. sg_voting_power s div 2 ^ k) ss)"
    for sigs' ss by (induction sigs' ss rule: list_induct2') (auto intro: add_le_mono vote_le)
  have m31: "?m < 2 ^ 31" unfolding votes using bound vote_le [of chk k sig0 s0] le [of sigs' ss] by linarith
  have rest: "vote chk k (sig0, s0) + sum_list (map (\<lambda>s. sg_voting_power s div 2 ^ k) ss) < 2 ^ 31"
    using bound vote_le [of chk k sig0 s0] by linarith
  have s031: "sg_voting_power s0 div 2 ^ k < 2 ^ 31" using bound by linarith
  have tail: "run_script chk (map item_instr ([SInt (as_i64 (t div 2 ^ k)), SOp OP_GREATERTHAN] @ [SBytes dest, SOp OP_DROP]))
      [] [scriptnum_encode ?m] = Some [bool_bytes (?m > t div 2 ^ k)]"
    unfolding t64 by (rule run_tail [OF m31 t31])
  have "length sigs' = length ss" using len by (simp add: sigs ss)
  note rest = run_rest [OF this rest, of chk _ "[]"]
  define A B C where "A = map item_instr (first_signatory_items k s0)"
    and "B = concat (map (\<lambda>s. map item_instr (nth_signatory_items k s)) ss)"
    and "C = map item_instr ([SInt (as_i64 (t div 2 ^ k)), SOp OP_GREATERTHAN] @ [SBytes dest, SOp OP_DROP])"
  have items: "map item_instr (redeem_items s dest t) = A @ B @ C"
    unfolding redeem_items_def Let_def k_def [symmetric] A_def B_def C_def ss list.sel
    by (simp only: map_append map_concat map_map comp_def)
  have "run_script chk (A @ B @ C) [] sigs = (if encoded chk (sig0, s0)
      then run_script chk (B @ C) [] (scriptnum_encode (vote chk k (sig0, s0)) # sigs') else None)"
    unfolding A_def sigs by (rule run_first [OF s031])
  moreover have "run_script chk (B @ C) [] (scriptnum_encode (vote chk k (sig0, s0)) # sigs') =
      (if list_all (encoded chk) (zip sigs' ss) then run_script chk C [] [scriptnum_encode ?m] else None)"
    unfolding B_def votes using rest [of C] by (simp only: append_Nil2)
  moreover have "run_script chk C [] [scriptnum_encode ?m] = Some [bool_bytes (?m > t div 2 ^ k)]"
    unfolding C_def by (rule tail)
  ultimately show ?thesis unfolding items by (simp add: sigs ss)
qed

section \<open>The script of a signatory set\<close>

definition set_keys_ok :: "signatory_set \<Rightarrow> bool" where
  "set_keys_ok s \<longleftrightarrow> list_all (\<lambda>g. 0 < length (sg_pubkey g) \<and> length (sg_pubkey g) \<le> 75) (ss_signatories s)"

lemma signatory_items_ok:
  assumes "sg_voting_power g \<le> ss_present_vp s" and "0 < length (sg_pubkey g)" and "length (sg_pubkey g) \<le> 75"
  shows "list_all item_ok (first_signatory_items (SignatorySet_get_truncation s 23) g)"
    and "list_all item_ok (nth_signatory_items (SignatorySet_get_truncation s 23) g)"
proof -
  have "sg_voting_power g div 2 ^ SignatorySet_get_truncation s 23 < 2 ^ 23"
    by (rule truncated_less [OF assms(1)])
  then have "item_ok (SInt (as_i64 (sg_voting_power g div 2 ^ SignatorySet_get_truncation s 23)))"
    by (subst as_i64_small) (simp_all add: item_ok_def)
  then show "list_all item_ok (first_signatory_items (SignatorySet_get_truncation s 23) g)"
    and "list_all item_ok (nth_signatory_items (SignatorySet_get_truncation s 23) g)"
    using assms(2,3) by (simp_all add: first_signatory_items_def nth_signatory_items_def) (simp_all add: item_ok_def)
qed

context script_laws
begin

lemma instructions_concat:
  assumes "list_all (list_all item_ok) xss"
  shows "script_instructions E (concat (map (build_script E) xss) @ s) =
    map (Some \<circ> item_instr) (concat xss) @ script_instructions E s"
  using assms by (induction xss) (simp_all add: instructions_build)

lemma redeem_script_instructions:
  assumes script: "SignatorySet_redeem_script E s dest ratio = Ok script"
    and total: "sum_list (map sg_voting_power (ss_signatories s)) \<le> ss_present_vp s" "ss_present_vp s < 2 ^ 64"
    and ratio: "fst ratio \<le> snd ratio" and keys: "set_keys_ok s" and dest: "0 < length dest" "length dest \<le> 75"
  shows "\<exists>t. SignatorySet_signature_threshold s ratio = Ok t \<and> t = ss_present_vp s * fst ratio div snd ratio \<and>
    t \<le> ss_present_vp s \<and> ss_signatories s \<noteq> [] \<and>
    script_instructions E script = map (Some \<circ> item_instr) (redeem_items s dest t)"
proof -
  define k where "k = SignatorySet_get_truncation s 23"
  obtain s0 ss t where ss: "ss_signatories s = s0 # ss" and t: "SignatorySet_signature_threshold s ratio = Ok t"
      and sc: "script = build_script E (first_signatory_items k s0)
        @ concat (map (\<lambda>s. build_script E (nth_signatory_items k s)) ss)
        @ build_script E [SInt (as_i64 (t div 2 ^ k)), SOp OP_GREATERTHAN] @ build_script E [SBytes dest, SOp OP_DROP]"
    using script by (auto simp: SignatorySet_redeem_script_def Let_def ok_simps k_def [symmetric] split: list.splits)
  note T = signature_threshold_le [OF t ratio total(2)]
  have le: "sg_voting_power g \<le> ss_present_vp s" if "g \<in> set (s0 # ss)" for g
    using member_le_sum_list_nat [of "sg_voting_power g" "map sg_voting_power (s0 # ss)"] that total(1)
    unfolding ss by auto
  have ok: "list_all item_ok (first_signatory_items k g)" "list_all item_ok (nth_signatory_items k g)"
    if "g \<in> set (s0 # ss)" for g
    unfolding k_def using signatory_items_ok [OF le [OF that]] keys that by (auto simp: set_keys_ok_def ss list_all_iff)
  have "t div 2 ^ k < 2 ^ 23" unfolding k_def using T by (intro truncated_less) simp
  then have tok: "list_all item_ok [SInt (as_i64 (t div 2 ^ k)), SOp OP_GREATERTHAN]"
    by (subst as_i64_small) (simp_all add: item_ok_def)
  have dok: "list_all item_ok [SBytes dest, SOp OP_DROP]" using dest by (simp add: item_ok_def)
  have nth: "list_all (list_all item_ok) (map (nth_signatory_items k) ss)"
    using ok(2) by (auto simp: list_all_iff)
  have "script_instructions E script = map (Some \<circ> item_instr) (redeem_items s dest t)"
    unfolding sc redeem_items_def Let_def k_def [symmetric] ss list.sel
    using instructions_build [OF ok(1)] instructions_concat [OF nth] instructions_build [OF tok]
      instructions_build [OF dok, of "[]"] instructions_empty
    by (simp add: comp_def)
  then show ?thesis using t T ss by simp
qed

end

text \<open>
  C9: The redeem script of a signatory set is a weighted threshold check. Take a set whose present
  voting power is the sum of its signatories' and fits in 64 bits, keys and a commitment of 1 to 75
  bytes each, and a threshold ratio of at most one. For every stack of one slot per signatory, every
  slot empty or filled, the script leaves true exactly when every filled slot holds an encoded
  signature and the truncated voting power of the signatories whose slot holds one that verifies
  against their key exceeds the truncated threshold; a filled slot that is not an encoded
  signature makes it fail, and no intermediate number leaves the four bytes that Bitcoin Script can
  add. The check of a signature and its encoding is a parameter, whatever it answers.
\<close>

theorem redeem_script_condition:
  assumes "script_laws E" and "SignatorySet_redeem_script E s dest ratio = Ok script"
    and "sigset_ok s" and "ss_present_vp s < 2 ^ 64" and "fst ratio \<le> snd ratio" and "set_keys_ok s"
    and "0 < length dest" and "length dest \<le> 75" and "length sigs = length (ss_signatories s)"
  shows "\<exists>is t. script_instructions E script = map Some is \<and> SignatorySet_signature_threshold s ratio = Ok t \<and>
    (accepts chk is sigs \<longleftrightarrow>
       list_all (encoded chk) (zip sigs (ss_signatories s)) \<and>
       sum_list (map (vote chk (SignatorySet_get_truncation s 23)) (zip sigs (ss_signatories s))) >
       t div 2 ^ SignatorySet_get_truncation s 23) \<and>
    (\<not> list_all (encoded chk) (zip sigs (ss_signatories s)) \<longrightarrow> run_script chk is [] sigs = None)"
proof -
  have total: "sum_list (map sg_voting_power (ss_signatories s)) \<le> ss_present_vp s"
    using assms(3) by (simp add: sigset_ok_def)
  obtain t where t: "SignatorySet_signature_threshold s ratio = Ok t" "t \<le> ss_present_vp s" "ss_signatories s \<noteq> []"
      and ins: "script_instructions E script = map (Some \<circ> item_instr) (redeem_items s dest t)"
    using script_laws.redeem_script_instructions [OF assms(1,2) total assms(4-8)] by blast
  have "script_instructions E script = map Some (map item_instr (redeem_items s dest t))"
    using ins by simp
  moreover have "accepts chk (map item_instr (redeem_items s dest t)) sigs \<longleftrightarrow>
       list_all (encoded chk) (zip sigs (ss_signatories s)) \<and>
       sum_list (map (vote chk (SignatorySet_get_truncation s 23)) (zip sigs (ss_signatories s))) >
       t div 2 ^ SignatorySet_get_truncation s 23"
    "\<not> list_all (encoded chk) (zip sigs (ss_signatories s)) \<Longrightarrow>
       run_script chk (map item_instr (redeem_items s dest t)) [] sigs = None"
    using run_redeem_items [OF t(3) assms(9) total t(2), of chk dest]
    by (simp_all add: accepts_def bool_bytes_def truthy_def)
  ultimately show ?thesis using t(1) by blast
qed

section \<open>Reading a script back\<close>

lemma bit_len_le: "n < 2 ^ k \<Longrightarrow> bit_len n \<le> k"
proof (induction k arbitrary: n)
  case 0
  then show ?case by (simp add: bit_len.simps)
next
  case (Suc k)
  then show ?case by (cases "n = 0") (auto simp: bit_len.simps [of n] bit_len.simps [of 0])
qed

lemma no_truncation: "ss_present_vp s < 2 ^ 23 \<Longrightarrow> SignatorySet_get_truncation s 23 = 0"
  using bit_len_le [of "ss_present_vp s" 23] by (simp add: SignatorySet_get_truncation_def)

text \<open>
  The numbers the parser can read back: an integer from 1 to 16 is an opcode of its own in a
  script, which the parser does not take for a number.
\<close>

definition readable :: "nat \<Rightarrow> bool" where
  "readable n \<longleftrightarrow> n = 0 \<or> 16 < n"

definition readable_key :: "'x ext_scheme \<Rightarrow> pubkey \<Rightarrow> bool" where
  "readable_key E k \<longleftrightarrow> length k = 33 \<and> (\<exists>pk. public_key_from_slice E k = Inr pk)"

context script_laws
begin

lemma take_number_int:
  assumes "readable n" and "n < 2 ^ 23"
  shows "take_number E (Some (item_instr (SInt (as_i64 n))) # rest) = Ok (int n, rest)"
proof -
  have "as_i64 n = int n" using assms(2) by (intro as_i64_small) simp
  moreover have "read_scriptint E (scriptnum_encode n) = Some (int n)"
    using assms(2) by (intro scriptint_encode) simp
  ultimately show ?thesis
    using assms(1) by (auto simp: take_number_def take_bytes_def take_instruction_def item_instr_def readable_def)
qed

lemma take_key_bytes:
  assumes "readable_key E k"
  shows "take_key E (Some (item_instr (SBytes k)) # rest) = Ok (k, rest)"
  using assms by (auto simp: readable_key_def take_key_def take_bytes_def take_instruction_def item_instr_def
      Pubkey_try_from_slice_def PUBLIC_KEY_SIZE_def Pubkey_new_def)

lemma take_op_item [simp]: "take_op E opc (Some (item_instr (SOp opc)) # rest) = Ok rest"
  by (simp add: take_op_def take_instruction_def item_instr_def Let_def)

lemma take_op_false [simp]: "take_op E OP_FALSE (Some (item_instr (SInt 0)) # rest) = Ok rest"
  by (simp add: take_op_def take_instruction_def item_instr_def scriptnum_encode_def Let_def)

lemma i64_as_u64_int: "n < 2 ^ 23 \<Longrightarrow> i64_as_u64 (int n) = n"
  by (simp add: i64_as_u64_def)

lemma take_first_items:
  assumes "readable (sg_voting_power g)" and "sg_voting_power g < 2 ^ 23" and "readable_key E (sg_pubkey g)"
  shows "take_first_signatory E (map (Some \<circ> item_instr) (first_signatory_items 0 g) @ rest) = Ok (g, rest)"
  using take_number_int [OF assms(1,2)] take_key_bytes [OF assms(3)] i64_as_u64_int [OF assms(2)]
  by (simp add: take_first_signatory_def first_signatory_items_def)

lemma take_nth_items:
  assumes "readable (sg_voting_power g)" and "sg_voting_power g < 2 ^ 23" and "readable_key E (sg_pubkey g)"
  shows "take_nth_signatory E (map (Some \<circ> item_instr) (nth_signatory_items 0 g) @ rest) = Ok (g, rest)"
  using take_number_int [OF assms(1,2)] take_key_bytes [OF assms(3)] i64_as_u64_int [OF assms(2)]
  by (simp add: take_nth_signatory_def nth_signatory_items_def)

lemma take_signatories_items:
  assumes "\<And>g. g \<in> set ss \<Longrightarrow> readable (sg_voting_power g) \<and> sg_voting_power g < 2 ^ 23 \<and> readable_key E (sg_pubkey g)"
  shows "take_signatories E (map (Some \<circ> item_instr) (concat (map (nth_signatory_items 0) ss)) @ Some (PushBytes b) # rest) sigs =
    Ok (sigs @ ss, Some (PushBytes b) # rest)"
  using assms
proof (induction ss arbitrary: sigs)
  case Nil
  then show ?case by (simp add: take_signatories.simps)
next
  case (Cons g ss)
  let ?rest = "map (Some \<circ> item_instr) (concat (map (nth_signatory_items 0) ss)) @ Some (PushBytes b) # rest"
  let ?ins = "map (Some \<circ> item_instr) (nth_signatory_items 0 g) @ ?rest"
  have "take_nth_signatory E ?ins = Ok (g, ?rest)" using Cons.prems by (intro take_nth_items) auto
  moreover have "\<exists>tl. ?ins = Some (Op OP_SWAP) # tl"
    by (simp add: nth_signatory_items_def item_instr_def)
  ultimately have "take_signatories E ?ins sigs = take_signatories E ?rest (sigs @ [g])"
    by (subst take_signatories.simps) (elim exE, simp)
  also have "\<dots> = Ok ((sigs @ [g]) @ ss, Some (PushBytes b) # rest)"
    by (rule Cons.IH) (use Cons.prems in simp)
  finally show ?case by (simp only: list.map concat.simps map_append append_assoc append.simps)
qed

lemma redeem_script_cong:
  "ss_signatories s' = ss_signatories s \<Longrightarrow> ss_present_vp s' = ss_present_vp s \<Longrightarrow>
     SignatorySet_redeem_script E s' dest ratio = SignatorySet_redeem_script E s dest ratio"
  unfolding SignatorySet_redeem_script_def SignatorySet_get_truncation_def SignatorySet_signature_threshold_def
  by (simp only:)

text \<open>The readers of \<^verbatim>\<open>from_script\<close>, one after the other on the items of a redeem script.\<close>

lemma read_redeem_items:
  assumes good: "\<forall>g\<in>set (s0 # ss). readable (sg_voting_power g) \<and> sg_voting_power g < 2 ^ 23 \<and> readable_key E (sg_pubkey g)"
    and t: "readable t" "t < 2 ^ 23"
    and tail: "tail = map (Some \<circ> item_instr) [SOp OP_GREATERTHAN, SBytes dest, SOp OP_DROP]"
    and rest: "rest = map (Some \<circ> item_instr) (concat (map (nth_signatory_items 0) ss)) @ Some (PushBytes (scriptnum_encode t)) # tail"
  shows "take_first_signatory E (map (Some \<circ> item_instr) (first_signatory_items 0 s0) @ rest) = Ok (s0, rest)"
    and "take_signatories E rest [s0] = Ok ([s0] @ ss, Some (PushBytes (scriptnum_encode t)) # tail)"
    and "take_threshold E (Some (PushBytes (scriptnum_encode t)) # tail) = Ok (t, map (Some \<circ> item_instr) [SBytes dest, SOp OP_DROP])"
    and "take_commitment E (map (Some \<circ> item_instr) [SBytes dest, SOp OP_DROP]) = Ok (dest, [])"
proof -
  show "take_first_signatory E (map (Some \<circ> item_instr) (first_signatory_items 0 s0) @ rest) = Ok (s0, rest)"
    using good by (intro take_first_items) simp_all
  show "take_signatories E rest [s0] = Ok ([s0] @ ss, Some (PushBytes (scriptnum_encode t)) # tail)"
    unfolding rest using good by (intro take_signatories_items) simp
  have "item_instr (SInt (as_i64 t)) = PushBytes (scriptnum_encode t)"
    using t as_i64_small [of t] by (auto simp: item_instr_def readable_def)
  then show "take_threshold E (Some (PushBytes (scriptnum_encode t)) # tail) = Ok (t, map (Some \<circ> item_instr) [SBytes dest, SOp OP_DROP])"
    using take_number_int [OF t] i64_as_u64_int [OF t(2)] by (simp add: take_threshold_def tail)
  show "take_commitment E (map (Some \<circ> item_instr) [SBytes dest, SOp OP_DROP]) = Ok (dest, [])"
    by (simp add: take_commitment_def take_bytes_def take_instruction_def item_instr_def [of "SBytes dest"])
qed

lemma from_script_redeem_script:
  assumes script: "SignatorySet_redeem_script E s dest ratio = Ok script"
    and total: "sum_list (map sg_voting_power (ss_signatories s)) = ss_present_vp s" "ss_present_vp s < 2 ^ 23"
    and ratio: "fst ratio \<le> snd ratio" and dest: "0 < length dest" "length dest \<le> 75"
    and sigs: "\<And>g. g \<in> set (ss_signatories s) \<Longrightarrow> readable (sg_voting_power g) \<and> readable_key E (sg_pubkey g)"
    and thr: "readable (ss_present_vp s * fst ratio div snd ratio)"
  shows "SignatorySet_from_script E script ratio =
    Ok (\<lparr>ss_create_time = 0, ss_present_vp = ss_present_vp s, ss_possible_vp = ss_present_vp s, ss_index = 0,
         ss_signatories = ss_signatories s\<rparr>, dest)"
proof -
  have keys: "set_keys_ok s" unfolding set_keys_ok_def list_all_iff
  proof
    fix g assume "g \<in> set (ss_signatories s)"
    from sigs [OF this] show "0 < length (sg_pubkey g) \<and> length (sg_pubkey g) \<le> 75"
      unfolding readable_key_def by linarith
  qed
  have vp64: "ss_present_vp s < 2 ^ 64" using total(2) by simp
  from redeem_script_instructions [OF script _ vp64 ratio keys dest] total(1)
  obtain t where t: "SignatorySet_signature_threshold s ratio = Ok t" "t = ss_present_vp s * fst ratio div snd ratio"
      "t \<le> ss_present_vp s" "ss_signatories s \<noteq> []"
      and ins: "script_instructions E script = map (Some \<circ> item_instr) (redeem_items s dest t)" by auto
  obtain s0 ss where ss: "ss_signatories s = s0 # ss" using t(4) by (cases "ss_signatories s") auto
  have small: "sg_voting_power g < 2 ^ 23" if "g \<in> set (s0 # ss)" for g
    using member_le_sum_list_nat [of "sg_voting_power g" "map sg_voting_power (s0 # ss)"] that total
    unfolding ss by (auto intro: le_less_trans)
  have good: "\<forall>g\<in>set (s0 # ss). readable (sg_voting_power g) \<and> sg_voting_power g < 2 ^ 23 \<and> readable_key E (sg_pubkey g)"
    using sigs small by (simp add: ss)
  have t23: "t < 2 ^ 23" using t(3) total(2) by simp
  have rt: "readable t" using thr t(2) by simp
  define tail where "tail = map (Some \<circ> item_instr) [SOp OP_GREATERTHAN, SBytes dest, SOp OP_DROP]"
  define rest where "rest = map (Some \<circ> item_instr) (concat (map (nth_signatory_items 0) ss)) @ Some (PushBytes (scriptnum_encode t)) # tail"
  have "item_instr (SInt (as_i64 t)) = PushBytes (scriptnum_encode t)"
    using rt t23 as_i64_small [of t] by (auto simp: item_instr_def readable_def)
  then have parse: "script_instructions E script = map (Some \<circ> item_instr) (first_signatory_items 0 s0) @ rest"
    unfolding ins redeem_items_def Let_def no_truncation [OF total(2)] ss tail_def rest_def by simp
  note read = read_redeem_items [OF good rt t23 tail_def rest_def]
  define s' where "s' = \<lparr>ss_create_time = 0, ss_present_vp = ss_present_vp s, ss_possible_vp = ss_present_vp s,
      ss_index = 0, ss_signatories = [s0] @ ss\<rparr>"
  have sum: "sum_u64 0 (map sg_voting_power ([s0] @ ss)) = Ok (ss_present_vp s)"
    using total vp64 by (simp add: sum_u64_Inr_iff ss del: sum_u64.simps)
  have t': "SignatorySet_signature_threshold s' ratio = Ok t"
    using t(1) by (simp add: s'_def SignatorySet_signature_threshold_def)
  have adj: "adjust_present_vp 100 ratio t s' = Ok s'"
    using t' by (simp add: numeral_eq_Suc)
  have scr: "SignatorySet_redeem_script E s' dest ratio = Ok script"
    using redeem_script_cong [of s' s] script by (simp add: s'_def ss)
  show ?thesis
    unfolding SignatorySet_from_script_def parse read bnd_simps prod.case sum s'_def [symmetric] adj t' scr
    by (simp add: s'_def ss)
qed

end

text \<open>
  C22: Reading a script back recovers the signatory set. For a set whose voting powers fit in 23
  bits and are, like the threshold, not between 1 and 16, \<^verbatim>\<open>from_script\<close> of its redeem script
  returns the signatories in their order, their total voting power and the commitment.
\<close>

theorem from_script_roundtrip:
  assumes "script_laws E" and "SignatorySet_redeem_script E s dest ratio = Ok script"
    and "sum_list (map sg_voting_power (ss_signatories s)) = ss_present_vp s" and "ss_present_vp s < 2 ^ 23"
    and "fst ratio \<le> snd ratio" and "0 < length dest" and "length dest \<le> 75"
    and "\<And>g. g \<in> set (ss_signatories s) \<Longrightarrow> readable (sg_voting_power g) \<and> readable_key E (sg_pubkey g)"
    and "readable (ss_present_vp s * fst ratio div snd ratio)"
  shows "SignatorySet_from_script E script ratio =
    Ok (\<lparr>ss_create_time = 0, ss_present_vp = ss_present_vp s, ss_possible_vp = ss_present_vp s, ss_index = 0,
         ss_signatories = ss_signatories s\<rparr>, dest)"
  using assms by (rule script_laws.from_script_redeem_script)

section \<open>A signed state can be spent\<close>




text \<open>
  A set whose voting powers need more than 23 bits: the powers of the first two signatories are
  more than two thirds of the total, their truncated powers are not more than the truncated
  threshold.
\<close>

definition truncated_set :: "pubkey \<Rightarrow> pubkey \<Rightarrow> pubkey \<Rightarrow> signatory_set" where
  "truncated_set a b c =
     \<lparr>ss_create_time = 0, ss_present_vp = 25165831, ss_possible_vp = 25165831, ss_index = 0,
      ss_signatories = [Signatory 8388611 a, Signatory 8388610 b, Signatory 8388610 c]\<rparr>"

lemma truncated_set_truncation: "SignatorySet_get_truncation (truncated_set a b c) 23 = 2"
  by (simp add: SignatorySet_get_truncation_def truncated_set_def bit_len.simps)

text \<open>
  C40: Beyond 23 bits the two notions of a threshold differ. There is a set of three signatories
  such that a signing state with the signatures of the first two counts as signed, while the
  redeem script of the set rejects every stack without a signature of the third: the script
  compares truncated voting powers, the signing state the full ones.
\<close>

theorem truncated_threshold_gap:
  assumes "script_laws E" and "SignatorySet_redeem_script E (truncated_set a b c) dest SIGSET_THRESHOLD = Ok script"
    and "set_keys_ok (truncated_set a b c)" and "0 < length dest" and "length dest \<le> 75"
  shows "(\<forall>ts. ts_reachable E (truncated_set a b c) ts \<and> signed_power (ts_sigs ts) = 8388611 + 8388610 \<longrightarrow>
      ThresholdSig_signed ts) \<and>
    (\<exists>is. script_instructions E script = map Some is \<and> (\<forall>chk s1 s2. \<not> accepts chk is [s1, s2, []]))"
proof
  let ?s = "truncated_set a b c"
  show "\<forall>ts. ts_reachable E ?s ts \<and> signed_power (ts_sigs ts) = 8388611 + 8388610 \<longrightarrow> ThresholdSig_signed ts"
  proof (intro allI impI)
    fix ts assume ts: "ts_reachable E ?s ts \<and> signed_power (ts_sigs ts) = 8388611 + 8388610"
    then have "ts_inv E ts" "map (sh_power \<circ> snd) (ts_sigs ts) = [8388611, 8388610, 8388610]"
      using ts_reachable_inv [of E ?s ts] by (simp_all add: truncated_set_def)
    then show "ThresholdSig_signed ts"
      using ts by (simp add: ts_inv_def ThresholdSig_signed_def total_power_def)
  qed
  obtain t where t: "t = ss_present_vp ?s * 2 div 3" "t \<le> ss_present_vp ?s"
      and ins: "script_instructions E script = map (Some \<circ> item_instr) (redeem_items ?s dest t)"
    using script_laws.redeem_script_instructions [OF assms(1,2) _ _ _ assms(3-5)]
    by (auto simp: SIGSET_THRESHOLD_def truncated_set_def)
  have "\<not> accepts chk (map item_instr (redeem_items ?s dest t)) [s1, s2, []]" for chk s1 s2
  proof -
    have "\<not> sum_list (map (vote chk 2) (zip [s1, s2, []] (ss_signatories ?s))) > t div 2 ^ 2"
      by (simp add: t(1)) (simp add: truncated_set_def vote_def)
    moreover have "run_script chk (map item_instr (redeem_items ?s dest t)) [] [s1, s2, []] =
        (if list_all (encoded chk) (zip [s1, s2, []] (ss_signatories ?s))
         then Some [bool_bytes (sum_list (map (vote chk 2) (zip [s1, s2, []] (ss_signatories ?s))) > t div 2 ^ 2)] else None)"
      using run_redeem_items [of ?s "[s1, s2, []]" t chk dest, unfolded truncated_set_truncation] t(2)
      by (simp add: truncated_set_def)
    ultimately show ?thesis by (simp only: accepts_def bool_bytes_def if_False) (simp add: truthy_def)
  qed
  then show "\<exists>is. script_instructions E script = map Some is \<and> (\<forall>chk s1 s2. \<not> accepts chk is [s1, s2, []])"
    using ins by (intro exI [of _ "map item_instr (redeem_items ?s dest t)"]) simp
qed

end
