(* ===== verification/Checkpoint.thy ===== *)
theory Checkpoint
  imports Interface Script
begin

text \<open>
  The first half of \<^verbatim>\<open>checkpoint.rs\<close>: inputs, transactions, batches and checkpoints, and every
  operation on them that does not touch the storage of the queue. It also holds
  \<^verbatim>\<open>adjust_fee_rate\<close>.
\<close>

section \<open>Inputs\<close>

datatype checkpoint_status = Building | Signing | Complete

record input =
  in_prevout :: outpoint
  in_script_pubkey :: script
  in_redeem_script :: script
  in_sigset_index :: u32
  in_dest :: bytes
  in_amount :: u64
  in_est_witness_vsize :: u64
  in_signatures :: threshold_sig

definition Input_to_txin :: "'x ext_scheme \<Rightarrow> input \<Rightarrow> txin result" where
  "Input_to_txin E self =
     bnd (ThresholdSig_to_witness E (in_signatures self)) (\<lambda>witness.
     let witness = (if ThresholdSig_signed (in_signatures self)
                    then witness @ [in_redeem_script self] else witness)
     in Ok \<lparr>txi_previous_output = in_prevout self, txi_script_sig = [],
            txi_sequence = 2 ^ 32 - 1, txi_witness = witness\<rparr>)"

definition Input_new ::
  "'x ext_scheme \<Rightarrow> outpoint \<Rightarrow> signatory_set \<Rightarrow> bytes \<Rightarrow> u64 \<Rightarrow> u64 \<times> u64 \<Rightarrow> input result"
where
  "Input_new E prevout sigset dest amount threshold =
     bnd (SignatorySet_output_script E sigset dest threshold) (\<lambda>script_pubkey.
     bnd (SignatorySet_redeem_script E sigset dest threshold) (\<lambda>redeem_script.
     bnd (SignatorySet_est_witness_vsize sigset) (\<lambda>est.
     bnd (ThresholdSig_from_sigset sigset) (\<lambda>signatures.
     Ok \<lparr>in_prevout = prevout, in_script_pubkey = script_pubkey, in_redeem_script = redeem_script,
         in_sigset_index = ss_index sigset, in_dest = dest, in_amount = amount,
         in_est_witness_vsize = est, in_signatures = signatures\<rparr>))))"

definition Input_est_vsize :: "input \<Rightarrow> u64 result" where
  "Input_est_vsize self = add_u64 (in_est_witness_vsize self) 40"

section \<open>Transactions\<close>

record bitcoin_tx =
  bt_lock_time :: u32
  bt_signed_inputs :: u16
  bt_input :: "input list"
  bt_output :: "txout list"

definition BitcoinTx_default :: bitcoin_tx where
  "BitcoinTx_default = \<lparr>bt_lock_time = 0, bt_signed_inputs = 0, bt_input = [], bt_output = []\<rparr>"

definition BitcoinTx_to_bitcoin_tx :: "'x ext_scheme \<Rightarrow> bitcoin_tx \<Rightarrow> transaction result" where
  "BitcoinTx_to_bitcoin_tx E self =
     bnd (map_r (Input_to_txin E) (bt_input self)) (\<lambda>ins.
     Ok \<lparr>btx_version = 1, btx_lock_time = bt_lock_time self, btx_input = ins,
         btx_output = bt_output self\<rparr>)"

definition BitcoinTx_with_lock_time :: "u32 \<Rightarrow> bitcoin_tx" where
  "BitcoinTx_with_lock_time lock_time = BitcoinTx_default\<lparr>bt_lock_time := lock_time\<rparr>"

definition BitcoinTx_signed :: "bitcoin_tx \<Rightarrow> bool" where
  "BitcoinTx_signed self \<longleftrightarrow> bt_signed_inputs self = length (bt_input self)"

definition BitcoinTx_est_vsize :: "'x ext_scheme \<Rightarrow> bitcoin_tx \<Rightarrow> u64 result" where
  "BitcoinTx_est_vsize E self =
     bnd (BitcoinTx_to_bitcoin_tx E self) (\<lambda>tx.
     bnd (sum_u64 0 (map in_est_witness_vsize (bt_input self))) (\<lambda>est.
     add_u64 (tx_vsize E tx) est))"

definition BitcoinTx_txid :: "'x ext_scheme \<Rightarrow> bitcoin_tx \<Rightarrow> txid result" where
  "BitcoinTx_txid E self = bnd (BitcoinTx_to_bitcoin_tx E self) (\<lambda>tx. Ok (tx_txid E tx))"

definition BitcoinTx_value :: "bitcoin_tx \<Rightarrow> u64 result" where
  "BitcoinTx_value self = sum_u64 0 (map txo_value (bt_output self))"

definition BitcoinTx_populate_input_sig_message ::
  "'x ext_scheme \<Rightarrow> bitcoin_tx \<Rightarrow> nat \<Rightarrow> bitcoin_tx result"
where
  "BitcoinTx_populate_input_sig_message E self input_index =
     bnd (BitcoinTx_to_bitcoin_tx E self) (\<lambda>bitcoin_tx.
     bnd (ok_or (InputIndexOutOfBounds input_index) (vec_get (bt_input self) input_index)) (\<lambda>input.
     bnd (segwit_signature_hash E bitcoin_tx input_index (in_redeem_script input) (in_amount input)) (\<lambda>sighash.
     Ok (self\<lparr>bt_input := (bt_input self)[input_index :=
           input\<lparr>in_signatures := ThresholdSig_set_message (in_signatures input) sighash\<rparr>]\<rparr>))))"

subsection \<open>Deducting a fee\<close>

text \<open>
  An output's value above its dust limit, and one pass of \<^verbatim>\<open>retain\<close>: the outputs that can
  pay the threshold, and the smallest adjusted value of all the outputs it looked at.
\<close>

definition adjusted_output :: "'x ext_scheme \<Rightarrow> txout \<Rightarrow> u64" where
  "adjusted_output E out = saturating_sub (txo_value out) (dust_value E (txo_script_pubkey out))"

fun min_adjusted :: "'x ext_scheme \<Rightarrow> u64 \<Rightarrow> txout list \<Rightarrow> u64" where
  "min_adjusted E m [] = m"
| "min_adjusted E m (out # outs) =
     min_adjusted E (if adjusted_output E out < m then adjusted_output E out else m) outs"

lemma min_adjusted_ge:
  "t \<le> min_adjusted E m outs \<longleftrightarrow> t \<le> m \<and> (\<forall>out\<in>set outs. t \<le> adjusted_output E out)"
  by (induction outs arbitrary: m) auto

text \<open>
  The loop: the outputs that remain and the threshold it breaks with. A \<^verbatim>\<open>u64\<close> fee is its
  own \<open>as_u64\<close>; the conversion tells that the threshold is one too, without which the loop
  would not have to end.
\<close>

function deduct_fee_loop :: "'x ext_scheme \<Rightarrow> u64 \<Rightarrow> txout list \<Rightarrow> (txout list \<times> u64) result" where
  "deduct_fee_loop E fee outs =
     bnd (div_r (as_u64 fee) (length outs)) (\<lambda>threshold.
     let min_output = min_adjusted E (2 ^ 64 - 1) outs;
         kept = filter (\<lambda>out. adjusted_output E out > threshold) outs
     in if length kept = 0 then Ok (kept, threshold)
        else bnd (div_r (as_u64 fee) (length kept)) (\<lambda>threshold'.
             if min_output \<ge> threshold' then Ok (kept, threshold')
             else deduct_fee_loop E fee kept))"
  by pat_completeness auto

text \<open>A pass that removes no output is the last one, so every further pass has fewer outputs.\<close>

lemma deduct_fee_pass_shrinks:
  assumes "threshold = as_u64 fee div length outs"
    and "kept = filter (\<lambda>out. adjusted_output E out > threshold) outs"
    and "\<not> min_adjusted E (2 ^ 64 - 1) outs \<ge> as_u64 fee div length kept"
  shows "length kept < length outs"
proof (rule ccontr)
  assume "\<not> length kept < length outs"
  then have "kept = outs"
    using assms(2) by (metis length_filter_less filter_id_conv not_less_iff_gr_or_eq filter_True length_filter_le le_neq_implies_less)
  then have all: "\<forall>out\<in>set outs. threshold < adjusted_output E out"
    using assms(2) by (metis filter_id_conv)
  have "as_u64 fee \<le> 2 ^ 64 - 1" by (simp add: as_u64_def less_Suc_eq_le [symmetric])
  then have "threshold \<le> 2 ^ 64 - 1" using assms(1) div_le_dividend le_trans by blast
  then have "min_adjusted E (2 ^ 64 - 1) outs \<ge> threshold"
    using all unfolding min_adjusted_ge by (auto intro: less_imp_le)
  then show False using assms(1,3) \<open>kept = outs\<close> by simp
qed

termination deduct_fee_loop
  by (relation "measure (\<lambda>(E, fee, outs). length outs)")
    (auto simp: div_r_Inr_iff intro: deduct_fee_pass_shrinks)

declare deduct_fee_loop.simps [simp del]

definition BitcoinTx_deduct_fee :: "'x ext_scheme \<Rightarrow> bitcoin_tx \<Rightarrow> u64 \<Rightarrow> bitcoin_tx result" where
  "BitcoinTx_deduct_fee E self fee =
     (if fee = 0 then Ok self
      else if bt_output self = [] then Err (BitcoinFee fee)
      else bnd (deduct_fee_loop E fee (bt_output self)) (\<lambda>(outs, threshold).
           bnd (map_r (\<lambda>out. bnd (sub_w (txo_value out) threshold) (\<lambda>v. Ok (out\<lparr>txo_value := v\<rparr>))) outs) (\<lambda>outs.
           Ok (self\<lparr>bt_output := outs\<rparr>))))"

section \<open>Batches and checkpoints\<close>

record batch =
  ba_signed_txs :: u16
  ba_batch :: "bitcoin_tx list"

definition Batch_signed :: "batch \<Rightarrow> bool" where
  "Batch_signed self \<longleftrightarrow> ba_signed_txs self = length (ba_batch self)"

record checkpoint =
  cp_status :: checkpoint_status
  cp_pending :: "(dest \<times> coin) list"
  cp_batches :: "batch list"
  cp_fee_rate :: u64
  cp_signed_at_btc_height :: "u32 option"
  cp_deposits_enabled :: bool
  cp_fees_collected :: u64
  cp_sigset :: signatory_set

text \<open>\<^verbatim>\<open>BatchType::Checkpoint as usize\<close>.\<close>

definition BatchType_Checkpoint :: nat where
  "BatchType_Checkpoint = 0"

definition Checkpoint_new :: "signatory_set \<Rightarrow> checkpoint result" where
  "Checkpoint_new sigset =
     Ok \<lparr>cp_status = Building, cp_pending = [],
         cp_batches = [\<lparr>ba_signed_txs = 0, ba_batch = [BitcoinTx_default]\<rparr>],
         cp_fee_rate = DEFAULT_FEE_RATE, cp_signed_at_btc_height = None,
         cp_deposits_enabled = True, cp_fees_collected = 0, cp_sigset = sigset\<rparr>"

definition Checkpoint_advance :: "checkpoint \<Rightarrow> checkpoint" where
  "Checkpoint_advance self = self\<lparr>cp_status := Complete\<rparr>"

text \<open>The batches that are signed, up to the first one that is not.\<close>

definition Checkpoint_signed_batches :: "checkpoint \<Rightarrow> nat" where
  "Checkpoint_signed_batches self = length (takeWhile Batch_signed (cp_batches self))"

definition Checkpoint_signed :: "checkpoint \<Rightarrow> bool" where
  "Checkpoint_signed self \<longleftrightarrow> Checkpoint_signed_batches self = length (cp_batches self)"

definition Checkpoint_current_batch :: "checkpoint \<Rightarrow> batch option" where
  "Checkpoint_current_batch self =
     (if Checkpoint_signed self then None
      else vec_get (cp_batches self) (Checkpoint_signed_batches self))"

definition Checkpoint_create_time :: "checkpoint \<Rightarrow> u64" where
  "Checkpoint_create_time self = ss_create_time (cp_sigset self)"

subsection \<open>Signing\<close>

text \<open>
  The loop over the inputs of one transaction. \<open>si\<close> is the number of signatures used so far
  and \<open>n\<close> the counter \<^verbatim>\<open>signed_inputs\<close>; \<open>not_enough\<close> is the error of the caller for
  missing signatures. The results are the inputs, the number of signatures used and the
  counter afterwards.
\<close>

fun sign_inputs ::
  "'x ext_scheme \<Rightarrow> contract_error \<Rightarrow> xpub \<Rightarrow> signature list \<Rightarrow> input list \<Rightarrow> nat \<Rightarrow> u16 \<Rightarrow>
   (input list \<times> nat \<times> u16) result"
where
  "sign_inputs E not_enough xpub sigs [] si n = Ok ([], si, n)"
| "sign_inputs E not_enough xpub sigs (input # rest) si n =
     bnd (Xpub_derive_pubkey E xpub (in_sigset_index input)) (\<lambda>pubkey.
     if \<not> ThresholdSig_needs_sig (in_signatures input) pubkey
     then bnd (sign_inputs E not_enough xpub sigs rest si n) (\<lambda>(rest', si', n').
          Ok (input # rest', si', n'))
     else bnd (throw_if (si \<ge> length sigs) not_enough) (\<lambda>_.
          bnd (ThresholdSig_sign E (in_signatures input) pubkey (sigs ! si)) (\<lambda>ts.
          bnd (if \<not> ThresholdSig_signed (in_signatures input) \<and> ThresholdSig_signed ts
               then add_u16 n 1 else Ok n) (\<lambda>n.
          bnd (sign_inputs E not_enough xpub sigs rest (si + 1) n) (\<lambda>(rest', si', n').
          Ok (input\<lparr>in_signatures := ts\<rparr> # rest', si', n'))))))"

fun sign_txs ::
  "'x ext_scheme \<Rightarrow> contract_error \<Rightarrow> xpub \<Rightarrow> signature list \<Rightarrow> bitcoin_tx list \<Rightarrow> nat \<Rightarrow> u16 \<Rightarrow>
   (bitcoin_tx list \<times> nat \<times> u16) result"
where
  "sign_txs E not_enough xpub sigs [] si n = Ok ([], si, n)"
| "sign_txs E not_enough xpub sigs (tx # rest) si n =
     bnd (sign_inputs E not_enough xpub sigs (bt_input tx) si (bt_signed_inputs tx)) (\<lambda>(ins, si, k).
     let tx' = tx\<lparr>bt_input := ins, bt_signed_inputs := k\<rparr>
     in bnd (if \<not> BitcoinTx_signed tx \<and> BitcoinTx_signed tx' then add_u16 n 1 else Ok n) (\<lambda>n.
        bnd (sign_txs E not_enough xpub sigs rest si n) (\<lambda>(rest', si', n').
        Ok (tx' # rest', si', n'))))"

fun sign_batches ::
  "'x ext_scheme \<Rightarrow> contract_error \<Rightarrow> xpub \<Rightarrow> signature list \<Rightarrow> batch list \<Rightarrow> nat \<Rightarrow> (batch list \<times> nat) result"
where
  "sign_batches E not_enough xpub sigs [] si = Ok ([], si)"
| "sign_batches E not_enough xpub sigs (batch # rest) si =
     bnd (sign_txs E not_enough xpub sigs (ba_batch batch) si (ba_signed_txs batch)) (\<lambda>(txs, si, n).
     let batch' = batch\<lparr>ba_batch := txs, ba_signed_txs := n\<rparr>
     in if \<not> Batch_signed batch then Ok (batch' # rest, si)
        else bnd (sign_batches E not_enough xpub sigs rest si) (\<lambda>(rest', si').
             Ok (batch' # rest', si')))"

definition Checkpoint_sign ::
  "'x ext_scheme \<Rightarrow> checkpoint \<Rightarrow> xpub \<Rightarrow> signature list \<Rightarrow> u32 \<Rightarrow> checkpoint result"
where
  "Checkpoint_sign E self xpub sigs btc_height =
     bnd (sign_batches E (Prelude.Checkpoint ''Not enough signatures supplied'') xpub sigs
            (cp_batches self) 0) (\<lambda>(batches, sig_index).
     bnd (throw_if (sig_index \<noteq> length sigs) (Prelude.Checkpoint ''Excess signatures supplied'')) (\<lambda>_.
     let self' = self\<lparr>cp_batches := batches\<rparr>
     in Ok (if Checkpoint_signed self' \<and> \<not> Checkpoint_signed self
            then self'\<lparr>cp_signed_at_btc_height := Some btc_height\<rparr> else self')))"

text \<open>\<^verbatim>\<open>to_sign\<close>: the messages an extended key still has to sign.\<close>

fun to_sign_inputs :: "'x ext_scheme \<Rightarrow> xpub \<Rightarrow> input list \<Rightarrow> (message \<times> u32) list result" where
  "to_sign_inputs E xpub [] = Ok []"
| "to_sign_inputs E xpub (input # rest) =
     bnd (Xpub_derive_pubkey E xpub (in_sigset_index input)) (\<lambda>pubkey.
     bnd (to_sign_inputs E xpub rest) (\<lambda>msgs.
     Ok (if ThresholdSig_needs_sig (in_signatures input) pubkey
         then (ts_message (in_signatures input), in_sigset_index input) # msgs else msgs)))"

fun to_sign_txs :: "'x ext_scheme \<Rightarrow> xpub \<Rightarrow> bitcoin_tx list \<Rightarrow> (message \<times> u32) list result" where
  "to_sign_txs E xpub [] = Ok []"
| "to_sign_txs E xpub (tx # rest) =
     bnd (to_sign_inputs E xpub (bt_input tx)) (\<lambda>msgs.
     bnd (to_sign_txs E xpub rest) (\<lambda>msgs'. Ok (msgs @ msgs')))"

fun to_sign_batches :: "'x ext_scheme \<Rightarrow> xpub \<Rightarrow> batch list \<Rightarrow> (message \<times> u32) list result" where
  "to_sign_batches E xpub [] = Ok []"
| "to_sign_batches E xpub (batch # rest) =
     bnd (to_sign_txs E xpub (ba_batch batch)) (\<lambda>msgs.
     if \<not> Batch_signed batch then Ok msgs
     else bnd (to_sign_batches E xpub rest) (\<lambda>msgs'. Ok (msgs @ msgs')))"

definition Checkpoint_to_sign :: "'x ext_scheme \<Rightarrow> checkpoint \<Rightarrow> xpub \<Rightarrow> (message \<times> u32) list result" where
  "Checkpoint_to_sign E self xpub = to_sign_batches E xpub (cp_batches self)"

subsection \<open>The checkpoint transaction\<close>

definition Checkpoint_checkpoint_tx :: "'x ext_scheme \<Rightarrow> checkpoint \<Rightarrow> transaction result" where
  "Checkpoint_checkpoint_tx E self =
     bnd (index_r (cp_batches self) BatchType_Checkpoint) (\<lambda>batch.
     bnd (unwrap (vec_last (ba_batch batch))) (\<lambda>tx.
     BitcoinTx_to_bitcoin_tx E tx))"

definition Checkpoint_reserve_output :: "'x ext_scheme \<Rightarrow> checkpoint \<Rightarrow> txout option result" where
  "Checkpoint_reserve_output E self =
     bnd (Checkpoint_checkpoint_tx E self) (\<lambda>tx. Ok (vec_first (btx_output tx)))"

text \<open>\<^verbatim>\<open>self.batches[BatchType::Checkpoint][0]\<close>.\<close>

definition first_tx :: "checkpoint \<Rightarrow> bitcoin_tx result" where
  "first_tx self =
     bnd (index_r (cp_batches self) BatchType_Checkpoint) (\<lambda>batch. index_r (ba_batch batch) 0)"

definition set_first_tx :: "checkpoint \<Rightarrow> bitcoin_tx \<Rightarrow> checkpoint" where
  "set_first_tx self tx =
     (let batch = cp_batches self ! BatchType_Checkpoint
      in self\<lparr>cp_batches := (cp_batches self)[BatchType_Checkpoint := batch\<lparr>ba_batch := (ba_batch batch)[0 := tx]\<rparr>]\<rparr>)"

definition Checkpoint_checkpoint_tx_miner_fees :: "checkpoint \<Rightarrow> u64 result" where
  "Checkpoint_checkpoint_tx_miner_fees self =
     bnd (first_tx self) (\<lambda>tx.
     bnd (sum_u64 0 (map in_amount (bt_input tx))) (\<lambda>fees.
     fold_r (\<lambda>out fees. sub_w fees (txo_value out)) (bt_output tx) fees))"

definition Checkpoint_additional_outputs ::
  "'x ext_scheme \<Rightarrow> checkpoint \<Rightarrow> checkpoint_config \<Rightarrow> bytes \<Rightarrow> txout list result"
where
  "Checkpoint_additional_outputs E self config timestamping_commitment =
     bnd (SignatorySet_output_script E (cp_sigset self) [0] (cc_sigset_threshold config)) (\<lambda>script.
     Ok [\<lparr>txo_value = 0, txo_script_pubkey = script\<rparr>,
         \<lparr>txo_value = 0, txo_script_pubkey = new_op_return E timestamping_commitment\<rparr>])"

definition Checkpoint_est_vsize ::
  "'x ext_scheme \<Rightarrow> checkpoint \<Rightarrow> checkpoint_config \<Rightarrow> bytes \<Rightarrow> u64 result"
where
  "Checkpoint_est_vsize E self config timestamping_commitment =
     bnd (first_tx self) (\<lambda>cp.
     bnd (BitcoinTx_to_bitcoin_tx E cp) (\<lambda>tx.
     bnd (Checkpoint_additional_outputs E self config timestamping_commitment) (\<lambda>outs.
     let tx = tx\<lparr>btx_output := take (as_usize (cc_max_outputs config)) (outs @ btx_output tx),
                 btx_input := take (as_usize (cc_max_inputs config)) (btx_input tx)\<rparr>
     in bnd (sum_u64 0 (map in_est_witness_vsize (take (as_usize (cc_max_inputs config)) (bt_input cp)))) (\<lambda>est.
        add_u64 (tx_vsize E tx) est))))"

definition Checkpoint_base_fee ::
  "'x ext_scheme \<Rightarrow> checkpoint \<Rightarrow> checkpoint_config \<Rightarrow> bytes \<Rightarrow> u64 result"
where
  "Checkpoint_base_fee E self config timestamping_commitment =
     bnd (Checkpoint_est_vsize E self config timestamping_commitment) (\<lambda>est_vsize.
     mul_u64 est_vsize (cp_fee_rate self))"

definition Checkpoint_calc_total_input_and_output ::
  "checkpoint \<Rightarrow> checkpoint_config \<Rightarrow> (u64 \<times> u64) result"
where
  "Checkpoint_calc_total_input_and_output self config =
     bnd (ok_or (Prelude.Checkpoint ''Cannot get batch checkpoint'')
            (vec_get (cp_batches self) BatchType_Checkpoint)) (\<lambda>batch.
     bnd (ok_or (Prelude.Checkpoint ''Cannot get checkpoint tx'') (vec_get (ba_batch batch) 0)) (\<lambda>tx.
     bnd (sum_u64 0 (map in_amount (take (as_usize (cc_max_inputs config)) (bt_input tx)))) (\<lambda>total_in.
     bnd (sum_u64 0 (map txo_value (take (as_usize (cc_max_outputs config)) (bt_output tx)))) (\<lambda>out_amount.
     Ok (total_in, out_amount)))))"

subsection \<open>From building to signing\<close>

text \<open>The loop that pops elements from the end of a vector until at most \<open>max_len\<close> are left.\<close>

function pop_excess :: "u64 \<Rightarrow> 'a list \<Rightarrow> 'a list \<Rightarrow> 'a list \<times> 'a list" where
  "pop_excess max_len xs excess =
     (if length xs > max_len then pop_excess max_len (butlast xs) (excess @ [last xs])
      else (xs, excess))"
  by pat_completeness auto
termination
  by (relation "measure (\<lambda>(m, xs, ys). length xs)") auto

declare pop_excess.simps [simp del]

text \<open>The loop that gives every input of a final transaction its sighash.\<close>

fun populate_sighashes :: "'x ext_scheme \<Rightarrow> transaction \<Rightarrow> nat \<Rightarrow> input list \<Rightarrow> input list result" where
  "populate_sighashes E tx i [] = Ok []"
| "populate_sighashes E tx i (input # rest) =
     bnd (segwit_signature_hash E tx i (in_redeem_script input) (in_amount input)) (\<lambda>sighash.
     bnd (populate_sighashes E tx (i + 1) rest) (\<lambda>rest'.
     Ok (input\<lparr>in_signatures := ThresholdSig_set_message (in_signatures input) sighash\<rparr> # rest')))"

text \<open>
  \<^verbatim>\<open>BuildingCheckpoint::advance\<close>: the frozen checkpoint, and the tuple it returns (the
  reserve outpoint, its value, the fees, the excess inputs and the excess outputs).
\<close>

definition BuildingCheckpoint_advance ::
  "'x ext_scheme \<Rightarrow> checkpoint \<Rightarrow> bytes \<Rightarrow> u64 \<Rightarrow> checkpoint_config \<Rightarrow>
   (checkpoint \<times> outpoint \<times> u64 \<times> u64 \<times> input list \<times> txout list) result"
where
  "BuildingCheckpoint_advance E self timestamping_commitment cp_fees config =
     (let self = self\<lparr>cp_status := Signing\<rparr>
      in bnd (Checkpoint_additional_outputs E self config timestamping_commitment) (\<lambda>outs.
         bnd (first_tx self) (\<lambda>tx.
         let (ins, excess_inputs) = pop_excess (cc_max_inputs config) (bt_input tx) [];
             (outputs, excess_outputs) = pop_excess (cc_max_outputs config) (outs @ bt_output tx) []
         in bnd (sum_u64 0 (map in_amount ins)) (\<lambda>total_in.
            bnd (sum_u64 0 (map txo_value outputs)) (\<lambda>out_amount.
            bnd (add_u64 out_amount cp_fees) (\<lambda>spent.
            bnd (ok_or (Prelude.Checkpoint ''Insufficient reserve value to cover miner fees'')
                   (checked_sub total_in spent)) (\<lambda>reserve_value.
            bnd (index_r outputs 0) (\<lambda>reserve_out.
            let tx = tx\<lparr>bt_input := ins, bt_output := outputs[0 := reserve_out\<lparr>txo_value := reserve_value\<rparr>]\<rparr>
            in bnd (BitcoinTx_to_bitcoin_tx E tx) (\<lambda>bitcoin_tx.
               bnd (populate_sighashes E bitcoin_tx 0 ins) (\<lambda>ins.
               let tx = tx\<lparr>bt_input := ins\<rparr>
               in bnd (BitcoinTx_txid E tx) (\<lambda>txid.
                  Ok (set_first_tx self tx, \<lparr>op_txid = txid, op_vout = 0\<rparr>, reserve_value, cp_fees,
                      excess_inputs, excess_outputs))))))))))))"

definition SigningCheckpoint_sign ::
  "'x ext_scheme \<Rightarrow> checkpoint \<Rightarrow> xpub \<Rightarrow> signature list \<Rightarrow> u32 \<Rightarrow> checkpoint result"
where
  "SigningCheckpoint_sign E self xpub sigs btc_height = Checkpoint_sign E self xpub sigs btc_height"

definition BuildingCheckpoint_insert_pending :: "checkpoint \<Rightarrow> dest \<Rightarrow> coin \<Rightarrow> checkpoint" where
  "BuildingCheckpoint_insert_pending self d coin = self\<lparr>cp_pending := cp_pending self @ [(d, coin)]\<rparr>"

subsection \<open>The fee rate\<close>

definition adjust_fee_rate :: "u64 \<Rightarrow> bool \<Rightarrow> checkpoint_config \<Rightarrow> u64 result" where
  "adjust_fee_rate prev_fee_rate up config =
     bnd (if up
          then bnd (mul_u64 prev_fee_rate 5) (\<lambda>a. bnd (add_u64 prev_fee_rate 1) (\<lambda>b. Ok (max (a div 4) b)))
          else bnd (mul_u64 prev_fee_rate 3) (\<lambda>a. bnd (sub_w prev_fee_rate 1) (\<lambda>b. Ok (min (a div 4) b)))) (\<lambda>rate.
     clamp_r rate (cc_min_fee_rate config) (cc_max_fee_rate config))"

section \<open>Deducting a fee\<close>

text \<open>If the loop breaks after a pass, that pass kept exactly the outputs above the new threshold.\<close>

lemma deduct_fee_last_pass:
  assumes "kept = filter (\<lambda>out. as_u64 fee div length outs < adjusted_output E out) outs"
    and "t = as_u64 fee div length kept" and "as_u64 fee div length outs \<le> t" and "min_adjusted E m outs \<ge> t"
  shows "kept = filter (\<lambda>out. t < adjusted_output E out) outs"
proof (cases "as_u64 fee div length outs = t")
  case False
  then have "\<forall>out\<in>set outs. as_u64 fee div length outs < adjusted_output E out"
    using assms(3,4) by (auto simp: min_adjusted_ge)
  then have "kept = outs" by (simp add: assms(1))
  then show ?thesis using False by (simp add: assms(2))
qed (simp add: assms(1))

lemma deduct_fee_loop_spec:
  assumes "outs \<noteq> []"
  shows "\<exists>kept t. deduct_fee_loop E fee outs = Ok (kept, t) \<and>
    kept = filter (\<lambda>out. t < adjusted_output E out) outs \<and>
    as_u64 fee div length outs \<le> t \<and> t \<le> as_u64 fee \<and>
    (kept \<noteq> [] \<longrightarrow> t = as_u64 fee div length kept)"
  using assms
proof (induction E fee outs rule: deduct_fee_loop.induct)
  case (1 E fee outs)
  define t0 where "t0 = as_u64 fee div length outs"
  define kept where "kept = filter (\<lambda>out. t0 < adjusted_output E out) outs"
  define t1 where "t1 = as_u64 fee div length kept"
  let ?m = "min_adjusted E (2 ^ 64 - 1) outs"
  have d0: "div_r (as_u64 fee) (length outs) = Ok t0"
    using "1.prems" by (simp add: div_r_def t0_def)
  have step0: "deduct_fee_loop E fee outs = (if kept = [] then Ok (kept, t0)
      else bnd (div_r (as_u64 fee) (length kept)) (\<lambda>t. if ?m \<ge> t then Ok (kept, t) else deduct_fee_loop E fee kept))"
    unfolding deduct_fee_loop.simps [of E fee outs] d0 bnd_simps Let_def kept_def [symmetric] by simp
  show ?case
  proof (cases "kept = []")
    case True
    then show ?thesis
      by (intro exI [of _ kept] exI [of _ t0]) (simp add: step0, simp add: kept_def t0_def)
  next
    case False
    have d1: "div_r (as_u64 fee) (length kept) = Ok t1" using False by (simp add: div_r_def t1_def)
    have "0 < length kept" "length kept \<le> length outs" using False by (simp_all add: kept_def)
    then have le: "t0 \<le> t1" unfolding t0_def t1_def by (intro div_le_mono2) simp_all
    have step: "deduct_fee_loop E fee outs =
        (if ?m \<ge> t1 then Ok (kept, t1) else deduct_fee_loop E fee kept)"
      using False by (simp add: step0 d1)
    show ?thesis
    proof (cases "?m \<ge> t1")
      case True
      have "kept = filter (\<lambda>out. t1 < adjusted_output E out) outs"
        using le True by (intro deduct_fee_last_pass [OF kept_def [unfolded t0_def] t1_def]) (simp_all add: t0_def)
      moreover have "deduct_fee_loop E fee outs = Ok (kept, t1)" using True by (simp add: step)
      moreover have "t1 \<le> as_u64 fee" by (simp add: t1_def)
      ultimately show ?thesis using le unfolding t0_def t1_def by blast
    next
      case rec: False
      have "length kept \<noteq> 0" using False by simp
      from "1.IH" [OF d0 refl kept_def this d1 rec False]
      obtain kept' t where IH: "deduct_fee_loop E fee kept = Ok (kept', t)"
          "kept' = filter (\<lambda>out. t < adjusted_output E out) kept" "t1 \<le> t" "t \<le> as_u64 fee"
          "kept' \<noteq> [] \<longrightarrow> t = as_u64 fee div length kept'"
        unfolding t1_def by blast
      have "kept' = filter (\<lambda>out. t < adjusted_output E out) outs"
        unfolding IH(2) kept_def filter_filter
        by (rule filter_cong [OF refl]) (use IH(3) le in linarith)
      moreover have "deduct_fee_loop E fee outs = Ok (kept', t)" using rec IH(1) by (simp add: step)
      moreover have "t0 \<le> t" using le IH(3) by (rule le_trans)
      ultimately show ?thesis using IH(4,5) unfolding t0_def by blast
    qed
  qed
qed

lemma deduct_fee_Ok:
  assumes "0 < fee" and "fee < 2 ^ 64" and "bt_output tx \<noteq> []"
  shows "\<exists>kept t. BitcoinTx_deduct_fee E tx fee =
      Ok (tx\<lparr>bt_output := map (\<lambda>out. out\<lparr>txo_value := txo_value out - t\<rparr>) kept\<rparr>) \<and>
    kept = filter (\<lambda>out. t < adjusted_output E out) (bt_output tx) \<and>
    fee div length (bt_output tx) \<le> t \<and> t \<le> fee \<and> (kept \<noteq> [] \<longrightarrow> t = fee div length kept)"
proof -
  have fee: "as_u64 fee = fee" using assms(2) by (simp add: as_u64_def)
  obtain kept t where loop: "deduct_fee_loop E fee (bt_output tx) = Ok (kept, t)"
      and kept: "kept = filter (\<lambda>out. t < adjusted_output E out) (bt_output tx)"
      and t: "fee div length (bt_output tx) \<le> t" "t \<le> fee" "kept \<noteq> [] \<longrightarrow> t = fee div length kept"
    using deduct_fee_loop_spec [OF assms(3), of E fee] unfolding fee by blast
  have "map_r (\<lambda>out. bnd (sub_w (txo_value out) t) (\<lambda>v. Ok (out\<lparr>txo_value := v\<rparr>))) kept =
      (Ok (map (\<lambda>out. out\<lparr>txo_value := txo_value out - t\<rparr>) kept) :: txout list result)"
    by (rule map_r_Ok) (auto simp: kept adjusted_output_def sub_w_def)
  then have "BitcoinTx_deduct_fee E tx fee =
      Ok (tx\<lparr>bt_output := map (\<lambda>out. out\<lparr>txo_value := txo_value out - t\<rparr>) kept\<rparr>)"
    using assms(1,3) loop by (simp add: BitcoinTx_deduct_fee_def)
  then show ?thesis using kept t by blast
qed

text \<open>
  C19: Deducting a fee shares it among the outputs that can pay it. A call with a fee above zero on
  a transaction with outputs returns \<^verbatim>\<open>Ok\<close>, whatever the fee, with the inputs unchanged, and there
  is a share \<open>t\<close> such that the outputs left are those whose value exceeds their dust limit plus
  \<open>t\<close>, in their order and each \<open>t\<close> lower, so that every one is still above its dust limit. If any
  output is left, together they pay the fee up to less than one unit per output. If the fee is at
  least the value of all outputs, none is left and the call still returns \<^verbatim>\<open>Ok\<close>: the comment on
  \<^verbatim>\<open>deduct_fee\<close> says that it fails there, the code fails only on a transaction without outputs.
\<close>

theorem deduct_fee_spec:
  assumes "0 < fee" and "fee < 2 ^ 64" and "bt_output tx \<noteq> []"
  shows "\<exists>tx' t. BitcoinTx_deduct_fee E tx fee = Ok tx' \<and>
    bt_input tx' = bt_input tx \<and>
    bt_output tx' = map (\<lambda>out. out\<lparr>txo_value := txo_value out - t\<rparr>)
      (filter (\<lambda>out. dust_value E (txo_script_pubkey out) + t < txo_value out) (bt_output tx)) \<and>
    (bt_output tx' \<noteq> [] \<longrightarrow> t * length (bt_output tx') \<le> fee \<and> fee < (t + 1) * length (bt_output tx')) \<and>
    (\<forall>out\<in>set (bt_output tx'). dust_value E (txo_script_pubkey out) < txo_value out) \<and>
    (sum_list (map txo_value (bt_output tx)) \<le> fee \<longrightarrow> bt_output tx' = [])"
proof -
  obtain kept t where ok: "BitcoinTx_deduct_fee E tx fee =
        Ok (tx\<lparr>bt_output := map (\<lambda>out. out\<lparr>txo_value := txo_value out - t\<rparr>) kept\<rparr>)"
      and kept: "kept = filter (\<lambda>out. t < adjusted_output E out) (bt_output tx)"
      and t: "kept \<noteq> [] \<longrightarrow> t = fee div length kept"
    using deduct_fee_Ok [OF assms, of E] by blast
  have kept': "kept = filter (\<lambda>out. dust_value E (txo_script_pubkey out) + t < txo_value out) (bt_output tx)"
    unfolding kept by (rule filter_cong) (auto simp: adjusted_output_def)
  have share: "t * length kept \<le> fee \<and> fee < (t + 1) * length kept" if "kept \<noteq> []"
  proof -
    have "fee = t * length kept + fee mod length kept" using that t by simp
    moreover have "fee mod length kept < length kept" using that by simp
    ultimately show ?thesis by (simp add: algebra_simps)
  qed
  have "(t + 1) * length (filter (\<lambda>out. dust_value E (txo_script_pubkey out) + t < txo_value out) outs) \<le>
      sum_list (map txo_value outs)" for outs
    by (induction outs) auto
  then have "(t + 1) * length kept \<le> sum_list (map txo_value (bt_output tx))" unfolding kept' .
  then have none: "sum_list (map txo_value (bt_output tx)) \<le> fee \<Longrightarrow> kept = []"
    using share by (cases "kept = []") auto
  show ?thesis
    using ok share none by (intro exI [of _ "tx\<lparr>bt_output := map (\<lambda>out. out\<lparr>txo_value := txo_value out - t\<rparr>) kept\<rparr>"]
        exI [of _ t]) (auto simp: kept')
qed

section \<open>Signing\<close>

definition num_signed :: "input list \<Rightarrow> nat" where
  "num_signed ins = length (filter (\<lambda>i. ThresholdSig_signed (in_signatures i)) ins)"

lemma num_signed_simps [simp]:
  "num_signed [] = 0"
  "num_signed (i # ins) = (if ThresholdSig_signed (in_signatures i) then Suc (num_signed ins) else num_signed ins)"
  by (simp_all add: num_signed_def)

lemma num_signed_le: "num_signed ins \<le> length ins"
  by (simp add: num_signed_def)

lemma all_signed_nth: "num_signed ins = length ins \<Longrightarrow> k < length ins \<Longrightarrow> ThresholdSig_signed (in_signatures (ins ! k))"
  by (metis (mono_tags, lifting) length_filter_less less_irrefl num_signed_def nth_mem)

text \<open>One input of the loop: it is left as it was, or one signature is added.\<close>

lemma sign_inputs_Cons_Inr:
  assumes "sign_inputs E ne xpub sigs (i # ins) si n = Inr (ins', si', n')"
  obtains (skip) k rest' where "Xpub_derive_pubkey E xpub (in_sigset_index i) = Inr k"
      "\<not> ThresholdSig_needs_sig (in_signatures i) k"
      "sign_inputs E ne xpub sigs ins si n = Inr (rest', si', n')" "ins' = i # rest'"
  | (sign) k ts m rest' where "Xpub_derive_pubkey E xpub (in_sigset_index i) = Inr k"
      "si < length sigs" "ThresholdSig_sign E (in_signatures i) k (sigs ! si) = Inr ts"
      "m = (if \<not> ThresholdSig_signed (in_signatures i) \<and> ThresholdSig_signed ts then n + 1 else n)"
      "sign_inputs E ne xpub sigs ins (Suc si) m = Inr (rest', si', n')"
      "ins' = i\<lparr>in_signatures := ts\<rparr> # rest'" "m = n \<or> m < 2 ^ 16"
proof -
  obtain k where k: "Xpub_derive_pubkey E xpub (in_sigset_index i) = Inr k"
    using assms by (auto simp: bnd_Inr_iff)
  show thesis
  proof (cases "ThresholdSig_needs_sig (in_signatures i) k")
    case False
    then show thesis using assms k skip by (auto simp: bnd_Inr_iff)
  next
    case True
    define n1 where "n1 ts = (if \<not> ThresholdSig_signed (in_signatures i) \<and> ThresholdSig_signed ts
      then n + 1 else n)" for ts
    have n1: "(if \<not> ThresholdSig_signed (in_signatures i) \<and> ThresholdSig_signed ts
        then add_u16 n 1 else Ok n) = Inr m \<Longrightarrow> m = n1 ts \<and> (m = n \<or> m < 2 ^ 16)" for ts m
      by (auto simp: n1_def add_w_Inr_iff split: if_splits)
    show thesis
      using assms k True sign unfolding n1_def [symmetric]
      by (fastforce simp: bnd_Inr_iff throw_if_Inr_iff dest!: n1)
  qed
qed

lemma sign_inputs_inv:
  assumes "sign_inputs E ne xpub sigs ins si n = Inr (ins', si', n')"
    and "list_all (ts_inv E \<circ> in_signatures) ins"
  shows "list_all (ts_inv E \<circ> in_signatures) ins' \<and> length ins' = length ins \<and>
    n' + num_signed ins = n + num_signed ins'"
  using assms
proof (induction ins arbitrary: si n ins')
  case (Cons i ins)
  from Cons.prems(1) show ?case
  proof (cases rule: sign_inputs_Cons_Inr)
    case (skip k rest')
    then show ?thesis using Cons.IH [OF skip(3)] Cons.prems(2) by auto
  next
    case (sign k ts m rest')
    then show ?thesis
      using Cons.IH [OF sign(5)] Cons.prems(2) ts_inv_sign [OF _ sign(3)] sign_signed_mono [OF sign(3)]
      by (auto split: if_splits)
  qed
qed simp

lemma sign_inputs_counter:
  "sign_inputs E ne xpub sigs ins si n = Inr (ins', si', n') \<Longrightarrow> n \<le> n'"
proof (induction ins arbitrary: si n ins')
  case (Cons i ins)
  from Cons.prems show ?case
    by (cases rule: sign_inputs_Cons_Inr) (auto dest!: Cons.IH split: if_splits)
qed simp

text \<open>The invariant of the counters of a transaction, a batch and a checkpoint.\<close>

definition tx_inv :: "'x ext_scheme \<Rightarrow> bitcoin_tx \<Rightarrow> bool" where
  "tx_inv E tx \<longleftrightarrow> list_all (ts_inv E \<circ> in_signatures) (bt_input tx) \<and>
     bt_signed_inputs tx = num_signed (bt_input tx)"

definition batch_inv :: "'x ext_scheme \<Rightarrow> batch \<Rightarrow> bool" where
  "batch_inv E b \<longleftrightarrow> list_all (tx_inv E) (ba_batch b) \<and>
     ba_signed_txs b = length (filter BitcoinTx_signed (ba_batch b))"

definition cp_inv :: "'x ext_scheme \<Rightarrow> checkpoint \<Rightarrow> bool" where
  "cp_inv E cp \<longleftrightarrow> list_all (batch_inv E) (cp_batches cp)"

lemma sign_txs_Cons_Inr:
  assumes "sign_txs E ne xpub sigs (tx # txs) si n = Inr (txs', si', n')"
  obtains ins s k m rest' where "sign_inputs E ne xpub sigs (bt_input tx) si (bt_signed_inputs tx) = Inr (ins, s, k)"
    "m = (if \<not> BitcoinTx_signed tx \<and> BitcoinTx_signed (tx\<lparr>bt_input := ins, bt_signed_inputs := k\<rparr>) then n + 1 else n)"
    "sign_txs E ne xpub sigs txs s m = Inr (rest', si', n')"
    "txs' = tx\<lparr>bt_input := ins, bt_signed_inputs := k\<rparr> # rest'" "m = n \<or> m < 2 ^ 16"
proof -
  obtain ins s k where 1: "sign_inputs E ne xpub sigs (bt_input tx) si (bt_signed_inputs tx) = Inr (ins, s, k)"
    using assms by (auto simp: bnd_Inr_iff)
  obtain m where 2: "(if \<not> BitcoinTx_signed tx \<and> BitcoinTx_signed (tx\<lparr>bt_input := ins, bt_signed_inputs := k\<rparr>)
      then add_u16 n 1 else Ok n) = (Inr m :: u16 result)"
    using assms 1 by (auto simp: bnd_Inr_iff Let_def)
  then have m: "m = (if \<not> BitcoinTx_signed tx \<and> BitcoinTx_signed (tx\<lparr>bt_input := ins, bt_signed_inputs := k\<rparr>)
      then n + 1 else n)" "m = n \<or> m < 2 ^ 16"
    by (auto simp: add_w_Inr_iff split: if_splits)
  show thesis
    using that [OF 1 m(1)] m(2) assms 1 2 by (auto simp: bnd_Inr_iff Let_def)
qed

lemma tx_inv_sign:
  assumes "sign_inputs E ne xpub sigs (bt_input tx) si (bt_signed_inputs tx) = Inr (ins, s, k)" and "tx_inv E tx"
  defines "tx' \<equiv> tx\<lparr>bt_input := ins, bt_signed_inputs := k\<rparr>"
  shows "tx_inv E tx'" and "BitcoinTx_signed tx \<Longrightarrow> BitcoinTx_signed tx'"
  using sign_inputs_inv [OF assms(1)] sign_inputs_counter [OF assms(1)] assms(2) num_signed_le [of ins]
  by (auto simp: tx_inv_def BitcoinTx_signed_def tx'_def)

lemma sign_txs_inv:
  assumes "sign_txs E ne xpub sigs txs si n = Inr (txs', si', n')" and "list_all (tx_inv E) txs"
  shows "list_all (tx_inv E) txs' \<and> length txs' = length txs \<and>
    n' + length (filter BitcoinTx_signed txs) = n + length (filter BitcoinTx_signed txs')"
  using assms
proof (induction txs arbitrary: si n txs')
  case (Cons tx txs)
  from Cons.prems(1) show ?case
  proof (cases rule: sign_txs_Cons_Inr)
    case (1 ins s k m rest')
    then show ?thesis
      using Cons.IH [OF 1(3)] Cons.prems(2) tx_inv_sign [OF 1(1)] by (auto split: if_splits)
  qed
qed simp

definition sigs_match :: "'x ext_scheme \<Rightarrow> xpub \<Rightarrow> signature list \<Rightarrow> (message \<times> u32) list \<Rightarrow> bool" where
  "sigs_match E xpub sigs msgs \<longleftrightarrow>
     list_all2 (\<lambda>sig (m, index). \<exists>k. Xpub_derive_pubkey E xpub index = Inr k \<and>
       secp256k1_verify E m sig k = Ok True) sigs msgs"

definition slice :: "'a list \<Rightarrow> nat \<Rightarrow> nat \<Rightarrow> 'a list" where
  "slice xs i j = take (j - i) (drop i xs)"

lemma slice_simps [simp]:
  "slice xs i i = []"
  "i < length xs \<Longrightarrow> Suc i \<le> j \<Longrightarrow> slice xs i j = xs ! i # slice xs (Suc i) j"
  "slice xs 0 (length xs) = xs"
  by (auto simp: slice_def Cons_nth_drop_Suc [symmetric] take_Suc Suc_diff_Suc [symmetric] split: nat_diff_split)

lemma slice_append: "i \<le> j \<Longrightarrow> j \<le> k \<Longrightarrow> slice xs i j @ slice xs j k = slice xs i k"
proof -
  assume "i \<le> j" "j \<le> k"
  then obtain a b where "j = i + a" "k = i + a + b" using le_Suc_ex by blast
  then show ?thesis by (simp add: slice_def take_add add.commute)
qed

lemma sigs_match_simps [simp]:
  "sigs_match E xpub [] []"
  "sigs_match E xpub (s # ss) ((m, index) # ms) \<longleftrightarrow>
     (\<exists>k. Xpub_derive_pubkey E xpub index = Inr k \<and> secp256k1_verify E m s k = Ok True) \<and> sigs_match E xpub ss ms"
  by (simp_all add: sigs_match_def)

lemma sigs_match_append:
  "sigs_match E xpub a m \<Longrightarrow> sigs_match E xpub b n \<Longrightarrow> sigs_match E xpub (a @ b) (m @ n)"
  by (simp add: sigs_match_def list_all2_appendI)

lemma sign_inputs_to_sign:
  assumes "sign_inputs E ne xpub sigs ins si n = Inr (ins', si', n')" and "si \<le> length sigs"
  shows "\<exists>msgs. to_sign_inputs E xpub ins = Inr msgs \<and> si \<le> si' \<and> si' \<le> length sigs \<and>
    to_sign_inputs E xpub ins' = Inr [] \<and> sigs_match E xpub (slice sigs si si') msgs"
  using assms
proof (induction ins arbitrary: si n ins')
  case (Cons i ins)
  from Cons.prems(1) show ?case
  proof (cases rule: sign_inputs_Cons_Inr)
    case (skip k rest')
    then show ?thesis using Cons.IH [OF skip(3) Cons.prems(2)] by auto
  next
    case (sign k ts m rest')
    from Cons.IH [OF sign(5)] sign(2) obtain msgs where msgs:
        "to_sign_inputs E xpub ins = Inr msgs" "Suc si \<le> si'" "si' \<le> length sigs"
        "to_sign_inputs E xpub rest' = Inr []" "sigs_match E xpub (slice sigs (Suc si) si') msgs"
      by auto
    let ?m = "(ts_message (in_signatures i), in_sigset_index i) # msgs"
    have "to_sign_inputs E xpub (i # ins) = Inr ?m"
      using msgs(1) sign(1) sign_needs [OF sign(3)] by simp
    moreover have "to_sign_inputs E xpub ins' = Inr []"
      using msgs(4) sign(1,6) sign_state(6) [OF sign(3)] by simp
    moreover have "sigs_match E xpub (slice sigs si si') ?m"
      using msgs(2,5) sign(1,2) sign_state(7) [OF sign(3)] by simp
    ultimately show ?thesis using msgs(2,3) by (intro exI [of _ ?m]) simp
  qed
qed simp

lemma sign_txs_to_sign:
  assumes "sign_txs E ne xpub sigs txs si n = Inr (txs', si', n')" and "si \<le> length sigs"
  shows "\<exists>msgs. to_sign_txs E xpub txs = Inr msgs \<and> si \<le> si' \<and> si' \<le> length sigs \<and>
    to_sign_txs E xpub txs' = Inr [] \<and> sigs_match E xpub (slice sigs si si') msgs"
  using assms
proof (induction txs arbitrary: si n txs')
  case (Cons tx txs)
  from Cons.prems(1) show ?case
  proof (cases rule: sign_txs_Cons_Inr)
    case (1 ins s k m rest')
    from sign_inputs_to_sign [OF 1(1) Cons.prems(2)] obtain ms where ms:
      "to_sign_inputs E xpub (bt_input tx) = Inr ms" "si \<le> s" "s \<le> length sigs"
      "to_sign_inputs E xpub ins = Inr []" "sigs_match E xpub (slice sigs si s) ms" by blast
    from Cons.IH [OF 1(3) ms(3)] obtain ms' where ms':
      "to_sign_txs E xpub txs = Inr ms'" "s \<le> si'" "si' \<le> length sigs"
      "to_sign_txs E xpub rest' = Inr []" "sigs_match E xpub (slice sigs s si') ms'" by blast
    show ?thesis
      using ms ms' 1(4) sigs_match_append [OF ms(5) ms'(5)] slice_append [OF ms(2) ms'(2), of sigs] by simp
  qed
qed simp

text \<open>
  What is left to sign in the batches a call of \<^verbatim>\<open>sign\<close> looks at: up to and with the first
  one that was not signed before.
\<close>

definition open_batches :: "batch list \<Rightarrow> nat" where
  "open_batches bs = min (length bs) (Suc (length (takeWhile Batch_signed bs)))"

lemma sign_batches_to_sign:
  assumes "sign_batches E ne xpub sigs bs si = Inr (bs', si')" and "si \<le> length sigs"
  shows "\<exists>msgs. to_sign_batches E xpub bs = Inr msgs \<and> si \<le> si' \<and> si' \<le> length sigs \<and>
    sigs_match E xpub (slice sigs si si') msgs \<and>
    list_all (\<lambda>b. to_sign_txs E xpub (ba_batch b) = Inr []) (take (open_batches bs) bs') \<and>
    drop (open_batches bs) bs' = drop (open_batches bs) bs"
  using assms
proof (induction bs arbitrary: si bs')
  case (Cons b bs)
  from Cons.prems(1) obtain txs s n where 1: "sign_txs E ne xpub sigs (ba_batch b) si (ba_signed_txs b) = Inr (txs, s, n)"
    by (auto simp: bnd_Inr_iff)
  from sign_txs_to_sign [OF 1 Cons.prems(2)] obtain ms where ms:
      "to_sign_txs E xpub (ba_batch b) = Inr ms" "si \<le> s" "s \<le> length sigs"
      "to_sign_txs E xpub txs = Inr []" "sigs_match E xpub (slice sigs si s) ms" by blast
  show ?case
  proof (cases "Batch_signed b")
    case False
    then show ?thesis using Cons.prems(1) 1 ms by (auto simp: Let_def open_batches_def)
  next
    case True
    then obtain rest' where 2: "sign_batches E ne xpub sigs bs s = Inr (rest', si')"
        and bs': "bs' = b\<lparr>ba_batch := txs, ba_signed_txs := n\<rparr> # rest'"
      using Cons.prems(1) 1 by (auto simp: Let_def bnd_Inr_iff)
    from Cons.IH [OF 2 ms(3)] obtain ms' where ms':
      "to_sign_batches E xpub bs = Inr ms'" "s \<le> si'" "si' \<le> length sigs"
      "sigs_match E xpub (slice sigs s si') ms'"
      "list_all (\<lambda>b. to_sign_txs E xpub (ba_batch b) = Inr []) (take (open_batches bs) rest')"
      "drop (open_batches bs) rest' = drop (open_batches bs) bs" by blast
    have "open_batches (b # bs) = Suc (open_batches bs)" using True by (simp add: open_batches_def)
    then show ?thesis
      using ms ms' True bs' sigs_match_append [OF ms(5) ms'(4)] slice_append [OF ms(2) ms'(2), of sigs] by simp
  qed
qed (simp add: open_batches_def)

lemma sign_txs_counter:
  "sign_txs E ne xpub sigs txs si n = Inr (txs', si', n') \<Longrightarrow> n \<le> n' \<and> length txs' = length txs"
proof (induction txs arbitrary: si n txs')
  case (Cons tx txs)
  from Cons.prems show ?case
    by (cases rule: sign_txs_Cons_Inr) (auto dest!: Cons.IH split: if_splits)
qed simp

lemma Batch_signed_sign:
  assumes "sign_txs E ne xpub sigs (ba_batch b) si (ba_signed_txs b) = Inr (txs, s, n)" and "batch_inv E b"
  defines "b' \<equiv> b\<lparr>ba_batch := txs, ba_signed_txs := n\<rparr>"
  shows "batch_inv E b'" and "Batch_signed b \<Longrightarrow> Batch_signed b'"
proof -
  show b': "batch_inv E b'"
    using sign_txs_inv [OF assms(1)] assms(2) by (auto simp: batch_inv_def b'_def)
  have "n \<le> length txs" using b' by (simp add: batch_inv_def b'_def)
  then show "Batch_signed b \<Longrightarrow> Batch_signed b'"
    using sign_txs_counter [OF assms(1)] by (simp add: Batch_signed_def b'_def)
qed

lemma sign_batches_inv:
  assumes "sign_batches E ne xpub sigs bs si = Inr (bs', si')" and "list_all (batch_inv E) bs"
  shows "list_all (batch_inv E) bs' \<and> length bs' = length bs \<and> (list_all Batch_signed bs \<longrightarrow> list_all Batch_signed bs')"
  using assms
proof (induction bs arbitrary: si bs')
  case (Cons b bs)
  from Cons.prems(1) obtain txs s n where 1: "sign_txs E ne xpub sigs (ba_batch b) si (ba_signed_txs b) = Inr (txs, s, n)"
    by (auto simp: bnd_Inr_iff)
  have "batch_inv E b" using Cons.prems(2) by simp
  from Batch_signed_sign [OF 1 this] show ?case
    using Cons.prems 1 Cons.IH by (cases "Batch_signed b") (auto simp: Let_def bnd_Inr_iff)
qed simp

lemma Checkpoint_sign_Inr:
  assumes "Checkpoint_sign E cp xpub sigs h = Inr cp'"
  obtains ne bs' where "sign_batches E ne xpub sigs (cp_batches cp) 0 = Inr (bs', length sigs)"
    "cp_batches cp' = bs'" "cp_status cp' = cp_status cp" "cp_pending cp' = cp_pending cp"
    "cp_sigset cp' = cp_sigset cp" "cp_fee_rate cp' = cp_fee_rate cp"
    "cp_signed_at_btc_height cp' = (if Checkpoint_signed cp' \<and> \<not> Checkpoint_signed cp then Some h
       else cp_signed_at_btc_height cp)"
proof -
  from assms obtain bs' si where 1: "sign_batches E (Prelude.Checkpoint ''Not enough signatures supplied'') xpub sigs
            (cp_batches cp) 0 = Inr (bs', si)" and "si = length sigs"
      and cp': "cp' = (if Checkpoint_signed (cp\<lparr>cp_batches := bs'\<rparr>) \<and> \<not> Checkpoint_signed cp
            then cp\<lparr>cp_batches := bs', cp_signed_at_btc_height := Some h\<rparr> else cp\<lparr>cp_batches := bs'\<rparr>)"
    by (auto simp: Checkpoint_sign_def ok_simps Let_def)
  then show thesis
    using that [OF 1 [unfolded \<open>si = length sigs\<close>]]
    by (auto simp: Checkpoint_signed_def Checkpoint_signed_batches_def split: if_splits)
qed

text \<open>
  C10: A signing call takes exactly the signatures the key owes. If \<^verbatim>\<open>sign\<close> accepts a list of
  signatures for an extended key, the list matches the messages of \<^verbatim>\<open>to_sign\<close> one by one, each
  signature verified for its message with the key derived for the index of its signatory set;
  afterwards the key owes nothing in the batches up to and including the first unsigned one, and
  the later batches are untouched.
\<close>

theorem Checkpoint_sign_exact:
  assumes "Checkpoint_sign E cp xpub sigs h = Ok cp'"
  shows "\<exists>msgs. Checkpoint_to_sign E cp xpub = Ok msgs \<and> sigs_match E xpub sigs msgs \<and>
    list_all (\<lambda>b. to_sign_txs E xpub (ba_batch b) = Ok []) (take (open_batches (cp_batches cp)) (cp_batches cp')) \<and>
    drop (open_batches (cp_batches cp)) (cp_batches cp') = drop (open_batches (cp_batches cp)) (cp_batches cp)"
proof -
  obtain ne bs' where 1: "sign_batches E ne xpub sigs (cp_batches cp) 0 = Inr (bs', length sigs)"
      and "cp_batches cp' = bs'"
    using assms by (rule Checkpoint_sign_Inr)
  then show ?thesis
    using sign_batches_to_sign [OF 1] by (auto simp: Checkpoint_to_sign_def)
qed

lemma length_takeWhile_eq: "length (takeWhile P xs) = length xs \<longleftrightarrow> list_all P xs"
  by (induction xs) auto

lemma all_batches_signed: "Checkpoint_signed cp \<longleftrightarrow> list_all Batch_signed (cp_batches cp)"
  by (simp add: Checkpoint_signed_def Checkpoint_signed_batches_def length_takeWhile_eq)

text \<open>
  In a well-formed checkpoint that counts as signed, every input of every transaction of every
  batch carries verified signatures of more than two thirds of its voting power.
\<close>

lemma signed_checkpoint_power:
  assumes "cp_inv E cp" and "Checkpoint_signed cp"
    and "b \<in> set (cp_batches cp)" and "tx \<in> set (ba_batch b)" and "i \<in> set (bt_input tx)"
  shows "3 * signed_power (ts_sigs (in_signatures i)) > 2 * total_power (ts_sigs (in_signatures i))"
proof -
  have "batch_inv E b" "Batch_signed b"
    using assms by (auto simp: cp_inv_def all_batches_signed list_all_iff)
  then have "BitcoinTx_signed tx" "tx_inv E tx"
    using assms(4) by (auto simp: batch_inv_def Batch_signed_def list_all_iff)
      (metis length_filter_less less_irrefl)
  then have "ThresholdSig_signed (in_signatures i)" "ts_inv E (in_signatures i)"
    using assms(5) by (auto simp: tx_inv_def BitcoinTx_signed_def num_signed_def list_all_iff)
      (metis (no_types, lifting) length_filter_less less_irrefl)
  then show ?thesis by (auto simp: ThresholdSig_signed_def ts_inv_def)
qed

text \<open>
  Signing keeps a checkpoint well-formed: the counters of signed inputs, transactions and
  batches still agree with the signing states they summarise, no batch is lost, and a signed
  checkpoint stays signed.
\<close>

lemma cp_inv_sign:
  assumes "cp_inv E cp" and "Checkpoint_sign E cp xpub sigs h = Ok cp'"
  shows "cp_inv E cp' \<and> length (cp_batches cp') = length (cp_batches cp) \<and>
    (Checkpoint_signed cp \<longrightarrow> Checkpoint_signed cp')"
proof -
  obtain ne bs' where 1: "sign_batches E ne xpub sigs (cp_batches cp) 0 = Inr (bs', length sigs)"
      and "cp_batches cp' = bs'"
    using assms(2) by (rule Checkpoint_sign_Inr)
  then show ?thesis
    using sign_batches_inv [OF 1] assms(1) by (simp add: cp_inv_def all_batches_signed)
qed

section \<open>Freezing a checkpoint\<close>

lemma pop_excess_eq: "pop_excess m xs ys = (take m xs, ys @ rev (drop m xs))"
proof (induction m xs ys rule: pop_excess.induct)
  case (1 m xs ys)
  show ?case
  proof (cases "length xs > m")
    case True
    then obtain zs z where xs: "xs = zs @ [z]" by (cases xs rule: rev_cases) auto
    then have "m \<le> length zs" using True by simp
    then show ?thesis
      using 1 [OF True] True by (subst pop_excess.simps) (simp add: xs)
  qed (simp add: pop_excess.simps)
qed

text \<open>Setting the message of an input changes nothing but the message.\<close>

definition same_input :: "input \<Rightarrow> input \<Rightarrow> bool" where
  "same_input i j \<longleftrightarrow> (\<exists>m. j = i\<lparr>in_signatures := ThresholdSig_set_message (in_signatures i) m\<rparr>)"

lemma same_input_to_txin: "same_input i j \<Longrightarrow> Input_to_txin E j = Input_to_txin E i"
  by (auto simp: same_input_def Input_to_txin_def ThresholdSig_to_witness_def ThresholdSig_signed_def
      ThresholdSig_set_message_def)

lemma same_inputs_to_txin:
  "list_all2 same_input xs ys \<Longrightarrow> map_r (Input_to_txin E) ys = map_r (Input_to_txin E) xs"
  by (induction xs ys rule: list_all2_induct) (auto simp: same_input_to_txin)

lemma populate_sighashes_Inr:
  assumes "populate_sighashes E tx k ins = Inr ins'"
  shows "list_all2 same_input ins ins' \<and> (\<forall>j < length ins'. segwit_signature_hash E tx (k + j)
     (in_redeem_script (ins' ! j)) (in_amount (ins' ! j)) = Inr (ts_message (in_signatures (ins' ! j))))"
  using assms
proof (induction ins arbitrary: k ins')
  case (Cons i ins)
  then obtain m rest' where m: "segwit_signature_hash E tx k (in_redeem_script i) (in_amount i) = Inr m"
      and rest: "populate_sighashes E tx (Suc k) ins = Inr rest'"
      and ins': "ins' = i\<lparr>in_signatures := ThresholdSig_set_message (in_signatures i) m\<rparr> # rest'"
    by (auto simp: bnd_Inr_iff)
  show ?case
    using Cons.IH [OF rest] m
    by (auto simp: ins' same_input_def nth_Cons ThresholdSig_set_message_def split: nat.splits)
qed simp

lemma same_inputs_amounts:
  "list_all2 same_input xs ys \<Longrightarrow> map in_amount ys = map in_amount xs \<and> map in_prevout ys = map in_prevout xs"
  by (induction xs ys rule: list_all2_induct) (auto simp: same_input_def)

lemma first_tx_set_first_tx:
  "first_tx cp = Inr tx \<Longrightarrow> first_tx (set_first_tx cp tx') = Inr tx'"
  by (auto simp: first_tx_def set_first_tx_def ok_simps Let_def BatchType_Checkpoint_def)

lemma sum_list_update_head:
  fixes f :: "'a \<Rightarrow> nat"
  shows "xs \<noteq> [] \<Longrightarrow> f (xs ! 0) = 0 \<Longrightarrow> sum_list (map f (xs[0 := y])) = f y + sum_list (map f xs)"
  by (cases xs) auto

text \<open>Everything a successful call of \<^verbatim>\<open>advance\<close> does.\<close>

lemma advance_Inr:
  assumes "BuildingCheckpoint_advance E cp tc fees config = Inr (cp', op, rv, paid, xi, xo)"
  obtains tx outs ins btx where
    "first_tx cp = Inr tx"
    "Checkpoint_additional_outputs E (cp\<lparr>cp_status := Signing\<rparr>) config tc = Inr outs"
    "xi = rev (drop (cc_max_inputs config) (bt_input tx))"
    "xo = rev (drop (cc_max_outputs config) (outs @ bt_output tx))"
    "take (cc_max_outputs config) (outs @ bt_output tx) \<noteq> []"
    "sum_list (map in_amount (take (cc_max_inputs config) (bt_input tx))) =
       rv + sum_list (map txo_value (take (cc_max_outputs config) (outs @ bt_output tx))) + fees"
    "list_all2 same_input (take (cc_max_inputs config) (bt_input tx)) ins"
    "\<forall>j < length ins. segwit_signature_hash E btx j (in_redeem_script (ins ! j)) (in_amount (ins ! j)) =
       Inr (ts_message (in_signatures (ins ! j)))"
    "paid = fees"
    "let os = take (cc_max_outputs config) (outs @ bt_output tx);
         tx' = tx\<lparr>bt_input := ins, bt_output := os[0 := (os ! 0)\<lparr>txo_value := rv\<rparr>]\<rparr>
     in cp' = set_first_tx (cp\<lparr>cp_status := Signing\<rparr>) tx' \<and> BitcoinTx_to_bitcoin_tx E tx' = Inr btx \<and>
        op = \<lparr>op_txid = tx_txid E btx, op_vout = 0\<rparr>"
proof -
  have ft: "first_tx (cp\<lparr>cp_status := Signing\<rparr>) = first_tx cp" by (simp add: first_tx_def)
  obtain outs tx where outs: "Checkpoint_additional_outputs E (cp\<lparr>cp_status := Signing\<rparr>) config tc = Inr outs"
      and tx: "first_tx cp = Inr tx"
    using assms by (auto simp: BuildingCheckpoint_advance_def Let_def bnd_Inr_iff ft)
  define ins0 os where "ins0 = take (cc_max_inputs config) (bt_input tx)"
    and "os = take (cc_max_outputs config) (outs @ bt_output tx)"
  define tx1 where "tx1 = tx\<lparr>bt_input := ins0, bt_output := os[0 := (os ! 0)\<lparr>txo_value := rv\<rparr>]\<rparr>"
  obtain btx ins txid where
      sums: "sum_list (map in_amount ins0) - (sum_list (map txo_value os) + fees) = rv"
        "sum_list (map txo_value os) + fees \<le> sum_list (map in_amount ins0)" "0 < length os"
      and btx: "BitcoinTx_to_bitcoin_tx E tx1 = Inr btx"
      and ins: "populate_sighashes E btx 0 ins0 = Inr ins"
      and txid: "BitcoinTx_txid E (tx1\<lparr>bt_input := ins\<rparr>) = Inr txid"
      and res: "cp' = set_first_tx (cp\<lparr>cp_status := Signing\<rparr>) (tx1\<lparr>bt_input := ins\<rparr>)"
        "op = \<lparr>op_txid = txid, op_vout = 0\<rparr>" "paid = fees"
        "xi = rev (drop (cc_max_inputs config) (bt_input tx))"
        "xo = rev (drop (cc_max_outputs config) (outs @ bt_output tx))"
    using assms unfolding BuildingCheckpoint_advance_def Let_def pop_excess_eq ft outs tx bnd_simps prod.case
      ins0_def [symmetric] os_def [symmetric]
    by (auto simp: ok_simps tx1_def)
  note P = populate_sighashes_Inr [OF ins]
  have "map_r (Input_to_txin E) ins = map_r (Input_to_txin E) ins0"
    using P same_inputs_to_txin by blast
  then have btx': "BitcoinTx_to_bitcoin_tx E (tx1\<lparr>bt_input := ins\<rparr>) = Inr btx"
    using btx by (simp add: BitcoinTx_to_bitcoin_tx_def tx1_def)
  then have op: "op = \<lparr>op_txid = tx_txid E btx, op_vout = 0\<rparr>" using txid res(2) by (simp add: BitcoinTx_txid_def)
  have eq: "tx1\<lparr>bt_input := ins\<rparr> = tx\<lparr>bt_input := ins, bt_output := os[0 := (os ! 0)\<lparr>txo_value := rv\<rparr>]\<rparr>"
    by (simp add: tx1_def)
  show thesis
    by (rule that [OF tx outs res(4,5), folded ins0_def os_def, of ins btx])
      (use sums P btx' res op in \<open>simp_all add: Let_def eq\<close>)
qed

text \<open>
  C8: Freezing a checkpoint conserves value and redirects nothing. After \<^verbatim>\<open>advance\<close> the first
  transaction spends exactly its outputs and the miner fee. Its inputs are, but for the message to
  sign, the first inputs before, and followed by the excess inputs, last one first, they are all of
  them. Its outputs followed by the excess outputs, last one first, are exactly the reserve output,
  which pays the returned value to the script of the checkpoint's signatory set, then the
  timestamping output of value zero, then the outputs before, scripts and values unchanged. The
  limits on inputs and outputs hold, the returned outpoint is the first output of the final
  transaction, and the message of every input is its sighash in that transaction.
\<close>

theorem advance_conserves_value:
  assumes "BuildingCheckpoint_advance E cp tc fees config = Ok (cp', op, rv, paid, xi, xo)"
  shows "\<exists>tx tx' btx kept script. first_tx cp = Ok tx \<and> first_tx cp' = Ok tx' \<and> cp_status cp' = Signing \<and>
    cp_pending cp' = cp_pending cp \<and> cp_sigset cp' = cp_sigset cp \<and> paid = fees \<and>
    kept @ rev xi = bt_input tx \<and> list_all2 same_input kept (bt_input tx') \<and>
    SignatorySet_output_script E (cp_sigset cp) [0] (cc_sigset_threshold config) = Ok script \<and>
    bt_output tx' @ rev xo = \<lparr>txo_value = rv, txo_script_pubkey = script\<rparr> #
      \<lparr>txo_value = 0, txo_script_pubkey = new_op_return E tc\<rparr> # bt_output tx \<and>
    length (bt_input tx') \<le> cc_max_inputs config \<and> length (bt_output tx') \<le> cc_max_outputs config \<and>
    sum_list (map in_amount (bt_input tx')) = sum_list (map txo_value (bt_output tx')) + fees \<and>
    sum_list (map txo_value (bt_output tx')) + sum_list (map txo_value xo) =
      rv + sum_list (map txo_value (bt_output tx)) \<and>
    vec_first (map txo_value (bt_output tx')) = Some rv \<and>
    BitcoinTx_to_bitcoin_tx E tx' = Ok btx \<and> op = \<lparr>op_txid = tx_txid E btx, op_vout = 0\<rparr> \<and>
    (\<forall>j < length (bt_input tx'). segwit_signature_hash E btx j (in_redeem_script (bt_input tx' ! j))
       (in_amount (bt_input tx' ! j)) = Ok (ts_message (in_signatures (bt_input tx' ! j))))"
  using assms
proof (rule advance_Inr, goal_cases)
  case (1 tx outs ins btx)
  define os where "os = take (cc_max_outputs config) (outs @ bt_output tx)"
  define tx' where "tx' = tx\<lparr>bt_input := ins, bt_output := os[0 := (os ! 0)\<lparr>txo_value := rv\<rparr>]\<rparr>"
  define kept where "kept = take (cc_max_inputs config) (bt_input tx)"
  note F = 1(10) [unfolded Let_def, folded os_def, folded tx'_def] and same = 1(7) [folded kept_def]
  obtain script where script: "SignatorySet_output_script E (cp_sigset cp) [0] (cc_sigset_threshold config) = Ok script"
      and outs: "outs = [\<lparr>txo_value = 0, txo_script_pubkey = script\<rparr>, \<lparr>txo_value = 0, txo_script_pubkey = new_op_return E tc\<rparr>]"
    using 1(2) by (auto simp: Checkpoint_additional_outputs_def ok_simps)
  have os: "os @ rev xo = outs @ bt_output tx" "os \<noteq> []"
    using 1(5) by (simp_all only: os_def 1(4) rev_rev_ident append_take_drop_id not_False_eq_True)
  then obtain os' where os': "os = \<lparr>txo_value = 0, txo_script_pubkey = script\<rparr> # os'"
    by (cases os) (simp_all add: outs)
  have outputs: "bt_output tx' = \<lparr>txo_value = rv, txo_script_pubkey = script\<rparr> # os'" by (simp add: tx'_def os')
  then have exact: "bt_output tx' @ rev xo = \<lparr>txo_value = rv, txo_script_pubkey = script\<rparr> #
      \<lparr>txo_value = 0, txo_script_pubkey = new_op_return E tc\<rparr> # bt_output tx"
    using os(1) by (simp add: os' outs)
  from arg_cong [OF this, of "\<lambda>xs. sum_list (map txo_value xs)"]
  have total: "sum_list (map txo_value (bt_output tx')) + sum_list (map txo_value xo) = rv + sum_list (map txo_value (bt_output tx))"
    by (simp add: rev_map [symmetric])
  have "map in_amount ins = map in_amount kept" using same_inputs_amounts [OF same] by simp
  then have paid: "sum_list (map in_amount (bt_input tx')) = sum_list (map txo_value (bt_output tx')) + fees"
    using 1(6) [folded kept_def os_def] outputs by (simp add: tx'_def os')
  have ft: "first_tx (cp\<lparr>cp_status := Signing\<rparr>) = Inr tx" using 1(1) by (simp add: first_tx_def)
  have "first_tx cp' = Inr tx'" using F first_tx_set_first_tx [OF ft, of tx'] by simp
  moreover have "length ins = length kept" using list_all2_lengthD [OF same] by simp
  moreover have "cp_status cp' = Signing" "cp_pending cp' = cp_pending cp" "cp_sigset cp' = cp_sigset cp"
    using F by (simp_all add: set_first_tx_def Let_def)
  moreover have "kept @ rev xi = bt_input tx" by (simp add: kept_def 1(3))
  moreover have "length (bt_output tx') \<le> cc_max_outputs config" "bt_input tx' = ins"
    by (simp_all add: tx'_def os_def)
  ultimately show ?thesis
    using 1(1,8,9) F script exact total paid same outputs
    by (intro exI [of _ tx] exI [of _ tx'] exI [of _ btx] exI [of _ kept] exI [of _ script])
      (simp add: kept_def)
qed

lemma adjust_fee_rate_Inr:
  "adjust_fee_rate r up c = Inr r' \<Longrightarrow> cc_min_fee_rate c \<le> r' \<and> r' \<le> cc_max_fee_rate c"
  by (auto simp: adjust_fee_rate_def ok_simps split: if_splits)

text \<open>
  Adjusting the fee rate never fails for a positive rate, stays between the configured
  bounds, moves in the direction asked for unless the bound is reached, and changes the rate by at
  most a quarter (or by one unit).
\<close>

lemma adjust_fee_rate_spec:
  assumes "1 \<le> r" and "r < 2 ^ 61" and "cc_min_fee_rate c \<le> cc_max_fee_rate c"
  shows "\<exists>u d. adjust_fee_rate r True c = Ok u \<and> adjust_fee_rate r False c = Ok d \<and>
    cc_min_fee_rate c \<le> u \<and> u \<le> cc_max_fee_rate c \<and> cc_min_fee_rate c \<le> d \<and> d \<le> cc_max_fee_rate c \<and>
    (r < cc_max_fee_rate c \<longrightarrow> r < u) \<and> (cc_min_fee_rate c < r \<longrightarrow> d < r) \<and>
    u \<le> max (cc_min_fee_rate c) (max (r * 5 div 4) (r + 1)) \<and> min (cc_max_fee_rate c) (min (r * 3 div 4) (r - 1)) \<le> d"
proof -
  have u: "adjust_fee_rate r True c = clamp_r (max (r * 5 div 4) (r + 1)) (cc_min_fee_rate c) (cc_max_fee_rate c)"
    using assms(2) by (simp add: adjust_fee_rate_def mul_w_def add_w_def)
  have d: "adjust_fee_rate r False c = clamp_r (min (r * 3 div 4) (r - 1)) (cc_min_fee_rate c) (cc_max_fee_rate c)"
    using assms(1,2) by (simp add: adjust_fee_rate_def mul_w_def sub_w_def)
  show ?thesis
    using assms(1,3) unfolding u d clamp_r_def by (auto simp: max_def min_def)
qed

end
