(* ===== verification/Header.thy ===== *)
theory Header
  imports Interface
begin

text \<open>
  The header types of \<^verbatim>\<open>header.rs\<close>: \<^verbatim>\<open>WrappedHeader\<close> and \<^verbatim>\<open>WorkHeader\<close>, with their
  accessors.
\<close>

record wrapped_header =
  wh_height :: u32
  wh_header :: block_header

definition WrappedHeader_new :: "block_header \<Rightarrow> u32 \<Rightarrow> wrapped_header" where
  "WrappedHeader_new header height = \<lparr>wh_height = height, wh_header = header\<rparr>"

definition WrappedHeader_from_header :: "block_header \<Rightarrow> u32 \<Rightarrow> wrapped_header" where
  "WrappedHeader_from_header header height = \<lparr>wh_height = height, wh_header = header\<rparr>"

definition WrappedHeader_height :: "wrapped_header \<Rightarrow> u32" where
  [simp]: "WrappedHeader_height self = wh_height self"

definition WrappedHeader_time :: "wrapped_header \<Rightarrow> u32" where
  "WrappedHeader_time self = bh_time (wh_header self)"

definition WrappedHeader_target :: "'x ext_scheme \<Rightarrow> wrapped_header \<Rightarrow> u256" where
  "WrappedHeader_target E self = u256_from_compact_target E (bh_bits (wh_header self))"

definition WrappedHeader_block_hash :: "'x ext_scheme \<Rightarrow> wrapped_header \<Rightarrow> block_hash" where
  "WrappedHeader_block_hash E self = block_hash E (wh_header self)"

definition WrappedHeader_prev_blockhash :: "wrapped_header \<Rightarrow> block_hash" where
  "WrappedHeader_prev_blockhash self = bh_prev_blockhash (wh_header self)"

definition WrappedHeader_work :: "'x ext_scheme \<Rightarrow> wrapped_header \<Rightarrow> u256" where
  "WrappedHeader_work E self = header_work E (wh_header self)"

definition WrappedHeader_bits :: "wrapped_header \<Rightarrow> u32" where
  "WrappedHeader_bits self = bh_bits (wh_header self)"

definition WrappedHeader_validate_pow :: "'x ext_scheme \<Rightarrow> wrapped_header \<Rightarrow> u256 \<Rightarrow> block_hash result" where
  "WrappedHeader_validate_pow E self required_target = header_validate_pow E (wh_header self) required_target"

text \<open>\<^verbatim>\<open>u32_to_u256\<close> copies the four bytes of the number to the end of a buffer of 32 bytes.\<close>

definition WrappedHeader_u32_to_u256 :: "u32 \<Rightarrow> u256" where
  "WrappedHeader_u32_to_u256 value =
     (let bytes = be32 value
      in from_be_bytes (replicate (32 - length bytes) 0 @ bytes))"

lemma u32_to_u256_value: "n < 2 ^ 32 \<Longrightarrow> WrappedHeader_u32_to_u256 n = n"
  by (simp add: WrappedHeader_u32_to_u256_def Let_def from_be_bytes_be32)

definition WrappedHeader_u256_from_compact :: "'x ext_scheme \<Rightarrow> u32 \<Rightarrow> u256" where
  [simp]: "WrappedHeader_u256_from_compact E compact = u256_from_compact_target E compact"

definition WrappedHeader_compact_target_from_u256 :: "'x ext_scheme \<Rightarrow> u256 \<Rightarrow> u32" where
  [simp]: "WrappedHeader_compact_target_from_u256 E target = compact_target_from_u256 E target"

record work_header =
  kh_chain_work :: u256
  kh_header :: wrapped_header

definition WorkHeader_new :: "wrapped_header \<Rightarrow> u256 \<Rightarrow> work_header" where
  "WorkHeader_new header chain_work = \<lparr>kh_chain_work = chain_work, kh_header = header\<rparr>"

definition WorkHeader_time :: "work_header \<Rightarrow> u32" where
  "WorkHeader_time self = WrappedHeader_time (kh_header self)"

definition WorkHeader_block_hash :: "'x ext_scheme \<Rightarrow> work_header \<Rightarrow> block_hash" where
  "WorkHeader_block_hash E self = WrappedHeader_block_hash E (kh_header self)"

definition WorkHeader_work :: "'x ext_scheme \<Rightarrow> work_header \<Rightarrow> u256" where
  "WorkHeader_work E self = WrappedHeader_work E (kh_header self)"

definition WorkHeader_height :: "work_header \<Rightarrow> u32" where
  "WorkHeader_height self = WrappedHeader_height (kh_header self)"

definition WorkHeader_merkle_root :: "work_header \<Rightarrow> merkle_root" where
  "WorkHeader_merkle_root self = bh_merkle_root (wh_header (kh_header self))"

text \<open>\<^verbatim>\<open>HeaderConfig::work_header\<close> of \<^verbatim>\<open>interface.rs\<close>.\<close>

definition HeaderConfig_work_header :: "'x ext_scheme \<Rightarrow> header_config \<Rightarrow> work_header" where
  "HeaderConfig_work_header E self =
     (let wrapped_header = WrappedHeader_new (hc_trusted_header self) (hc_trusted_height self)
      in WorkHeader_new wrapped_header (WrappedHeader_work E wrapped_header))"

end
