(* ===== verification/Deque.thy ===== *)
theory Deque
  imports Extern
begin

text \<open>
  \<^verbatim>\<open>DequeExtension\<close> of \<^verbatim>\<open>interface.rs\<close>: a persistent double-ended queue, on top of
  \<^verbatim>\<open>cw_storage_plus::Deque\<close>, with an indexed write of its own. The storage of one deque is
  the record \<open>dq\<close>: the two cursors and the cells under its position keys. The operations of
  \<^verbatim>\<open>cw_storage_plus::Deque\<close> are the parameter \<open>deque_ops\<close> with the locale
  \<open>deque_laws\<close> as its contract; \<open>DequeExtension_set\<close> and \<open>DequeExtension_clear\<close>
  are the contract's own code.
\<close>

section \<open>Storage of a deque\<close>

text \<open>The number of positions a cursor can take.\<close>

definition u32_space :: nat where
  "u32_space = 2 ^ 32"

lemma u32_space_pos [simp]: "0 < u32_space" "u32_space \<noteq> 0" "Suc 0 < u32_space"
  by (simp_all add: u32_space_def)


record 'a dq =
  dq_head :: u32
  dq_tail :: u32
  dq_cells :: "u32 \<Rightarrow> 'a option"

definition dq_empty :: "'a dq" where
  "dq_empty = \<lparr>dq_head = 0, dq_tail = 0, dq_cells = (\<lambda>_. None)\<rparr>"

text \<open>Length, physical position of an element, and the elements from front to back.\<close>

definition dq_len :: "('a, 'b) dq_scheme \<Rightarrow> nat" where
  "dq_len d = (dq_tail d + u32_space - dq_head d) mod u32_space"

definition dq_pos :: "('a, 'b) dq_scheme \<Rightarrow> nat \<Rightarrow> u32" where
  "dq_pos d i = (dq_head d + i) mod u32_space"

definition dq_items :: "('a, 'b) dq_scheme \<Rightarrow> 'a list" where
  "dq_items d = map (\<lambda>i. the (dq_cells d (dq_pos d i))) [0..<dq_len d]"

text \<open>Well-formed storage: exactly the cells between the cursors are in use.\<close>

definition dq_ok :: "('a, 'b) dq_scheme \<Rightarrow> bool" where
  "dq_ok d \<longleftrightarrow> dq_head d < u32_space \<and> dq_tail d < u32_space \<and>
     (\<forall>p < u32_space. dq_cells d p \<noteq> None \<longleftrightarrow> (p + u32_space - dq_head d) mod u32_space < dq_len d)"

section \<open>The interface of the storage library\<close>

record 'a deque_ops =
  dq_push_back :: "'a dq \<Rightarrow> 'a \<Rightarrow> 'a dq"
  dq_push_front :: "'a dq \<Rightarrow> 'a \<Rightarrow> 'a dq"
  dq_pop_back :: "'a dq \<Rightarrow> 'a option \<times> 'a dq"
  dq_pop_front :: "'a dq \<Rightarrow> 'a option \<times> 'a dq"
  dq_front :: "'a dq \<Rightarrow> 'a option"
  dq_back :: "'a dq \<Rightarrow> 'a option"
  dq_length :: "'a dq \<Rightarrow> u32"
  dq_get :: "'a dq \<Rightarrow> u32 \<Rightarrow> 'a option"

text \<open>
  The documented behaviour: a sequence with access at both ends, of capacity
  \<open>2 ^ 32 - 1\<close>, whose element \<open>i\<close> is stored under the key of position
  \<open>head + i\<close> (modulo \<open>2 ^ 32\<close>).
\<close>

locale deque_laws =
  fixes D :: "'a deque_ops"
  assumes push_back: "dq_ok d \<Longrightarrow> length (dq_items d) < u32_space - 1 \<Longrightarrow>
      dq_ok (dq_push_back D d x) \<and> dq_items (dq_push_back D d x) = dq_items d @ [x] \<and>
      dq_head (dq_push_back D d x) = dq_head d"
    and push_front: "dq_ok d \<Longrightarrow> length (dq_items d) < u32_space - 1 \<Longrightarrow>
      dq_ok (dq_push_front D d x) \<and> dq_items (dq_push_front D d x) = x # dq_items d"
    and pop_back: "dq_ok d \<Longrightarrow> dq_items d = xs @ [x] \<Longrightarrow>
      \<exists>d'. dq_pop_back D d = (Some x, d') \<and> dq_ok d' \<and> dq_items d' = xs \<and> dq_head d' = dq_head d"
    and pop_back_empty: "dq_ok d \<Longrightarrow> dq_items d = [] \<Longrightarrow> dq_pop_back D d = (None, d)"
    and pop_front: "dq_ok d \<Longrightarrow> dq_items d = x # xs \<Longrightarrow>
      \<exists>d'. dq_pop_front D d = (Some x, d') \<and> dq_ok d' \<and> dq_items d' = xs \<and>
        dq_head d' = (dq_head d + 1) mod u32_space"
    and pop_front_empty: "dq_ok d \<Longrightarrow> dq_items d = [] \<Longrightarrow> dq_pop_front D d = (None, d)"
    and front_items: "dq_ok d \<Longrightarrow> dq_front D d = vec_first (dq_items d)"
    and back_items: "dq_ok d \<Longrightarrow> dq_back D d = vec_last (dq_items d)"
    and len: "dq_length D d = dq_len d"
    and get: "dq_get D d i = (if i < dq_len d then dq_cells d (dq_pos d i) else None)"
begin

lemma length_items: "dq_length D d = length (dq_items d)"
  by (simp add: len dq_items_def)

lemma get_items: "dq_ok d \<Longrightarrow> dq_get D d i = vec_get (dq_items d) i"
proof -
  assume ok: "dq_ok d"
  show ?thesis
  proof (cases "i < dq_len d")
    case True
    have h: "dq_head d < u32_space" and l: "dq_len d < u32_space"
      using ok by (auto simp: dq_ok_def dq_len_def)
    have "(dq_pos d i + u32_space - dq_head d) mod u32_space = i"
      using True h l unfolding dq_pos_def
      by (cases "dq_head d + i < u32_space") (auto simp: mod_if)
    moreover have "dq_pos d i < u32_space"
      by (simp add: dq_pos_def)
    ultimately have "dq_cells d (dq_pos d i) \<noteq> None"
      using ok True by (auto simp: dq_ok_def)
    then show ?thesis
      using True by (auto simp: get vec_get_def dq_items_def)
  next
    case False
    then show ?thesis by (simp add: get vec_get_def dq_items_def)
  qed
qed

end

section \<open>The contract's own operations\<close>

record deque_extension =
  de_key_prefix :: bytes
  de_namespace :: bytes

definition DequeExtension_new :: "bytes \<Rightarrow> deque_extension" where
  "DequeExtension_new prefix =
     \<lparr>de_key_prefix = be16 (as_u16 (length prefix)), de_namespace = prefix\<rparr>"

definition DequeExtension_get_key :: "deque_extension \<Rightarrow> u32 \<Rightarrow> bytes" where
  "DequeExtension_get_key self pos = de_key_prefix self @ de_namespace self @ be32 pos"

text \<open>
  \<open>set\<close> writes the cell under the key of \<open>pos\<close> itself: it neither adds the head
  cursor nor checks the length.
\<close>

definition DequeExtension_set :: "'a dq \<Rightarrow> u32 \<Rightarrow> 'a \<Rightarrow> 'a dq" where
  "DequeExtension_set d pos v = d\<lparr>dq_cells := (dq_cells d)(pos := Some v)\<rparr>"

text \<open>\<open>clear\<close> pops from the back as often as the deque is long.\<close>

fun clear_loop :: "'a deque_ops \<Rightarrow> nat \<Rightarrow> 'a dq \<Rightarrow> 'a dq" where
  "clear_loop D 0 d = d"
| "clear_loop D (Suc n) d = clear_loop D n (snd (dq_pop_back D d))"

definition DequeExtension_clear :: "'a deque_ops \<Rightarrow> 'a dq \<Rightarrow> 'a dq" where
  "DequeExtension_clear D d = clear_loop D (dq_length D d) d"

section \<open>Facts about the storage\<close>

lemma length_dq_items [simp]: "length (dq_items d) = dq_len d"
  by (simp add: dq_items_def)

lemma dq_ok_empty [simp]: "dq_ok dq_empty" and dq_items_empty [simp]: "dq_items dq_empty = []"
  by (simp_all add: dq_ok_def dq_empty_def dq_len_def dq_items_def)

lemma dq_head_empty [simp]: "dq_head dq_empty = 0"
  by (simp add: dq_empty_def)

lemma dq_len_less: "dq_len d < u32_space"
  by (simp add: dq_len_def)

lemma DequeExtension_set_simps [simp]:
  "dq_head (DequeExtension_set d p v) = dq_head d"
  "dq_tail (DequeExtension_set d p v) = dq_tail d"
  "dq_len (DequeExtension_set d p v) = dq_len d"
  "dq_pos (DequeExtension_set d p v) i = dq_pos d i"
  "dq_cells (DequeExtension_set d p v) = (dq_cells d)(p := Some v)"
  by (simp_all add: DequeExtension_set_def dq_len_def dq_pos_def)

text \<open>While nothing was removed at the front, the written cell is the indexed element.\<close>

lemma DequeExtension_set_items:
  assumes "dq_head d = 0" and "i < dq_len d"
  shows "dq_items (DequeExtension_set d i v) = (dq_items d)[i := v]"
  using assms dq_len_less [of d]
  by (auto simp: dq_items_def dq_pos_def nth_list_update intro!: nth_equalityI)

lemma DequeExtension_set_ok:
  assumes "dq_ok d" and "dq_head d = 0" and "i < dq_len d"
  shows "dq_ok (DequeExtension_set d i v)"
  using assms dq_len_less [of d] by (auto simp: dq_ok_def)

text \<open>Offsets of positions from the head, modulo the size of the position space.\<close>

lemma off_pos: "h < M \<Longrightarrow> i < M \<Longrightarrow> ((h + i) mod M + M - h) mod M = (i::nat)"
  by (cases "h + i < M") (auto simp: mod_if)

lemma pos_off: "h < M \<Longrightarrow> p < M \<Longrightarrow> (h + (p + M - h) mod M) mod M = (p::nat)"
  by (cases "p < h") (auto simp: mod_if)

definition dq_off :: "('a, 'b) dq_scheme \<Rightarrow> u32 \<Rightarrow> nat" where
  "dq_off d p = (p + u32_space - dq_head d) mod u32_space"

lemma dq_off_pos: "dq_head d < u32_space \<Longrightarrow> i < u32_space \<Longrightarrow> dq_off d (dq_pos d i) = i"
  unfolding dq_off_def dq_pos_def by (rule off_pos)

lemma dq_pos_off: "dq_head d < u32_space \<Longrightarrow> p < u32_space \<Longrightarrow> dq_pos d (dq_off d p) = p"
  unfolding dq_off_def dq_pos_def by (rule pos_off)

lemma dq_pos_inj:
  "dq_head d < u32_space \<Longrightarrow> i < u32_space \<Longrightarrow> j < u32_space \<Longrightarrow> dq_pos d i = dq_pos d j \<longleftrightarrow> i = j"
  by (metis dq_off_pos)

lemma dq_pos_less [simp]: "dq_pos d i < u32_space"
  by (simp add: dq_pos_def)

lemma dq_ok_iff:
  "dq_ok d \<longleftrightarrow> dq_head d < u32_space \<and> dq_tail d < u32_space \<and>
     (\<forall>p < u32_space. dq_cells d p \<noteq> None \<longleftrightarrow> dq_off d p < dq_len d)"
  by (simp add: dq_ok_def dq_off_def)

lemma dq_tail_pos: "dq_ok d \<Longrightarrow> dq_tail d = dq_pos d (dq_len d)"
  unfolding dq_ok_def dq_pos_def dq_len_def using pos_off [of "dq_head d" "u32_space" "dq_tail d"] by simp

section \<open>The storage library's layout, as an instance of the interface\<close>

definition std_push_back :: "'a dq \<Rightarrow> 'a \<Rightarrow> 'a dq" where
  "std_push_back d x = d\<lparr>dq_cells := (dq_cells d)(dq_tail d := Some x), dq_tail := (dq_tail d + 1) mod u32_space\<rparr>"

definition std_push_front :: "'a dq \<Rightarrow> 'a \<Rightarrow> 'a dq" where
  "std_push_front d x =
     (let pos = (dq_head d + u32_space - 1) mod u32_space
      in d\<lparr>dq_cells := (dq_cells d)(pos := Some x), dq_head := pos\<rparr>)"

definition std_pop_back :: "'a dq \<Rightarrow> 'a option \<times> 'a dq" where
  "std_pop_back d =
     (let pos = (dq_tail d + u32_space - 1) mod u32_space; v = dq_cells d pos
      in (v, if v = None then d else d\<lparr>dq_cells := (dq_cells d)(pos := None), dq_tail := pos\<rparr>))"

definition std_pop_front :: "'a dq \<Rightarrow> 'a option \<times> 'a dq" where
  "std_pop_front d =
     (let pos = dq_head d; v = dq_cells d pos
      in (v, if v = None then d
             else d\<lparr>dq_cells := (dq_cells d)(pos := None), dq_head := (pos + 1) mod u32_space\<rparr>))"

definition std_deque :: "'a deque_ops" where
  "std_deque = \<lparr>dq_push_back = std_push_back, dq_push_front = std_push_front,
     dq_pop_back = std_pop_back, dq_pop_front = std_pop_front,
     dq_front = (\<lambda>d. dq_cells d (dq_head d)),
     dq_back = (\<lambda>d. dq_cells d ((dq_tail d + u32_space - 1) mod u32_space)),
     dq_length = dq_len,
     dq_get = (\<lambda>d i. if i < dq_len d then dq_cells d (dq_pos d i) else None)\<rparr>"

text \<open>
  A deque whose elements are known cell by cell: the way to establish the invariant and the
  contents after an operation.
\<close>

lemma dq_build:
  assumes "dq_head d < u32_space" and "n < u32_space" and "dq_tail d = dq_pos d n"
    and "length xs = n" and "\<And>i. i < n \<Longrightarrow> dq_cells d (dq_pos d i) = Some (xs ! i)"
    and "\<And>p. p < u32_space \<Longrightarrow> n \<le> dq_off d p \<Longrightarrow> dq_cells d p = None"
  shows "dq_ok d \<and> dq_items d = xs"
proof -
  have len: "dq_len d = n"
    using off_pos [OF assms(1,2)] assms(3) by (simp add: dq_len_def dq_pos_def)
  have "dq_cells d p \<noteq> None \<longleftrightarrow> dq_off d p < n" if "p < u32_space" for p
    using assms(5) [of "dq_off d p"] assms(6) [OF that] dq_pos_off [OF assms(1) that]
    by (cases "dq_off d p < n") auto
  then have "dq_ok d"
    using assms(1,3) len by (simp add: dq_ok_iff)
  moreover have "dq_items d = xs"
    using assms(4,5) len by (auto simp: dq_items_def intro!: nth_equalityI)
  ultimately show ?thesis ..
qed

lemma dq_ok_cell: "dq_ok d \<Longrightarrow> i < dq_len d \<Longrightarrow> dq_cells d (dq_pos d i) = Some (dq_items d ! i)"
proof -
  assume ok: "dq_ok d" and i: "i < dq_len d"
  have "dq_off d (dq_pos d i) = i"
    using ok i dq_len_less [of d] by (intro dq_off_pos) (auto simp: dq_ok_def)
  then have "dq_cells d (dq_pos d i) \<noteq> None"
    using ok i by (simp add: dq_ok_iff)
  then show ?thesis using i by (simp add: dq_items_def)
qed

lemma dq_ok_no_cell: "dq_ok d \<Longrightarrow> p < u32_space \<Longrightarrow> dq_len d \<le> dq_off d p \<Longrightarrow> dq_cells d p = None"
  by (metis dq_ok_iff leD)

lemma dq_pos_shift:
  assumes "dq_head d' = (dq_head d + 1) mod u32_space"
  shows "dq_pos d' i = dq_pos d (Suc i)"
  using assms by (simp add: dq_pos_def mod_add_left_eq)

lemma dq_pos_unshift:
  assumes "dq_head d' = (dq_head d + u32_space - 1) mod u32_space" and "dq_head d < u32_space"
  shows "dq_pos d' (Suc i) = dq_pos d i"
proof -
  have "dq_pos d' (Suc i) = (dq_head d + u32_space - 1 + Suc i) mod u32_space"
    unfolding dq_pos_def assms(1) by (rule mod_add_left_eq)
  also have "dq_head d + u32_space - 1 + Suc i = dq_head d + i + u32_space"
    using u32_space_pos(1) by linarith
  finally show ?thesis by (simp add: dq_pos_def)
qed

lemma dq_pos_0: "dq_head d < u32_space \<Longrightarrow> dq_pos d 0 = dq_head d"
  and dq_pos_wrap: "dq_head d < u32_space \<Longrightarrow> dq_pos d u32_space = dq_head d"
  and dq_off_less [simp]: "dq_off d p < u32_space"
  by (simp_all add: dq_pos_def dq_off_def)

lemma std_push_back_ok:
  assumes ok: "dq_ok d" and len: "dq_len d < u32_space - 1"
  shows "dq_ok (std_push_back d x) \<and> dq_items (std_push_back d x) = dq_items d @ [x]"
proof (rule dq_build [where n = "Suc (dq_len d)"])
  let ?d = "std_push_back d x"
  have h: "dq_head d < u32_space" using ok by (simp add: dq_ok_def)
  have pos: "dq_pos ?d i = dq_pos d i" and off: "dq_off ?d p = dq_off d p" for i p
    by (simp_all add: std_push_back_def dq_pos_def dq_off_def)
  have t: "dq_tail d = dq_pos d (dq_len d)" by (rule dq_tail_pos [OF ok])
  show "dq_head ?d < u32_space" using h by (simp add: std_push_back_def)
  show "Suc (dq_len d) < u32_space" using len by linarith
  show "dq_tail ?d = dq_pos ?d (Suc (dq_len d))"
    unfolding pos by (simp add: std_push_back_def t dq_pos_def mod_Suc_eq)
  show "length (dq_items d @ [x]) = Suc (dq_len d)" by simp
  show "dq_cells ?d (dq_pos ?d i) = Some ((dq_items d @ [x]) ! i)" if "i < Suc (dq_len d)" for i
    using that dq_ok_cell [OF ok] dq_pos_inj [OF h, of i "dq_len d"] len
    unfolding pos by (auto simp: std_push_back_def t nth_append less_Suc_eq)
  show "dq_cells ?d p = None" if "p < u32_space" "Suc (dq_len d) \<le> dq_off ?d p" for p
    using that dq_ok_no_cell [OF ok, of p] dq_off_pos [OF h, of "dq_len d"] len
    unfolding off by (auto simp: std_push_back_def t)
qed

lemma std_push_front_ok:
  assumes ok: "dq_ok d" and len: "dq_len d < u32_space - 1"
  shows "dq_ok (std_push_front d x) \<and> dq_items (std_push_front d x) = x # dq_items d"
proof (rule dq_build [where n = "Suc (dq_len d)"])
  let ?d = "std_push_front d x"
  have h: "dq_head d < u32_space" using ok by (simp add: dq_ok_def)
  have hd: "dq_head ?d = (dq_head d + u32_space - 1) mod u32_space"
    by (simp add: std_push_front_def Let_def)
  then show h': "dq_head ?d < u32_space" by simp
  note pos = dq_pos_unshift [OF hd h]
  have cells: "dq_cells ?d = (dq_cells d)(dq_pos ?d 0 := Some x)"
    using dq_pos_0 [OF h'] by (simp add: std_push_front_def Let_def)
  show len': "Suc (dq_len d) < u32_space" using len by linarith
  show "dq_tail ?d = dq_pos ?d (Suc (dq_len d))"
    unfolding pos using dq_tail_pos [OF ok] by (simp add: std_push_front_def Let_def)
  show "length (x # dq_items d) = Suc (dq_len d)" by simp
  have inj: "dq_pos d i \<noteq> dq_pos ?d 0" if "i < dq_len d" for i
    using dq_pos_inj [OF h', of "Suc i" 0] that len' unfolding pos by simp
  show "dq_cells ?d (dq_pos ?d i) = Some ((x # dq_items d) ! i)" if "i < Suc (dq_len d)" for i
    using that dq_ok_cell [OF ok] inj by (cases i) (auto simp: cells pos)
  show "dq_cells ?d p = None" if p: "p < u32_space" and o: "Suc (dq_len d) \<le> dq_off ?d p" for p
  proof -
    obtain j where j: "dq_off ?d p = Suc j" using o by (cases "dq_off ?d p") auto
    have pj: "p = dq_pos d j" using dq_pos_off [OF h' p] by (simp add: j pos)
    have "j < u32_space" using j dq_off_less [of ?d p] by linarith
    then have "dq_off d p = j" unfolding pj by (rule dq_off_pos [OF h])
    then have "dq_cells d p = None" using dq_ok_no_cell [OF ok p] o j by simp
    moreover have "p \<noteq> dq_pos ?d 0" using j dq_off_pos [OF h', of 0] by auto
    ultimately show ?thesis by (simp add: cells)
  qed
qed

lemma std_pop_back_ok:
  assumes ok: "dq_ok d" and items: "dq_items d = xs @ [x]"
  shows "\<exists>d'. std_pop_back d = (Some x, d') \<and> dq_ok d' \<and> dq_items d' = xs \<and> dq_head d' = dq_head d"
proof -
  have h: "dq_head d < u32_space" and t: "dq_tail d < u32_space" using ok by (auto simp: dq_ok_def)
  define n where "n = length xs"
  have len: "dq_len d = Suc n" using items length_dq_items [of d] by (simp add: n_def)
  have n: "Suc n < u32_space" using len dq_len_less [of d] by simp
  define p where "p = (dq_tail d + u32_space - 1) mod u32_space"
  have "dq_tail d = dq_pos d (Suc n)" using dq_tail_pos [OF ok] len by simp
  then have "dq_tail d + u32_space - 1 = dq_pos d (Suc n) + (u32_space - 1)"
    using u32_space_pos(1) by linarith
  then have "p = (dq_pos d (Suc n) + (u32_space - 1)) mod u32_space"
    by (simp only: p_def)
  also have "\<dots> = (dq_head d + Suc n + (u32_space - 1)) mod u32_space"
    unfolding dq_pos_def by (rule mod_add_left_eq)
  also have "dq_head d + Suc n + (u32_space - 1) = dq_head d + n + u32_space"
    using u32_space_pos(1) by linarith
  finally have p: "p = dq_pos d n" by (simp add: dq_pos_def)
  have cell: "dq_cells d p = Some x"
    using dq_ok_cell [OF ok, of n] len items by (simp add: p n_def)
  define d' where "d' = d\<lparr>dq_cells := (dq_cells d)(p := None), dq_tail := p\<rparr>"
  have pos: "dq_pos d' i = dq_pos d i" and off: "dq_off d' q = dq_off d q" for i q
    by (simp_all add: d'_def dq_pos_def dq_off_def)
  have cells: "dq_cells d' = (dq_cells d)(p := None)" by (simp add: d'_def)
  have "dq_ok d' \<and> dq_items d' = xs"
  proof (rule dq_build [where n = n])
    show "dq_head d' < u32_space" "n < u32_space" "length xs = n"
      using h n by (simp_all add: d'_def n_def)
    have "dq_tail d' = p" by (simp add: d'_def)
    then show "dq_tail d' = dq_pos d' n" by (simp only: pos p)
    show "dq_cells d' (dq_pos d' i) = Some (xs ! i)" if "i < n" for i
      using that dq_ok_cell [OF ok, of i] dq_pos_inj [OF h, of i n] len items n
      unfolding pos cells by (simp add: p n_def nth_append)
    show "dq_cells d' q = None" if "q < u32_space" "n \<le> dq_off d' q" for q
      using that dq_ok_no_cell [OF ok, of q] dq_pos_off [OF h, of q] len
      unfolding off cells by (cases "dq_off d q = n") (auto simp: p)
  qed
  moreover have "std_pop_back d = (Some x, d')"
    using cell unfolding std_pop_back_def Let_def p_def [symmetric] by (simp add: d'_def)
  ultimately show ?thesis by (simp add: d'_def)
qed

lemma std_pop_front_ok:
  assumes ok: "dq_ok d" and items: "dq_items d = x # xs"
  shows "\<exists>d'. std_pop_front d = (Some x, d') \<and> dq_ok d' \<and> dq_items d' = xs \<and>
    dq_head d' = (dq_head d + 1) mod u32_space"
proof -
  have h: "dq_head d < u32_space" and t: "dq_tail d < u32_space" using ok by (auto simp: dq_ok_def)
  define n where "n = length xs"
  have len: "dq_len d = Suc n" using items length_dq_items [of d] by (simp add: n_def)
  have n: "Suc n < u32_space" using len dq_len_less [of d] by simp
  have cell: "dq_cells d (dq_head d) = Some x"
    using dq_ok_cell [OF ok, of 0] len items dq_pos_0 [OF h] by simp
  define d' where "d' = d\<lparr>dq_cells := (dq_cells d)(dq_head d := None), dq_head := (dq_head d + 1) mod u32_space\<rparr>"
  have hd: "dq_head d' = (dq_head d + 1) mod u32_space" by (simp add: d'_def)
  have cells: "dq_cells d' = (dq_cells d)(dq_head d := None)" by (simp add: d'_def)
  note pos = dq_pos_shift [OF hd]
  have h': "dq_head d' < u32_space" by (simp add: hd)
  have "dq_ok d' \<and> dq_items d' = xs"
  proof (rule dq_build [where n = n])
    show "dq_head d' < u32_space" "n < u32_space" "length xs = n"
      using h' n by (simp_all add: n_def)
    have "dq_tail d' = dq_tail d" by (simp add: d'_def)
    then show "dq_tail d' = dq_pos d' n" using dq_tail_pos [OF ok] len by (simp only: pos)
    show "dq_cells d' (dq_pos d' i) = Some (xs ! i)" if "i < n" for i
      using that dq_ok_cell [OF ok, of "Suc i"] dq_pos_inj [OF h, of "Suc i" 0] dq_pos_0 [OF h] len items n
      unfolding pos cells by simp
    show "dq_cells d' q = None" if q: "q < u32_space" and o: "n \<le> dq_off d' q" for q
    proof (cases "Suc (dq_off d' q) < u32_space")
      case True
      have "q = dq_pos d (Suc (dq_off d' q))" using dq_pos_off [OF h' q] by (simp add: pos)
      then have "dq_off d q = Suc (dq_off d' q)" by (metis True dq_off_pos h)
      then show ?thesis using dq_ok_no_cell [OF ok q] o len by (simp add: d'_def)
    next
      case False
      then have "Suc (dq_off d' q) = u32_space" using dq_off_less [of d' q] by linarith
      then have "q = dq_head d" using dq_pos_off [OF h' q] dq_pos_wrap [OF h] by (simp add: pos)
      then show ?thesis by (simp add: d'_def)
    qed
  qed
  moreover have "std_pop_front d = (Some x, d')"
    using cell by (simp add: std_pop_front_def Let_def d'_def)
  ultimately show ?thesis using hd by blast
qed

lemma std_end_cells:
  fixes d :: "'a dq"
  assumes ok: "dq_ok d"
  shows "dq_cells d (dq_head d) = vec_first (dq_items d)"
    and "dq_cells d ((dq_tail d + u32_space - 1) mod u32_space) = vec_last (dq_items d)"
proof -
  have h: "dq_head d < u32_space" using ok by (simp add: dq_ok_def)
  have "dq_cells d (dq_head d) = None" if "dq_items d = []"
    using that dq_ok_no_cell [OF ok h] length_dq_items [of d] by simp
  moreover have "dq_cells d (dq_head d) = Some x" if "dq_items d = x # xs" for x xs
    using that dq_ok_cell [OF ok, of 0] dq_pos_0 [OF h] length_dq_items [of d] by simp
  ultimately show "dq_cells d (dq_head d) = vec_first (dq_items d)"
    by (cases "dq_items d") auto
  show "dq_cells d ((dq_tail d + u32_space - 1) mod u32_space) = vec_last (dq_items d)"
  proof (cases "dq_items d" rule: rev_cases)
    case Nil
    then have "dq_len d = 0" using length_dq_items [of d] by simp
    moreover have "(dq_tail d + u32_space - 1) mod u32_space < u32_space" by simp
    ultimately show ?thesis using dq_ok_no_cell [OF ok] Nil by simp
  next
    case (snoc xs x)
    from std_pop_back_ok [OF ok snoc] snoc show ?thesis
      by (auto simp: std_pop_back_def Let_def vec_last_def)
  qed
qed

lemma std_pop_empty:
  assumes ok: "dq_ok d" and "dq_items d = []"
  shows "std_pop_back d = (None, d)" and "std_pop_front d = (None, d)"
  using std_end_cells [OF ok] assms(2) by (simp_all add: std_pop_back_def std_pop_front_def Let_def)

interpretation std_dq: deque_laws "std_deque :: 'a deque_ops"
proof unfold_locales
  fix d :: "'a dq" and x :: 'a and xs :: "'a list" and i :: u32
  show "dq_ok d \<Longrightarrow> length (dq_items d) < u32_space - 1 \<Longrightarrow>
      dq_ok (dq_push_back std_deque d x) \<and> dq_items (dq_push_back std_deque d x) = dq_items d @ [x] \<and>
      dq_head (dq_push_back std_deque d x) = dq_head d"
    using std_push_back_ok [of d x] by (simp add: std_deque_def std_push_back_def)
  show "dq_ok d \<Longrightarrow> length (dq_items d) < u32_space - 1 \<Longrightarrow>
      dq_ok (dq_push_front std_deque d x) \<and> dq_items (dq_push_front std_deque d x) = x # dq_items d"
    using std_push_front_ok [of d x] by (simp add: std_deque_def)
  show "dq_ok d \<Longrightarrow> dq_items d = x # xs \<Longrightarrow>
      \<exists>d'. dq_pop_front std_deque d = (Some x, d') \<and> dq_ok d' \<and> dq_items d' = xs \<and>
        dq_head d' = (dq_head d + 1) mod u32_space"
    using std_pop_front_ok [of d x xs] by (simp add: std_deque_def)
  show "dq_ok d \<Longrightarrow> dq_back std_deque d = vec_last (dq_items d)"
    using std_end_cells(2) [of d] by (simp add: std_deque_def)
qed (simp_all add: std_deque_def std_pop_back_ok std_pop_front_ok std_pop_empty std_end_cells)

section \<open>Properties\<close>

text \<open>Clearing removes every element.\<close>

lemma clear_loop_items:
  assumes "deque_laws D"
  shows "dq_ok d \<Longrightarrow> n = dq_len d \<Longrightarrow> dq_ok (clear_loop D n d) \<and> dq_items (clear_loop D n d) = []"
proof (induction n arbitrary: d)
  case 0
  then show ?case by (simp add: dq_items_def)
next
  case (Suc n)
  then obtain xs x where items: "dq_items d = xs @ [x]"
    using length_dq_items [of d] by (cases "dq_items d" rule: rev_cases) auto
  from deque_laws.pop_back [OF assms Suc.prems(1) items] obtain d' where
    d': "dq_pop_back D d = (Some x, d')" "dq_ok d'" "dq_items d' = xs" by blast
  have "n = dq_len d'"
    using Suc.prems(2) items d'(3) length_dq_items [of d] length_dq_items [of d'] by simp
  with Suc.IH [OF d'(2)] d'(1) show ?case by simp
qed

lemma be32_inj:
  assumes "m < u32_space" and "n < u32_space" and "be32 m = be32 n"
  shows "m = n"
proof -
  have "m div 256 ^ 3 mod 256 = n div 256 ^ 3 mod 256" "m div 256 ^ 2 mod 256 = n div 256 ^ 2 mod 256"
    "m div 256 mod 256 = n div 256 mod 256" "m mod 256 = n mod 256"
    using assms(3) unfolding be32_def list.inject by iprover+
  then show ?thesis
    using be32_digits [of m] be32_digits [of n] assms(1,2) unfolding u32_space_def by metis
qed

text \<open>
  Two positions of a deque never share a storage key, and neither do two deques of the
  contract with different names of the same length: the cells of the model are the cells of the
  store.
\<close>

lemma get_key_injective:
  assumes "i < u32_space" and "j < u32_space" and "length a = length b"
  shows "DequeExtension_get_key (DequeExtension_new a) i = DequeExtension_get_key (DequeExtension_new b) j
    \<longleftrightarrow> a = b \<and> i = j"
  using assms be32_inj
  by (auto simp: DequeExtension_get_key_def DequeExtension_new_def be16_def)

text \<open>
  After one element was popped from the front of a deque, writing index \<open>i\<close> with
  \<open>DequeExtension_set\<close> leaves element \<open>i\<close> as it was and replaces element
  \<open>i - 1\<close>.
\<close>

lemma set_after_pop_front:
  assumes "deque_laws D" and "dq_ok d" and "dq_head d = 0" and "dq_items d = x # xs"
    and "dq_pop_front D d = (Some x, d')" and "0 < i" and "i < length xs"
  shows "dq_get D (DequeExtension_set d' i v) i = Some (xs ! i) \<and>
    dq_get D (DequeExtension_set d' i v) (i - 1) = Some v"
proof -
  from deque_laws.pop_front [OF assms(1,2,4)] assms(5)
  have ok: "dq_ok d'" and items: "dq_items d' = xs" and hd: "dq_head d' = 1"
    using assms(3) by (auto simp: mod_less [OF u32_space_pos(3), simplified])
  have len: "dq_len d' = length xs" using items length_dq_items [of d'] by simp
  have small: "i + 1 < u32_space" using assms(7) len dq_len_less [of d'] by linarith
  have pos: "dq_pos d' i = i + 1" "dq_pos d' (i - 1) = i"
    using hd small assms(6) by (simp_all add: dq_pos_def)
  have "dq_get D (DequeExtension_set d' i v) i = Some (xs ! i)"
    using dq_ok_cell [OF ok, of i] assms(7) len items pos(1)
    by (simp add: deque_laws.get [OF assms(1)])
  moreover have "dq_get D (DequeExtension_set d' i v) (i - 1) = Some v"
    using assms(6,7) len pos(2) by (simp add: deque_laws.get [OF assms(1)])
  ultimately show ?thesis ..
qed

end
