(* ===== verification/State.thy ===== *)
theory State
  imports Checkpoint Header Deque "HOL-Library.Char_ord"
begin

text \<open>
  \<^verbatim>\<open>state.rs\<close>: the storage of the contract. An \<^verbatim>\<open>Item\<close> is an optional value, a
  \<^verbatim>\<open>DequeExtension\<close> is the storage of one deque, and a \<^verbatim>\<open>Map\<close> that the contract iterates
  over is an association list in ascending key order; the other maps are partial functions, and
  those with a unit value are sets. The record \<open>contract_ext\<close> adds the three deque
  libraries to the functions the contract calls.
\<close>

section \<open>Ordered maps\<close>

fun omap_save :: "'k :: linorder \<Rightarrow> 'v \<Rightarrow> ('k \<times> 'v) list \<Rightarrow> ('k \<times> 'v) list" where
  "omap_save k v [] = [(k, v)]"
| "omap_save k v ((k', v') # m) =
     (if k < k' then (k, v) # (k', v') # m
      else if k = k' then (k, v) # m
      else (k', v') # omap_save k v m)"

definition omap_remove :: "'k \<Rightarrow> ('k \<times> 'v) list \<Rightarrow> ('k \<times> 'v) list" where
  "omap_remove k m = filter (\<lambda>e. fst e \<noteq> k) m"

definition omap_ok :: "('k :: linorder \<times> 'v) list \<Rightarrow> bool" where
  "omap_ok m \<longleftrightarrow> sorted_wrt (<) (map fst m)"

section \<open>The store\<close>

text \<open>\<^verbatim>\<open>RecoveryTx\<close> of \<^verbatim>\<open>recovery.rs\<close>.\<close>

record recovery_tx =
  rt_tx :: bitcoin_tx
  rt_old_sigset_index :: u32
  rt_new_sigset_index :: u32
  rt_dest :: dest

record store =
  st_config :: "config option"
  st_checkpoint_config :: "checkpoint_config option"
  st_header_config :: "header_config option"
  st_bitcoin_config :: "bitcoin_config option"
  st_validators :: "(consensus_key \<times> u64 \<times> string) list"
  st_signers :: "string \<Rightarrow> consensus_key option"
  st_sig_keys :: "(consensus_key \<times> xpub) list"
  st_xpubs :: "bytes set"
  st_headers :: "work_header dq"
  st_recovery_txs :: "recovery_tx dq"
  st_expiration_queue :: "((u64 \<times> string) \<times> unit) list"
  st_outpoints :: "string set"
  st_fee_pool :: "i64 option"
  st_checkpoints :: "checkpoint dq"
  st_building_index :: "u32 option"
  st_confirmed_index :: "u32 option"
  st_first_unhandled_confirmed_index :: "u32 option"
  st_current_work :: "u256 option"
  st_token_fee_ratio :: "ratio option"
  st_block_hashes :: "bytes set"

definition empty_store :: store where
  "empty_store = \<lparr>st_config = None, st_checkpoint_config = None, st_header_config = None,
     st_bitcoin_config = None, st_validators = [], st_signers = (\<lambda>_. None), st_sig_keys = [],
     st_xpubs = {}, st_headers = dq_empty, st_recovery_txs = dq_empty, st_expiration_queue = [],
     st_outpoints = {}, st_fee_pool = None, st_checkpoints = dq_empty, st_building_index = None,
     st_confirmed_index = None, st_first_unhandled_confirmed_index = None, st_current_work = None,
     st_token_fee_ratio = None, st_block_hashes = {}\<rparr>"

record contract_ext = iface_ext +
  headers_dq :: "work_header deque_ops"
  checkpoints_dq :: "checkpoint deque_ops"
  recovery_dq :: "recovery_tx deque_ops"

text \<open>What the contract relies on in its three deques.\<close>

locale contract_deques =
  fixes E :: "'x contract_ext_scheme"
  assumes headers_laws: "deque_laws (headers_dq E)"
    and checkpoints_laws: "deque_laws (checkpoints_dq E)"
    and recovery_laws: "deque_laws (recovery_dq E)"

sublocale contract_deques \<subseteq> hdq: deque_laws "headers_dq E"
  by (rule headers_laws)

sublocale contract_deques \<subseteq> cdq: deque_laws "checkpoints_dq E"
  by (rule checkpoints_laws)

sublocale contract_deques \<subseteq> rdq: deque_laws "recovery_dq E"
  by (rule recovery_laws)

text \<open>\<^verbatim>\<open>Item::load\<close> and \<^verbatim>\<open>Map::load\<close> fail with \<^verbatim>\<open>StdError::NotFound\<close>.\<close>

definition load :: "'a option \<Rightarrow> 'a result" where
  "load x = ok_or (Std ''not found'') x"

lemma load_Inr_iff [ok_simps]: "load x = Inr v \<longleftrightarrow> x = Some v"
  by (simp add: load_def ok_or_Inr_iff)

lemma load_simps [simp]: "load (Some v) = Ok v" "load None = Err (Std ''not found'')"
  by (simp_all add: load_def)

section \<open>Reads shared by the components\<close>

definition get_validators :: "store \<Rightarrow> validator list" where
  "get_validators st = map (\<lambda>(k, power, _). \<lparr>val_pubkey = k, val_power = power\<rparr>) (st_validators st)"

definition header_height :: "'x contract_ext_scheme \<Rightarrow> store \<Rightarrow> u32" where
  "header_height E st =
     (case dq_back (headers_dq E) (st_headers st) of
        Some inner \<Rightarrow> WorkHeader_height inner
      | None \<Rightarrow> 0)"

definition get_full_btc_denom :: "string \<Rightarrow> string" where
  "get_full_btc_denom token_factory_addr =
     ''factory/'' @ token_factory_addr @ ''/'' @ BTC_NATIVE_TOKEN_DENOM"

section \<open>Facts about ordered maps\<close>

lemma map_of_omap_save [simp]: "map_of (omap_save k v m) = (map_of m)(k \<mapsto> v)"
  by (induction m) (auto split: if_splits)

lemma map_of_omap_remove: "map_of (omap_remove k m) = (map_of m)(k := None)"
  by (induction m) (auto simp: omap_remove_def)

lemma fst_set_omap_save: "fst ` set (omap_save k v m) = insert k (fst ` set m)"
  by (simp add: dom_map_of_conv_image_fst [symmetric])

lemma omap_ok_save: "omap_ok m \<Longrightarrow> omap_ok (omap_save k v m)"
proof (induction m)
  case (Cons e m)
  obtain k' v' where [simp]: "e = (k', v')" by (cases e)
  have "omap_ok m" and "\<forall>x\<in>fst ` set m. k' < x"
    using Cons.prems by (auto simp: omap_ok_def)
  then show ?case
    using Cons.IH fst_set_omap_save [of k v m] by (auto simp: omap_ok_def)
qed (simp add: omap_ok_def)

lemma omap_ok_remove: "omap_ok m \<Longrightarrow> omap_ok (omap_remove k m)"
  by (induction m) (auto simp: omap_ok_def omap_remove_def)

end
