(* ===== verification/HeaderQueue.thy ===== *)
theory HeaderQueue
  imports State
begin

text \<open>
  \<^verbatim>\<open>HeaderQueue\<close> of \<^verbatim>\<open>header.rs\<close>: the light client that verifies relayed Bitcoin headers,
  with reorganisations, retargeting, the median-time rule and pruning.
\<close>

section \<open>Reads\<close>

definition HeaderQueue_config :: "store \<Rightarrow> header_config result" where
  "HeaderQueue_config st = load (st_header_config st)"

definition HeaderQueue_current_work :: "store \<Rightarrow> u256 result" where
  "HeaderQueue_current_work st = load (st_current_work st)"

definition HeaderQueue_height :: "'x contract_ext_scheme \<Rightarrow> store \<Rightarrow> u32" where
  "HeaderQueue_height E st = header_height E st"

definition HeaderQueue_hash :: "'x contract_ext_scheme \<Rightarrow> store \<Rightarrow> block_hash result" where
  "HeaderQueue_hash E st =
     (case dq_back (headers_dq E) (st_headers st) of
        Some inner \<Rightarrow> Ok (WorkHeader_block_hash (E :: 'x contract_ext_scheme) inner)
      | None \<Rightarrow> Err (Prelude.Header ''HeaderQueue is empty''))"

definition HeaderQueue_len :: "'x contract_ext_scheme \<Rightarrow> store \<Rightarrow> u64" where
  "HeaderQueue_len E st = dq_length (headers_dq E) (st_headers st)"

definition HeaderQueue_is_empty :: "'x contract_ext_scheme \<Rightarrow> store \<Rightarrow> bool" where
  "HeaderQueue_is_empty E st \<longleftrightarrow> HeaderQueue_len E st = 0"

definition HeaderQueue_get_initial_height :: "'x contract_ext_scheme \<Rightarrow> store \<Rightarrow> u32 result" where
  "HeaderQueue_get_initial_height E st =
     (case dq_front (headers_dq E) (st_headers st) of
        Some inner \<Rightarrow> Ok (WorkHeader_height inner)
      | None \<Rightarrow> Err (Prelude.Header ''Queue does not contain any headers''))"

definition HeaderQueue_get_by_height ::
  "'x contract_ext_scheme \<Rightarrow> store \<Rightarrow> u32 \<Rightarrow> u32 option \<Rightarrow> work_header option result"
where
  "HeaderQueue_get_by_height E st height initial_height =
     bnd (case initial_height of Some val \<Rightarrow> Ok val | None \<Rightarrow> HeaderQueue_get_initial_height E st) (\<lambda>initial_height.
     if height < initial_height
     then Err (Prelude.Header ''Passed index is greater than initial height. Referenced header does not exist on the Header Queue'')
     else Ok (dq_get (headers_dq E) (st_headers st) (height - initial_height)))"

definition HeaderQueue_trusted_height :: "store \<Rightarrow> u32 result" where
  "HeaderQueue_trusted_height st = bnd (load (st_header_config st)) (\<lambda>config. Ok (hc_trusted_height config))"

text \<open>The crate's default feature is \<^verbatim>\<open>mainnet\<close>.\<close>

definition HeaderQueue_network :: network where
  "HeaderQueue_network = Mainnet"

section \<open>Configuration\<close>

definition HeaderQueue_configure ::
  "'x contract_ext_scheme \<Rightarrow> store \<Rightarrow> header_config \<Rightarrow> store"
where
  "HeaderQueue_configure E st config =
     (let headers = DequeExtension_clear (headers_dq E) (st_headers st);
          wrapped_header = WrappedHeader_new (hc_trusted_header config) (hc_trusted_height config);
          work_header = WorkHeader_new wrapped_header (WrappedHeader_work E wrapped_header)
      in st\<lparr>st_current_work := Some (kh_chain_work work_header),
            st_headers := dq_push_front (headers_dq E) headers work_header,
            st_header_config := Some config\<rparr>)"

section \<open>Removing headers\<close>

text \<open>
  \<^verbatim>\<open>pop_back_to\<close>: the loop ends when the last header is below \<open>height\<close>, or with an error
  when the queue is empty. The fuel is the length of the queue and one more step, which every
  deque that keeps its contract can spend; running out of it would be a panic.
\<close>

fun pop_back_to_loop ::
  "'x contract_ext_scheme \<Rightarrow> nat \<Rightarrow> u32 \<Rightarrow> u256 \<Rightarrow> store \<Rightarrow> (u256 \<times> store) result"
where
  "pop_back_to_loop E 0 height work st = panic"
| "pop_back_to_loop E (Suc fuel) height work st =
     (if HeaderQueue_height E st \<ge> height
      then (case dq_pop_back (headers_dq E) (st_headers st) of
              (None, _) \<Rightarrow> Err (Prelude.Header ''Removed all headers'')
            | (Some header, headers) \<Rightarrow>
                pop_back_to_loop E fuel height (u256_add work (WorkHeader_work E header))
                  (st\<lparr>st_headers := headers\<rparr>))
      else Ok (work, st))"

definition HeaderQueue_pop_back_to ::
  "'x contract_ext_scheme \<Rightarrow> store \<Rightarrow> u32 \<Rightarrow> (u256 \<times> store) result"
where
  "HeaderQueue_pop_back_to E st height =
     pop_back_to_loop E (Suc (HeaderQueue_len E st)) height 0 st"

section \<open>The rules a header has to obey\<close>

definition HeaderQueue_validate_time ::
  "'x contract_ext_scheme \<Rightarrow> store \<Rightarrow> wrapped_header \<Rightarrow> unit result"
where
  "HeaderQueue_validate_time E st current_header =
     bnd (HeaderQueue_get_initial_height E st) (\<lambda>initial_height.
     let height = HeaderQueue_height E st
     in bnd (sub_w height 10) (\<lambda>first.
        bnd (map_r (\<lambda>prev_height.
               bnd (HeaderQueue_get_by_height E st prev_height (Some initial_height)) (\<lambda>item.
               bnd (ok_or (Prelude.Header ''Deque does not contain any elements'') item) (\<lambda>inner.
               Ok (WorkHeader_time inner)))) [first..<Suc height]) (\<lambda>prev_stamps.
        bnd (ok_or (Prelude.Header ''Median timestamp does not exist'') (vec_get (sort prev_stamps) 5)) (\<lambda>median_stamp.
        throw_if (WrappedHeader_time current_header \<le> median_stamp)
          (Prelude.Header ''Header contains an invalid timestamp'')))))"

definition HeaderQueue_calculate_next_target ::
  "'x contract_ext_scheme \<Rightarrow> store \<Rightarrow> wrapped_header \<Rightarrow> u32 \<Rightarrow> u256 result"
where
  "HeaderQueue_calculate_next_target E st header first_reorg_height =
     bnd (HeaderQueue_config st) (\<lambda>config.
     if \<not> hc_retargeting config then Ok (WrappedHeader_u256_from_compact E (WrappedHeader_bits header))
     else if wh_height header < hc_retarget_interval config
     then Err (Prelude.Header ''Invalid trusted header. Trusted header have height which is a multiple of the retarget interval'')
     else
       bnd (HeaderQueue_get_by_height E st first_reorg_height None) (\<lambda>item.
       bnd (ok_or (Prelude.Header ''No previous retargeting header exists'') item) (\<lambda>inner.
       bnd (sub_w (WrappedHeader_time header) (WorkHeader_time inner)) (\<lambda>elapsed.
       bnd (mul_u32 (hc_target_timespan config) 4) (\<lambda>max_timespan.
       bnd (clamp_r elapsed (hc_target_timespan config div 4) max_timespan) (\<lambda>timespan.
       bnd (div_r (u256_mul (WrappedHeader_target E header) (WrappedHeader_u32_to_u256 timespan))
              (WrappedHeader_u32_to_u256 (hc_target_timespan config))) (\<lambda>target.
       let target = WrappedHeader_u256_from_compact E (compact_target_from_u256 E target)
       in Ok (min target (WrappedHeader_u256_from_compact E (hc_max_target config))))))))))"

text \<open>
  The loop of \<^verbatim>\<open>get_next_target\<close> on networks with minimum-difficulty blocks: back to the last
  header that has no minimum difficulty, with the cache the calls of one batch share.
\<close>

fun search_target_bits ::
  "'x contract_ext_scheme \<Rightarrow> store \<Rightarrow> header_config \<Rightarrow> u32 \<Rightarrow> u32 \<Rightarrow> u32 \<Rightarrow> (u32 \<Rightarrow> u32 option) \<Rightarrow>
   (u32 \<times> (u32 \<Rightarrow> u32 option)) result"
where
  "search_target_bits E st config initial_height 0 bits cache = Ok (bits, cache)"
| "search_target_bits E st config initial_height (Suc h) bits cache =
     (if Suc h mod hc_retarget_interval config \<noteq> 0 \<and> bits = hc_max_target config
      then (case cache h of
              Some val \<Rightarrow> search_target_bits E st config initial_height h val cache
            | None \<Rightarrow>
                bnd (sub_w h initial_height) (\<lambda>i.
                bnd (ok_or (Prelude.Header ''No previous header exists'')
                       (dq_get (headers_dq E) (st_headers st) i)) (\<lambda>inner.
                search_target_bits E st config initial_height h (WrappedHeader_bits (kh_header inner))
                  (cache(h \<mapsto> bits)))))
      else Ok (bits, cache))"

definition HeaderQueue_get_next_target ::
  "'x contract_ext_scheme \<Rightarrow> store \<Rightarrow> wrapped_header \<Rightarrow> wrapped_header \<Rightarrow> u32 \<Rightarrow> (u32 \<Rightarrow> u32 option) \<Rightarrow>
   (u256 \<times> (u32 \<Rightarrow> u32 option)) result"
where
  "HeaderQueue_get_next_target E st header previous_header initial_height cache =
     bnd (HeaderQueue_config st) (\<lambda>config.
     bnd (rem_r (wh_height header) (hc_retarget_interval config)) (\<lambda>r.
     if r = 0 then
       bnd (sub_w (wh_height header) (hc_retarget_interval config)) (\<lambda>first_reorg_height.
       bnd (HeaderQueue_calculate_next_target E st previous_header first_reorg_height) (\<lambda>t. Ok (t, cache)))
     else if \<not> hc_min_difficulty_blocks config then Ok (WrappedHeader_target E previous_header, cache)
     else
       bnd (mul_u32 (hc_target_spacing config) 2) (\<lambda>gap.
       bnd (add_u32 (WrappedHeader_time previous_header) gap) (\<lambda>latest.
       if WrappedHeader_time header > latest
       then Ok (WrappedHeader_u256_from_compact E (hc_max_target config), cache)
       else bnd (search_target_bits E st config initial_height (wh_height previous_header)
                   (WrappedHeader_bits previous_header) cache) (\<lambda>(bits, cache).
            Ok (WrappedHeader_u256_from_compact E bits, cache))))))"

section \<open>Adding headers\<close>

text \<open>One round of the loop of \<^verbatim>\<open>verify_and_add_headers\<close>.\<close>

definition add_header_step ::
  "'x contract_ext_scheme \<Rightarrow> wrapped_header \<times> wrapped_header \<Rightarrow> store \<times> u256 \<times> (u32 \<Rightarrow> u32 option) \<Rightarrow>
   (store \<times> u256 \<times> (u32 \<Rightarrow> u32 option)) result"
where
  "add_header_step E pair state =
     (case pair of (prev_header, header) \<Rightarrow> case state of (st, work, cache) \<Rightarrow>
        bnd (add_u32 (wh_height prev_header) 1) (\<lambda>next_height.
        bnd (throw_if (wh_height header \<noteq> next_height) (Prelude.Header ''Non-consecutive headers passed'')) (\<lambda>_.
        bnd (throw_if (WrappedHeader_prev_blockhash header \<noteq> WrappedHeader_block_hash E prev_header)
               (Prelude.Header ''Passed header references incorrect previous block hash'')) (\<lambda>_.
        bnd (if dq_length (headers_dq E) (st_headers st) \<ge> 11
             then HeaderQueue_validate_time E st header else Ok ()) (\<lambda>_.
        bnd (HeaderQueue_get_initial_height E st) (\<lambda>initial_height.
        bnd (HeaderQueue_get_next_target E st header prev_header initial_height cache) (\<lambda>(target, cache).
        bnd (WrappedHeader_validate_pow E header target) (\<lambda>_.
        let header_work = WrappedHeader_work E header
        in bnd (HeaderQueue_current_work st) (\<lambda>current_work.
           let chain_work = u256_add current_work header_work
           in Ok (st\<lparr>st_headers := dq_push_back (headers_dq E) (st_headers st) (WorkHeader_new header chain_work),
                    st_current_work := Some chain_work\<rparr>,
                  u256_add work header_work, cache))))))))))"

definition HeaderQueue_verify_and_add_headers ::
  "'x contract_ext_scheme \<Rightarrow> store \<Rightarrow> wrapped_header list \<Rightarrow> (u256 \<times> store) result"
where
  "HeaderQueue_verify_and_add_headers E st headers =
     bnd (ok_or (Prelude.Header ''Passed header list is empty'') (vec_first headers)) (\<lambda>first.
     bnd (throw_if (wh_height first = 0) (Prelude.Header ''Headers must start after height 0'')) (\<lambda>_.
     bnd (HeaderQueue_get_by_height E st (wh_height first - 1) None) (\<lambda>item.
     bnd (ok_or (Prelude.Header ''Headers not connect to chain'') item) (\<lambda>prev.
     bnd (fold_r (add_header_step E) (zip (kh_header prev # headers) headers) (st, 0, \<lambda>_. None)) (\<lambda>(st, work, _).
     Ok (work, st))))))"

text \<open>The pruning loop: \<open>n\<close> is the counter \<^verbatim>\<open>queue_len\<close>.\<close>

fun prune_headers ::
  "'x contract_ext_scheme \<Rightarrow> u64 \<Rightarrow> nat \<Rightarrow> u256 \<Rightarrow> work_header dq \<Rightarrow> u256 \<times> work_header dq"
where
  "prune_headers E max_length 0 work headers = (work, headers)"
| "prune_headers E max_length (Suc n) work headers =
     (if Suc n > max_length
      then (case dq_pop_front (headers_dq E) headers of
              (None, headers) \<Rightarrow> (work, headers)
            | (Some header, headers) \<Rightarrow>
                prune_headers E max_length n (u256_sub work (WorkHeader_work E header)) headers)
      else (work, headers))"

definition HeaderQueue_add_into_iter ::
  "'x contract_ext_scheme \<Rightarrow> store \<Rightarrow> wrapped_header list \<Rightarrow> store result"
where
  "HeaderQueue_add_into_iter E st headers =
     (let current_height = HeaderQueue_height E st
      in bnd (HeaderQueue_config st) (\<lambda>config.
         bnd (ok_or (Prelude.Header ''Passed header list empty'') (vec_first headers)) (\<lambda>first.
         bnd (if wh_height first \<le> current_height
              then bnd (HeaderQueue_get_by_height E st (wh_height first) None) (\<lambda>item.
                   bnd (ok_or (Prelude.Header ''Header not found'') item) (\<lambda>first_replaced.
                   bnd (throw_if (WorkHeader_block_hash E first_replaced = WrappedHeader_block_hash E first)
                          (Prelude.Header ''Provided redundant header.'')) (\<lambda>_.
                   HeaderQueue_pop_back_to E st (wh_height first))))
              else Ok (0, st)) (\<lambda>(removed_work, st).
         bnd (HeaderQueue_verify_and_add_headers E st headers) (\<lambda>(added_work, st).
         bnd (throw_if (added_work \<le> removed_work)
                (Prelude.Header ''New best chain must include more work than old best chain.'')) (\<lambda>_.
         bnd (load (st_current_work st)) (\<lambda>current_work.
         let (current_work, headers) =
               prune_headers E (hc_max_length config) (HeaderQueue_len E st) current_work (st_headers st)
         in Ok (st\<lparr>st_headers := headers, st_current_work := Some current_work\<rparr>))))))))"

definition HeaderQueue_add ::
  "'x contract_ext_scheme \<Rightarrow> store \<Rightarrow> wrapped_header list \<Rightarrow> store result"
where
  "HeaderQueue_add E st headers =
     (if length headers > MAX_HEADERS_RELAY_ONE_TIME
      then Err (App ''Exceeded maximum amount of relayed headers'')
      else map_err (\<lambda>err. App (error_to_string err)) (HeaderQueue_add_into_iter E st headers))"

section \<open>The chain the queue holds\<close>

text \<open>What connects a header of the queue to the one before it: its height and previous hash.\<close>

definition link_ok :: "'x ext_scheme \<Rightarrow> work_header \<Rightarrow> work_header \<Rightarrow> bool" where
  "link_ok E x y \<longleftrightarrow>
     WorkHeader_height y = WorkHeader_height x + 1 \<and>
     WrappedHeader_prev_blockhash (kh_header y) = WorkHeader_block_hash E x"

text \<open>
  The target after a retargeting interval that \<open>first\<close> opened and \<open>x\<close> closed, as a formula: the
  target of \<open>x\<close> scaled by the time the interval took, that time kept between a quarter and four
  times the intended one, rounded to the compact form and capped at the maximum.
\<close>

definition retarget_spec :: "'x ext_scheme \<Rightarrow> header_config \<Rightarrow> work_header \<Rightarrow> work_header \<Rightarrow> u256" where
  "retarget_spec E c first x =
     (let timespan = max (hc_target_timespan c div 4) (min (4 * hc_target_timespan c) (WorkHeader_time x - WorkHeader_time first));
          target = (WrappedHeader_target E (kh_header x) * timespan) mod 2 ^ 256 div hc_target_timespan c
      in min (u256_from_compact_target E (compact_target_from_u256 E target)) (u256_from_compact_target E (hc_max_target c)))"

text \<open>
  The target the rules ask of the header at position \<open>i > 0\<close>. At a retargeting height it is the one
  of the formula, for the header one interval earlier as long as pruning has left it in the queue;
  without retargeting, and at every other height of a network without minimum-difficulty blocks, it
  is the target of the header before. With minimum-difficulty blocks it is the maximum for a header
  that is late, and the target of the header before if that one is not a minimum-difficulty block
  or opens an interval.
\<close>

definition target_ok :: "'x ext_scheme \<Rightarrow> header_config \<Rightarrow> work_header list \<Rightarrow> nat \<Rightarrow> u256 \<Rightarrow> bool" where
  "target_ok E c hs i target \<longleftrightarrow>
     (let x = hs ! (i - 1); y = hs ! i; n = hc_retarget_interval c; prev = WrappedHeader_target E (kh_header x);
          maximum = u256_from_compact_target E (hc_max_target c)
      in if WorkHeader_height y mod n = 0 then
           if hc_retargeting c then
             target \<le> maximum \<and>
             (n \<le> i \<longrightarrow> WorkHeader_time (hs ! (i - n)) \<le> WorkHeader_time x \<and> target = retarget_spec E c (hs ! (i - n)) x)
           else target = prev
         else if \<not> hc_min_difficulty_blocks c then target = prev
         else if WorkHeader_time x + 2 * hc_target_spacing c < WorkHeader_time y then target = maximum
         else WrappedHeader_bits (kh_header x) \<noteq> hc_max_target c \<or> WorkHeader_height x mod n = 0 \<longrightarrow> target = prev)"

text \<open>Every header that has a predecessor in the queue proves its work for that target.\<close>

definition pow_ok :: "'x ext_scheme \<Rightarrow> header_config \<Rightarrow> work_header list \<Rightarrow> bool" where
  "pow_ok E c hs \<longleftrightarrow>
     (\<forall>i. 0 < i \<and> i < length hs \<longrightarrow>
        (\<exists>target h. header_validate_pow E (wh_header (kh_header (hs ! i))) target = Ok h \<and> target_ok E c hs i target))"

text \<open>The median-time rule for every header that has eleven predecessors in the queue.\<close>

definition median_ok :: "work_header list \<Rightarrow> bool" where
  "median_ok hs \<longleftrightarrow>
     (\<forall>i. 11 \<le> i \<and> i < length hs \<longrightarrow> sort (map WorkHeader_time (take 11 (drop (i - 11) hs))) ! 5 < WorkHeader_time (hs ! i))"

definition chain_ok :: "'x ext_scheme \<Rightarrow> header_config \<Rightarrow> work_header list \<Rightarrow> bool" where
  "chain_ok E c hs \<longleftrightarrow> hs \<noteq> [] \<and> successively (link_ok E) hs \<and> median_ok hs \<and> pow_ok E c hs"

lemma target_ok_drop:
  assumes "target_ok E c hs (n + i) t" and "0 < i" and "n + i < length hs"
  shows "target_ok E c (drop n hs) i t"
proof -
  have "drop n hs ! (i - 1) = hs ! (n + i - 1)" "drop n hs ! i = hs ! (n + i)" using assms(2,3) by simp_all
  moreover have "drop n hs ! (i - m) = hs ! (n + i - m)" if "m \<le> i" for m
    using that assms(3) by simp
  ultimately show ?thesis using assms(1) by (auto simp: target_ok_def Let_def split: if_splits)
qed

lemma target_ok_append:
  assumes "i < length xs"
  shows "target_ok E c (xs @ ys) i t \<longleftrightarrow> target_ok E c xs i t"
proof -
  have "(xs @ ys) ! (i - m) = xs ! (i - m)" for m using assms by (simp add: nth_append)
  moreover have "(xs @ ys) ! i = xs ! i" using assms by (simp add: nth_append)
  ultimately show ?thesis by (simp only: target_ok_def)
qed

lemma pow_ok_drop: "pow_ok E c hs \<Longrightarrow> pow_ok E c (drop n hs)"
  unfolding pow_ok_def
proof (intro allI impI)
  fix i
  assume ok: "\<forall>i. 0 < i \<and> i < length hs \<longrightarrow>
      (\<exists>target h. header_validate_pow E (wh_header (kh_header (hs ! i))) target = Ok h \<and> target_ok E c hs i target)"
    and i: "0 < i \<and> i < length (drop n hs)"
  have ni: "0 < n + i \<and> n + i < length hs" using i by (auto simp: less_diff_conv)
  then obtain t h where "header_validate_pow E (wh_header (kh_header (hs ! (n + i)))) t = Ok h" "target_ok E c hs (n + i) t"
    using ok by blast
  then show "\<exists>target h. header_validate_pow E (wh_header (kh_header (drop n hs ! i))) target = Ok h \<and>
      target_ok E c (drop n hs) i target"
    using target_ok_drop [of E c hs n i t] i ni by auto
qed

lemma pow_ok_prefix: "pow_ok E c (xs @ ys) \<Longrightarrow> pow_ok E c xs"
  unfolding pow_ok_def by (fastforce simp: nth_append target_ok_append)

lemma pow_ok_snoc:
  assumes "pow_ok E c hs" and "header_validate_pow E (wh_header (kh_header y)) t = Ok h"
    and "target_ok E c (hs @ [y]) (length hs) t"
  shows "pow_ok E c (hs @ [y])"
  unfolding pow_ok_def
proof (intro allI impI)
  fix i assume i: "0 < i \<and> i < length (hs @ [y])"
  show "\<exists>target h. header_validate_pow E (wh_header (kh_header ((hs @ [y]) ! i))) target = Ok h \<and>
      target_ok E c (hs @ [y]) i target"
  proof (cases "i = length hs")
    case True
    then show ?thesis using assms(2,3) by auto
  next
    case False
    then have "i < length hs" using i by simp
    then show ?thesis using assms(1) i by (simp add: pow_ok_def target_ok_append nth_append)
  qed
qed

lemma chain_ok_drop: "chain_ok E c hs \<Longrightarrow> n < length hs \<Longrightarrow> chain_ok E c (drop n hs)"
proof -
  assume ok: "chain_ok E c hs" and n: "n < length hs"
  have "successively (link_ok E) (take n hs @ drop n hs)" using ok by (simp add: chain_ok_def)
  then have "successively (link_ok E) (drop n hs)" unfolding successively_append_iff by simp
  moreover have "median_ok (drop n hs)"
    unfolding median_ok_def
  proof (intro allI impI)
    fix i assume i: "11 \<le> i \<and> i < length (drop n hs)"
    have "i - 11 + n = n + i - 11" using i by simp
    moreover have "sort (map WorkHeader_time (take 11 (drop (n + i - 11) hs))) ! 5 < WorkHeader_time (hs ! (n + i))"
      using ok i n unfolding chain_ok_def median_ok_def by (elim conjE allE [of _ "n + i"]) simp
    ultimately show "sort (map WorkHeader_time (take 11 (drop (i - 11) (drop n hs)))) ! 5 < WorkHeader_time (drop n hs ! i)"
      using i n by simp
  qed
  ultimately show ?thesis using n ok pow_ok_drop by (auto simp: chain_ok_def)
qed

lemma chain_ok_prefix: "chain_ok E c (xs @ ys) \<Longrightarrow> xs \<noteq> [] \<Longrightarrow> chain_ok E c xs"
proof -
  assume ok: "chain_ok E c (xs @ ys)" and ne: "xs \<noteq> []"
  have "median_ok xs"
    unfolding median_ok_def
  proof (intro allI impI)
    fix i assume i: "11 \<le> i \<and> i < length xs"
    then have "take 11 (drop (i - 11) (xs @ ys)) = take 11 (drop (i - 11) xs)" by simp
    then show "sort (map WorkHeader_time (take 11 (drop (i - 11) xs))) ! 5 < WorkHeader_time (xs ! i)"
      using ok i unfolding chain_ok_def median_ok_def by (elim conjE allE [of _ i]) (simp add: nth_append)
  qed
  then show ?thesis using ok ne pow_ok_prefix by (auto simp: chain_ok_def successively_append_iff)
qed

lemma chain_heights:
  assumes "chain_ok E c hs" and "i < length hs"
  shows "WorkHeader_height (hs ! i) = WorkHeader_height (hd hs) + i"
proof -
  have "successively (link_ok E) hs" using assms by (simp add: chain_ok_def)
  then show ?thesis using assms(2)
  proof (induction hs arbitrary: i)
    case (Cons x hs)
    then show ?case
      by (cases i; cases hs) (auto simp: link_ok_def)
  qed simp
qed

lemma chain_take_drop:
  assumes "chain_ok E c hs"
  shows "take (h - WorkHeader_height (hd hs)) hs = filter (\<lambda>x. WorkHeader_height x < h) hs"
    and "drop (h - WorkHeader_height (hd hs)) hs = filter (\<lambda>x. h \<le> WorkHeader_height x) hs"
proof -
  let ?k = "h - WorkHeader_height (hd hs)"
  have below: "WorkHeader_height x < h" if x: "x \<in> set (take ?k hs)" for x
  proof -
    obtain i where "i < length (take ?k hs)" "take ?k hs ! i = x" using x unfolding in_set_conv_nth by blast
    then have i: "i < length hs" "i < ?k" "hs ! i = x" by simp_all
    then have "WorkHeader_height x = WorkHeader_height (hd hs) + i" using chain_heights [OF assms i(1)] by simp
    then show ?thesis using i(2) by arith
  qed
  have above: "h \<le> WorkHeader_height x" if x: "x \<in> set (drop ?k hs)" for x
  proof -
    obtain i where "i < length (drop ?k hs)" "drop ?k hs ! i = x" using x unfolding in_set_conv_nth by blast
    then have i: "?k + i < length hs" "hs ! (?k + i) = x" by simp_all
    then have "WorkHeader_height x = WorkHeader_height (hd hs) + (?k + i)" using chain_heights [OF assms i(1)] by simp
    then show ?thesis by arith
  qed
  let ?lt = "\<lambda>x. WorkHeader_height x < h" and ?ge = "\<lambda>x. h \<le> WorkHeader_height x"
  have "filter ?lt (take ?k hs) = take ?k hs" by (rule filter_True) (use below in blast)
  moreover have "filter ?lt (drop ?k hs) = []" by (rule filter_False) (use above not_le in blast)
  moreover have "filter ?ge (take ?k hs) = []" by (rule filter_False) (use below not_le in blast)
  moreover have "filter ?ge (drop ?k hs) = drop ?k hs" by (rule filter_True) (use above in blast)
  ultimately have "filter ?lt (take ?k hs @ drop ?k hs) = take ?k hs" "filter ?ge (take ?k hs @ drop ?k hs) = drop ?k hs"
    unfolding filter_append by simp_all
  then show "take ?k hs = filter ?lt hs" and "drop ?k hs = filter ?ge hs" unfolding append_take_drop_id by simp_all
qed

lemma chain_last_height:
  "chain_ok E c hs \<Longrightarrow> WorkHeader_height (last hs) = WorkHeader_height (hd hs) + (length hs - 1)"
  using chain_heights [of E c hs "length hs - 1"] by (simp add: chain_ok_def last_conv_nth)

lemma chain_ok_snoc:
  "chain_ok E c hs \<Longrightarrow> link_ok E (last hs) y \<Longrightarrow>
     header_validate_pow E (wh_header (kh_header y)) t = Ok h \<Longrightarrow> target_ok E c (hs @ [y]) (length hs) t \<Longrightarrow>
     (11 \<le> length hs \<Longrightarrow> sort (map WorkHeader_time (drop (length hs - 11) hs)) ! 5 < WorkHeader_time y) \<Longrightarrow>
     chain_ok E c (hs @ [y])"
proof -
  assume ok: "chain_ok E c hs" and l: "link_ok E (last hs) y"
    and p: "header_validate_pow E (wh_header (kh_header y)) t = Ok h" "target_ok E c (hs @ [y]) (length hs) t"
    and m: "11 \<le> length hs \<Longrightarrow> sort (map WorkHeader_time (drop (length hs - 11) hs)) ! 5 < WorkHeader_time y"
  have "median_ok (hs @ [y])"
    unfolding median_ok_def
  proof (intro allI impI)
    fix i assume i: "11 \<le> i \<and> i < length (hs @ [y])"
    have t: "take 11 (drop (i - 11) (hs @ [y])) = take 11 (drop (i - 11) hs)" using i by simp
    show "sort (map WorkHeader_time (take 11 (drop (i - 11) (hs @ [y])))) ! 5 < WorkHeader_time ((hs @ [y]) ! i)"
    proof (cases "i = length hs")
      case True
      then have "take 11 (drop (i - 11) hs) = drop (length hs - 11) hs" using i by simp
      then show ?thesis using m i True t by simp
    next
      case False
      then have "i < length hs" using i by simp
      then show ?thesis using ok i t by (simp add: nth_append chain_ok_def median_ok_def)
    qed
  qed
  then show ?thesis
    using ok l pow_ok_snoc [OF _ p] by (simp add: chain_ok_def successively_append_iff)
qed

text \<open>The work of a list of headers, modulo \<open>2 ^ 256\<close> as the contract adds it up.\<close>

definition headers_work :: "'x ext_scheme \<Rightarrow> wrapped_header list \<Rightarrow> nat" where
  "headers_work E hs = sum_list (map (WrappedHeader_work E) hs)"

lemma headers_work_simps [simp]:
  "headers_work E [] = 0" "headers_work E (h # hs) = WrappedHeader_work E h + headers_work E hs"
  "headers_work E (hs @ hs') = headers_work E hs + headers_work E hs'"
  "headers_work E (rev hs) = headers_work E hs"
  by (simp_all add: headers_work_def flip: rev_map)


definition wrap256 :: "nat \<Rightarrow> u256" where
  "wrap256 n = n mod 2 ^ 256"

lemma u256_add_wrap: "u256_add (wrap256 a) b = wrap256 (a + b)"
  unfolding u256_add_def wrap256_def by (rule mod_add_left_eq)

lemma wrap256_0 [simp]: "wrap256 0 = 0"
  by (simp add: wrap256_def)

lemma u256_sub_int: "int (u256_sub a b) = (int a - int b) mod 2 ^ 256"
  by (simp add: u256_sub_def)

lemma wrap256_any:
  assumes "w < 2 ^ 256"
  shows "\<exists>e. w = wrap256 (h + e)"
proof
  have "h + (w + h * (2 ^ 256 - 1)) = w + h * 2 ^ 256" by (simp add: algebra_simps)
  then show "w = wrap256 (h + (w + h * (2 ^ 256 - 1)))"
    using assms unfolding wrap256_def by (simp only: mod_mult_self1 mod_less)
qed

definition header_items :: "store \<Rightarrow> work_header list" where
  "header_items st = dq_items (st_headers st)"

lemma header_items_simps [simp]:
  "header_items (st\<lparr>st_headers := d\<rparr>) = dq_items d"
  "header_items (st\<lparr>st_current_work := w\<rparr>) = header_items st"
  by (simp_all add: header_items_def)

section \<open>The invariant and what the operations do\<close>

definition headers_inv :: "'x ext_scheme \<Rightarrow> store \<Rightarrow> bool" where
  "headers_inv E st \<longleftrightarrow> dq_ok (st_headers st) \<and>
     (\<exists>c. st_header_config st = Some c \<and> 0 < hc_max_length c \<and> hc_max_length c < 2 ^ 31 \<and>
        chain_ok E c (header_items st) \<and> length (header_items st) \<le> hc_max_length c)"

text \<open>\<^verbatim>\<open>pop_back_to\<close> removes the headers at the end that are not below the height.\<close>

definition not_below :: "u32 \<Rightarrow> work_header \<Rightarrow> bool" where
  "not_below height x \<longleftrightarrow> height \<le> WorkHeader_height x"

context contract_deques
begin

lemma header_reads:
  assumes "dq_ok (st_headers st)"
  shows "HeaderQueue_height E st = (if header_items st = [] then 0 else WorkHeader_height (last (header_items st)))"
    and "HeaderQueue_len E st = length (header_items st)"
    and "HeaderQueue_get_initial_height E st = Ok v \<longleftrightarrow>
      header_items st \<noteq> [] \<and> v = WorkHeader_height (hd (header_items st))"
    and "dq_get (headers_dq E) (st_headers st) i = vec_get (header_items st) i"
  using assms hdq.length_items
  by (auto simp: HeaderQueue_height_def header_height_def hdq.back_items HeaderQueue_len_def header_items_def
      HeaderQueue_get_initial_height_def hdq.front_items vec_last_def vec_first_def hdq.get_items split: list.splits)

lemma pop_back_to_loop_eq:
  assumes "dq_ok (st_headers st)" and "rev (header_items st) = hs" and "length hs < fuel"
  shows "if dropWhile (not_below height) hs = [] \<and> height = 0
    then pop_back_to_loop E fuel height (wrap256 work) st = Err (Prelude.Header ''Removed all headers'')
    else \<exists>d. pop_back_to_loop E fuel height (wrap256 work) st =
        Ok (wrap256 (work + headers_work E (map kh_header (takeWhile (not_below height) hs))), st\<lparr>st_headers := d\<rparr>) \<and>
      dq_ok d \<and> rev (dq_items d) = dropWhile (not_below height) hs"
  using assms
proof (induction hs arbitrary: st fuel work)
  case Nil
  then obtain n where "fuel = Suc n" by (cases fuel) auto
  then show ?case
    using Nil hdq.pop_back_empty [of "st_headers st"] header_reads(1) [of st]
    by (auto simp: header_items_def intro!: exI [of _ "st_headers st"])
next
  case (Cons x hs)
  then obtain n where n: "fuel = Suc n" "length hs < n" by (cases fuel) auto
  have items: "header_items st = rev hs @ [x]" using Cons.prems(2) by (metis rev_rev_ident rev.simps(2))
  have h: "HeaderQueue_height E st = WorkHeader_height x"
    using header_reads(1) [OF Cons.prems(1)] items by simp
  show ?case
  proof (cases "not_below height x")
    case False
    then show ?thesis
      using Cons.prems h n by (auto simp: not_below_def header_items_def intro!: exI [of _ "st_headers st"])
  next
    case True
    obtain d where d: "dq_pop_back (headers_dq E) (st_headers st) = (Some x, d)" "dq_ok d" "dq_items d = rev hs"
      using hdq.pop_back [OF Cons.prems(1)] items by (auto simp: header_items_def)
    have step: "pop_back_to_loop E fuel height (wrap256 work) st =
        pop_back_to_loop E n height (wrap256 (work + WorkHeader_work E x)) (st\<lparr>st_headers := d\<rparr>)"
      using True h d(1) by (simp add: n(1) not_below_def u256_add_wrap)
    have tw: "takeWhile (not_below height) (x # hs) = x # takeWhile (not_below height) hs"
      and dw: "dropWhile (not_below height) (x # hs) = dropWhile (not_below height) hs" using True by simp_all
    have upd: "st\<lparr>st_headers := d, st_headers := d'\<rparr> = st\<lparr>st_headers := d'\<rparr>" for d' by simp
    have w: "work + headers_work E (map kh_header (x # takeWhile (not_below height) hs)) =
        work + WorkHeader_work E x + headers_work E (map kh_header (takeWhile (not_below height) hs))"
      by (simp add: WorkHeader_work_def)
    show ?thesis
      using Cons.IH [of "st\<lparr>st_headers := d\<rparr>" n "work + WorkHeader_work E x"] d(2,3) n(2)
      unfolding step tw dw w upd by simp
  qed
qed

lemma not_below_suffix:
  assumes "chain_ok E c (header_items st)"
  shows "takeWhile (not_below h) (rev (header_items st)) = rev (drop (h - WorkHeader_height (hd (header_items st))) (header_items st))"
    and "dropWhile (not_below h) (rev (header_items st)) = rev (take (h - WorkHeader_height (hd (header_items st))) (header_items st))"
proof -
  let ?hs = "header_items st" and ?k = "h - WorkHeader_height (hd (header_items st))"
  have "list_all (not_below h) (rev (drop ?k ?hs))"
    using chain_heights [OF assms] by (auto simp: list_all_length not_below_def rev_nth)
  moreover have "take ?k ?hs = [] \<or> \<not> not_below h (hd (rev (take ?k ?hs)))"
  proof (cases "take ?k ?hs = []")
    case False
    define j where "j = min ?k (length ?hs) - 1"
    have j: "j < length ?hs" "j < ?k" using False by (cases ?hs; simp add: j_def)+
    have "hd (rev (take ?k ?hs)) = take ?k ?hs ! j"
      using False by (simp add: j_def hd_rev last_conv_nth min.commute)
    then have "hd (rev (take ?k ?hs)) = ?hs ! j" unfolding nth_take [OF j(2)] .
    moreover have "WorkHeader_height (hd ?hs) + j < h" using j(2) by arith
    ultimately show ?thesis using chain_heights [OF assms j(1)] by (simp add: not_below_def)
  qed simp
  moreover have "rev ?hs = rev (drop ?k ?hs) @ rev (take ?k ?hs)" by (simp flip: rev_append)
  ultimately show "takeWhile (not_below h) (rev ?hs) = rev (drop ?k ?hs)"
    and "dropWhile (not_below h) (rev ?hs) = rev (take ?k ?hs)"
    using takeWhile_split [of "not_below h" "rev (drop ?k ?hs)" "rev (take ?k ?hs)"] by simp_all
qed

lemma pop_back_to_chain:
  assumes inv: "dq_ok (st_headers st)" "chain_ok E c (header_items st)"
    and ok: "HeaderQueue_pop_back_to E st h = Ok (work, st')"
  defines "k \<equiv> h - WorkHeader_height (hd (header_items st))"
  shows "\<exists>d. st' = st\<lparr>st_headers := d\<rparr> \<and> dq_ok d \<and> dq_items d = take k (header_items st) \<and>
    work = wrap256 (headers_work E (map kh_header (drop k (header_items st))))"
proof -
  have "HeaderQueue_pop_back_to E st h = pop_back_to_loop E (Suc (length (header_items st))) h (wrap256 0) st"
    using header_reads(2) [OF inv(1)] by (simp add: HeaderQueue_pop_back_to_def)
  then show ?thesis
    using pop_back_to_loop_eq [OF inv(1) refl, of "Suc (length (header_items st))" h 0] ok
    unfolding not_below_suffix [OF inv(2)] k_def [symmetric]
    by (auto simp: rev_map [symmetric] simp del: pop_back_to_loop.simps split: if_splits)
qed

section \<open>Adding a header\<close>

lemma get_by_height_Some:
  assumes "dq_ok (st_headers st)" and "HeaderQueue_get_by_height E st h None = Ok (Some x)"
  shows "header_items st \<noteq> []" and "WorkHeader_height (hd (header_items st)) \<le> h"
    and "h - WorkHeader_height (hd (header_items st)) < length (header_items st)"
    and "x = header_items st ! (h - WorkHeader_height (hd (header_items st)))"
  using assms(2) header_reads(3,4) [OF assms(1)]
  by (auto simp: HeaderQueue_get_by_height_def ok_simps not_less split: if_splits)

text \<open>The computation of \<^verbatim>\<open>calculate_next_target\<close> is the formula, or the target of the header before.\<close>

lemma calculate_next_target_spec:
  assumes ok: "HeaderQueue_calculate_next_target E st (kh_header x) first = Ok t"
    and cfg: "st_header_config st = Some c"
  shows "if hc_retargeting c
    then \<exists>f. HeaderQueue_get_by_height E st first None = Ok (Some f) \<and> WorkHeader_time f \<le> WorkHeader_time x \<and>
      t = retarget_spec E c f x
    else t = WrappedHeader_target E (kh_header x)"
proof (cases "hc_retargeting c")
  case False
  then show ?thesis
    using ok cfg by (simp add: HeaderQueue_calculate_next_target_def HeaderQueue_config_def WrappedHeader_target_def WrappedHeader_bits_def)
next
  case True
  then obtain f where get: "HeaderQueue_get_by_height E st first None = Ok (Some f)"
      and le: "WorkHeader_time f \<le> WorkHeader_time x" and small: "hc_target_timespan c * 4 < 2 ^ 32"
      and t: "t = (let timespan = (if WorkHeader_time x - WorkHeader_time f < hc_target_timespan c div 4 then hc_target_timespan c div 4
          else if WorkHeader_time x - WorkHeader_time f > hc_target_timespan c * 4 then hc_target_timespan c * 4
          else WorkHeader_time x - WorkHeader_time f)
        in min (u256_from_compact_target E (compact_target_from_u256 E (u256_mul (WrappedHeader_target E (kh_header x))
            (WrappedHeader_u32_to_u256 timespan) div WrappedHeader_u32_to_u256 (hc_target_timespan c))))
          (u256_from_compact_target E (hc_max_target c)))"
    using ok cfg
    by (auto simp: HeaderQueue_calculate_next_target_def HeaderQueue_config_def ok_simps Let_def WorkHeader_time_def
        WrappedHeader_time_def split: if_splits)
  have "(if a < b div 4 then b div 4 else if a > b * 4 then b * 4 else a) = max (b div 4) (min (4 * b) a)" for a b :: nat
    by auto
  moreover have "max (b div 4) (min (4 * b) a) < 2 ^ 32 \<and> b < 2 ^ 32" if "b * 4 < 2 ^ 32" for a b :: nat
    using that by auto
  ultimately have "t = retarget_spec E c f x"
    using small unfolding t retarget_spec_def Let_def by (simp add: u32_to_u256_value u256_mul_def)
  then show ?thesis using True get le by auto
qed

lemma get_next_target_ok:
  assumes ok: "dq_ok (st_headers st)" and cfg: "st_header_config st = Some c" and chain: "chain_ok E c (header_items st)"
    and height: "WorkHeader_height y = WorkHeader_height (last (header_items st)) + 1"
    and target: "HeaderQueue_get_next_target E st (kh_header y) (kh_header (last (header_items st))) initial_height cache = Ok (t, cache')"
  shows "target_ok E c (header_items st @ [y]) (length (header_items st)) t"
proof -
  let ?hs = "header_items st" and ?h = "WorkHeader_height y" and ?n = "hc_retarget_interval c"
  define x where "x = last ?hs"
  have ne: "?hs \<noteq> []" using chain by (simp add: chain_ok_def)
  have at: "(?hs @ [y]) ! (length ?hs - 1) = x" using ne by (simp add: nth_append x_def last_conv_nth)
  have last_h: "?h = WorkHeader_height (hd ?hs) + length ?hs"
    using chain_last_height [OF chain] height ne by (cases ?hs) simp_all
  have wh: "wh_height (kh_header y) = ?h" by (simp add: WorkHeader_height_def)
  show ?thesis
  proof (cases "?h mod ?n = 0")
    case True
    then have le: "?n \<le> ?h" and calc: "HeaderQueue_calculate_next_target E st (kh_header x) (?h - ?n) = Ok t"
      using target cfg by (auto simp: HeaderQueue_get_next_target_def HeaderQueue_config_def ok_simps wh x_def split: if_splits)
    show ?thesis
    proof (cases "hc_retargeting c")
      case False
      then show ?thesis
        using calculate_next_target_spec [OF calc cfg] True at by (simp add: target_ok_def Let_def nth_append)
    next
      case re: True
      then obtain f where f: "HeaderQueue_get_by_height E st (?h - ?n) None = Ok (Some f)" "WorkHeader_time f \<le> WorkHeader_time x"
          and t: "t = retarget_spec E c f x"
        using calculate_next_target_spec [OF calc cfg] by auto
      have "f = (?hs @ [y]) ! (length ?hs - ?n)" if "?n \<le> length ?hs"
      proof -
        have "?h - ?n - WorkHeader_height (hd ?hs) = length ?hs - ?n" using last_h that by simp
        then show ?thesis using get_by_height_Some(3,4) [OF ok f(1)] by (simp add: nth_append)
      qed
      moreover have "t \<le> u256_from_compact_target E (hc_max_target c)" by (simp add: t retarget_spec_def Let_def)
      ultimately show ?thesis using True re at f(2) t by (auto simp: target_ok_def Let_def)
    qed
  next
    case False
    have "WorkHeader_height x mod ?n = 0 \<or> WrappedHeader_bits (kh_header x) \<noteq> hc_max_target c \<Longrightarrow>
        search_target_bits E st c initial_height (wh_height (kh_header x)) (WrappedHeader_bits (kh_header x)) cache =
        Ok (WrappedHeader_bits (kh_header x), cache)"
      by (cases "wh_height (kh_header x)") (auto simp: WorkHeader_height_def)
    then show ?thesis
      using False target cfg at unfolding x_def [symmetric]
      by (auto simp: target_ok_def Let_def HeaderQueue_get_next_target_def HeaderQueue_config_def ok_simps wh
          WrappedHeader_target_def WrappedHeader_bits_def WorkHeader_time_def WrappedHeader_time_def mult.commute
          split: if_splits)
  qed
qed

lemma validate_time_median:
  assumes ok: "dq_ok (st_headers st)" and chain: "chain_ok E c (header_items st)"
    and len: "11 \<le> length (header_items st)" and val: "HeaderQueue_validate_time E st header = Ok ()"
  shows "sort (map WorkHeader_time (drop (length (header_items st) - 11) (header_items st))) ! 5 < WrappedHeader_time header"
proof -
  let ?hs = "header_items st" and ?n = "length (header_items st)"
  define h0 where "h0 = WorkHeader_height (hd ?hs)"
  have ne: "?hs \<noteq> []" using len by auto
  have height: "HeaderQueue_height E st = h0 + (?n - 1)"
    using header_reads(1) [OF ok] ne chain_last_height [OF chain] by (simp add: h0_def)
  have get: "HeaderQueue_get_by_height E st i (Some h0) = Ok (vec_get ?hs (i - h0))" if "h0 \<le> i" for i
    using that header_reads(4) [OF ok] by (simp add: HeaderQueue_get_by_height_def)
  have init: "HeaderQueue_get_initial_height E st = Ok h0"
    using header_reads(3) [OF ok] ne by (simp add: h0_def)
  define lo where "lo = h0 + (?n - 1) - 10"
  have lo: "lo = h0 + (?n - 11)" "sub_w (h0 + (?n - 1)) 10 = Ok lo" "Suc (h0 + (?n - 1)) = h0 + ?n"
    using len by (simp_all add: lo_def sub_w_def)
  have "map_r (\<lambda>prev_height.
          bnd (HeaderQueue_get_by_height E st prev_height (Some h0)) (\<lambda>item.
          bnd (ok_or (Prelude.Header ''Deque does not contain any elements'') item) (\<lambda>inner.
          Ok (WorkHeader_time inner)))) [lo..<h0 + ?n] =
      Ok (map (\<lambda>i. WorkHeader_time (?hs ! (i - h0))) [lo..<h0 + ?n])"
    by (rule map_r_Ok) (auto simp: get lo(1) vec_get_def)
  moreover have "map (\<lambda>i. WorkHeader_time (?hs ! (i - h0))) [lo..<h0 + ?n] = map WorkHeader_time (drop (?n - 11) ?hs)"
    by (rule nth_equalityI) (auto simp: lo(1))
  ultimately show ?thesis
    using val unfolding HeaderQueue_validate_time_def init height bnd_simps Let_def lo(2,3)
    by (auto simp: ok_simps)
qed

text \<open>One accepted header extends the chain by one link.\<close>

lemma add_header_step_Inr:
  assumes ok: "dq_ok (st_headers st)" and cfg: "st_header_config st = Some c"
    and chain: "chain_ok E c (header_items st)" and prev: "kh_header (last (header_items st)) = prev"
    and room: "length (header_items st) < u32_space - 1"
    and step: "add_header_step E (prev, header) (st, wrap256 work, cache) = Ok (st', work', cache')"
  shows "\<exists>d cw x. st_current_work st = Some cw \<and> kh_header x = header \<and>
    st' = st\<lparr>st_headers := d, st_current_work := Some (u256_add cw (WrappedHeader_work E header))\<rparr> \<and>
    dq_ok d \<and> dq_items d = header_items st @ [x] \<and> chain_ok E c (header_items st @ [x]) \<and>
    work' = wrap256 (work + WrappedHeader_work E header)"
proof -
  from step obtain cw target h initial_height where
      height: "wh_height header = wh_height prev + 1"
      and hash: "WrappedHeader_prev_blockhash header = WrappedHeader_block_hash E prev"
      and time: "11 \<le> length (header_items st) \<longrightarrow> HeaderQueue_validate_time E st header = Ok ()"
      and target: "HeaderQueue_get_next_target E st header prev initial_height cache = Ok (target, cache')"
      and pow: "WrappedHeader_validate_pow E header target = Ok h"
      and cw: "st_current_work st = Some cw"
      and st': "st' = st\<lparr>st_headers := dq_push_back (headers_dq E) (st_headers st)
           (WorkHeader_new header (u256_add cw (WrappedHeader_work E header))),
         st_current_work := Some (u256_add cw (WrappedHeader_work E header))\<rparr>"
      and work': "work' = wrap256 (work + WrappedHeader_work E header)"
    using hdq.length_items
    by (auto simp: add_header_step_def ok_simps Let_def u256_add_wrap HeaderQueue_current_work_def header_items_def
        split: if_splits)
  define x where "x = WorkHeader_new header (u256_add cw (WrappedHeader_work E header))"
  have x: "kh_header x = header" by (simp add: x_def WorkHeader_new_def)
  have link: "link_ok E (last (header_items st)) x"
    using height hash prev x by (auto simp: link_ok_def WorkHeader_height_def WorkHeader_block_hash_def)
  then have "target_ok E c (header_items st @ [x]) (length (header_items st)) target"
    using get_next_target_ok [OF ok cfg chain _ target [folded prev x]] by (simp add: link_ok_def)
  moreover have "header_validate_pow E (wh_header (kh_header x)) target = Ok h"
    using pow x by (simp add: WrappedHeader_validate_pow_def)
  ultimately have "chain_ok E c (header_items st @ [x])"
    using validate_time_median [OF ok chain] time x by (intro chain_ok_snoc [OF chain link]) (simp_all add: WorkHeader_time_def)
  then show ?thesis
    using hdq.push_back [OF ok, of x] room cw x st' work' unfolding x_def header_items_def by blast
qed

lemma add_headers_fold:
  assumes "dq_ok (st_headers st)" and "st_header_config st = Some c" and "chain_ok E c (header_items st)"
    and "kh_header (last (header_items st)) = prev" and "length (header_items st) + length hs < u32_space"
    and "st_current_work st = Some (wrap256 cw)"
    and "fold_r (add_header_step E) (zip (prev # hs) hs) (st, wrap256 work, cache) = Ok (st', work', cache')"
  shows "\<exists>d xs. map kh_header xs = hs \<and>
    st' = st\<lparr>st_headers := d, st_current_work := Some (wrap256 (cw + headers_work E hs))\<rparr> \<and>
    dq_ok d \<and> dq_items d = header_items st @ xs \<and> chain_ok E c (header_items st @ xs) \<and>
    work' = wrap256 (work + headers_work E hs)"
  using assms
proof (induction hs arbitrary: st prev cw work cache)
  case Nil
  then show ?case by (auto simp: header_items_def intro!: exI [of _ "st_headers st"])
next
  case (Cons h hs)
  then obtain st1 work1 cache1 where 1: "add_header_step E (prev, h) (st, wrap256 work, cache) = Ok (st1, work1, cache1)"
      and rest: "fold_r (add_header_step E) (zip (h # hs) hs) (st1, work1, cache1) = Ok (st', work', cache')"
    by (auto simp: bnd_Inr_iff)
  have room: "length (header_items st) < u32_space - 1" using Cons.prems(5) by simp
  obtain d x where x: "kh_header x = h"
      and st1: "st1 = st\<lparr>st_headers := d, st_current_work := Some (wrap256 (cw + WrappedHeader_work E h))\<rparr>"
      and d: "dq_ok d" "dq_items d = header_items st @ [x]" "chain_ok E c (header_items st @ [x])"
      and work1: "work1 = wrap256 (work + WrappedHeader_work E h)"
    using add_header_step_Inr [OF Cons.prems(1-4) room 1] Cons.prems(6) by (auto simp: u256_add_wrap)
  have "\<exists>d' xs. map kh_header xs = hs \<and>
    st' = st1\<lparr>st_headers := d', st_current_work := Some (wrap256 (cw + WrappedHeader_work E h + headers_work E hs))\<rparr> \<and>
    dq_ok d' \<and> dq_items d' = header_items st1 @ xs \<and> chain_ok E c (header_items st1 @ xs) \<and>
    work' = wrap256 (work + WrappedHeader_work E h + headers_work E hs)"
    by (rule Cons.IH) (use Cons.prems(2,5) d x rest in \<open>simp_all add: st1 work1\<close>)
  then obtain d' xs where "map kh_header xs = hs" "dq_ok d'" "dq_items d' = header_items st @ x # xs"
      "chain_ok E c (header_items st @ x # xs)" "work' = wrap256 (work + headers_work E (h # hs))"
      "st' = st\<lparr>st_headers := d', st_current_work := Some (wrap256 (cw + headers_work E (h # hs)))\<rparr>"
    using d by (auto simp: st1 add.assoc)
  then show ?case using x by (intro exI [of _ d'] exI [of _ "x # xs"]) simp
qed

lemma verify_and_add_Inr:
  assumes ok: "dq_ok (st_headers st)" and cfg: "st_header_config st = Some c"
    and chain: "header_items st = [] \<or> chain_ok E c (header_items st)"
    and above: "header_items st \<noteq> [] \<longrightarrow> WorkHeader_height (last (header_items st)) < wh_height (hd hs)"
    and room: "length (header_items st) + length hs < u32_space" and cw: "st_current_work st = Some (wrap256 cw)"
    and add: "HeaderQueue_verify_and_add_headers E st hs = Ok (work, st')"
  shows "\<exists>d xs. header_items st \<noteq> [] \<and> hs \<noteq> [] \<and> map kh_header xs = hs \<and>
    st' = st\<lparr>st_headers := d, st_current_work := Some (wrap256 (cw + headers_work E hs))\<rparr> \<and>
    dq_ok d \<and> dq_items d = header_items st @ xs \<and> chain_ok E c (header_items st @ xs) \<and>
    work = wrap256 (headers_work E hs)"
proof -
  let ?hs = "header_items st"
  obtain first prev cache where first: "vec_first hs = Some first" and nz: "wh_height first \<noteq> 0"
      and ne: "?hs \<noteq> []" and ge: "WorkHeader_height (hd ?hs) \<le> wh_height first - 1"
      and prev: "vec_get ?hs (wh_height first - 1 - WorkHeader_height (hd ?hs)) = Some prev"
      and fold: "fold_r (add_header_step E) (zip (kh_header prev # hs) hs) (st, wrap256 0, \<lambda>_. None) = Ok (st', work, cache)"
    using add header_reads(3,4) [OF ok]
    by (auto simp: HeaderQueue_verify_and_add_headers_def HeaderQueue_get_by_height_def ok_simps not_less)
  have ch: "chain_ok E c ?hs" using chain ne by simp
  have hd: "hd hs = first" "hs \<noteq> []" using first by (auto simp: vec_first_Some_iff)
  define i where "i = wh_height first - 1 - WorkHeader_height (hd ?hs)"
  have i: "i < length ?hs" "prev = ?hs ! i" using prev by (auto simp: i_def ok_simps)
  have "WorkHeader_height (hd ?hs) + (length ?hs - 1) < wh_height first"
    using above ne chain_last_height [OF ch] hd by simp
  then have "length ?hs - 1 \<le> i" unfolding i_def by arith
  then have last: "last ?hs = prev" using i ne by (simp add: last_conv_nth) (metis Suc_pred le_antisym length_greater_0_conv less_Suc_eq_le)
  show ?thesis
    using add_headers_fold [OF ok cfg ch _ room cw fold] last ne hd(2) by auto
qed

lemma u256_sub_wrap: "u256_sub (wrap256 (a + b)) a = wrap256 b"
proof -
  have "(int ((a + b) mod 2 ^ 256) - int a) mod 2 ^ 256 = int b mod 2 ^ 256"
    by (simp add: zmod_int mod_diff_left_eq)
  then show ?thesis by (simp add: u256_sub_def wrap256_def nat_mod_distrib)
qed

lemma prune_headers_eq:
  assumes "dq_ok d" and "n = length (dq_items d)"
  shows "\<exists>d'. prune_headers E m n (wrap256 (headers_work E (map kh_header (dq_items d)) + e)) d =
      (wrap256 (headers_work E (map kh_header (dq_items d')) + e), d') \<and>
    dq_ok d' \<and> dq_items d' = drop (n - m) (dq_items d)"
  using assms
proof (induction n arbitrary: d)
  case (Suc n)
  show ?case
  proof (cases "Suc n > m")
    case True
    obtain x xs where xs: "dq_items d = x # xs" using Suc.prems(2) by (cases "dq_items d") auto
    obtain d1 where d1: "dq_pop_front (headers_dq E) d = (Some x, d1)" "dq_ok d1" "dq_items d1 = xs"
      using hdq.pop_front [OF Suc.prems(1) xs] by blast
    have "u256_sub (wrap256 (headers_work E (map kh_header (dq_items d)) + e)) (WorkHeader_work E x) =
        wrap256 (headers_work E (map kh_header (dq_items d1)) + e)"
      using u256_sub_wrap [of "WorkHeader_work E x"] by (simp add: xs d1(3) WorkHeader_work_def add.assoc)
    moreover have "n = length (dq_items d1)" using Suc.prems(2) xs d1(3) by simp
    ultimately show ?thesis
      using Suc.IH [OF d1(2)] d1 xs True by (simp add: Suc_diff_le)
  next
    case False
    then show ?thesis using Suc.prems(1) by (intro exI [of _ d]) simp
  qed
qed auto

text \<open>
  The reorganisation at the start of \<^verbatim>\<open>add_into_iter\<close>: the headers at and above the height of the
  first new one are removed, and something is removed exactly if that height is not above the queue's.
\<close>

lemma reorg_pop:
  assumes ok: "dq_ok (st_headers st)" and chain: "chain_ok E c (header_items st)"
    and pop: "if h \<le> HeaderQueue_height E st then HeaderQueue_pop_back_to E st h = Ok (removed, st1)
      else removed = wrap256 0 \<and> st1 = st"
  shows "\<exists>k d. st1 = st\<lparr>st_headers := d\<rparr> \<and> dq_ok d \<and> dq_items d = take k (header_items st) \<and>
    removed = wrap256 (headers_work E (map kh_header (drop k (header_items st)))) \<and>
    (take k (header_items st) \<noteq> [] \<longrightarrow> WorkHeader_height (last (take k (header_items st))) < h) \<and>
    (drop k (header_items st) \<noteq> [] \<longleftrightarrow> h \<le> HeaderQueue_height E st)"
proof (cases "h \<le> HeaderQueue_height E st")
  case True
  let ?hs = "header_items st" and ?k = "h - WorkHeader_height (hd (header_items st))"
  have ne: "?hs \<noteq> []" using chain by (simp add: chain_ok_def)
  obtain d where d: "st1 = st\<lparr>st_headers := d\<rparr>" "dq_ok d" "dq_items d = take ?k ?hs"
      "removed = wrap256 (headers_work E (map kh_header (drop ?k ?hs)))"
    using pop True pop_back_to_chain [OF ok chain, of h removed st1] by auto
  have "WorkHeader_height (last (take ?k ?hs)) < h" if "take ?k ?hs \<noteq> []"
  proof -
    have ch: "chain_ok E c (take ?k ?hs)"
      using chain_ok_prefix [of E c "take ?k ?hs" "drop ?k ?hs"] chain that by auto
    have "hd (take ?k ?hs) = hd ?hs" "0 < ?k" using that by (cases ?k; cases ?hs; simp)+
    then show ?thesis using chain_last_height [OF ch] by (simp add: min_def split: if_splits)
  qed
  moreover have "?k < length ?hs"
  proof -
    have "h \<le> WorkHeader_height (hd ?hs) + (length ?hs - 1)" "0 < length ?hs"
      using chain_last_height [OF chain] header_reads(1) [OF ok] ne True by simp_all
    then show ?thesis by arith
  qed
  ultimately show ?thesis using d True by (intro exI [of _ ?k] exI [of _ d]) simp
next
  case False
  have "header_items st \<noteq> []" using chain by (simp add: chain_ok_def)
  then show ?thesis using False pop ok header_reads(1) [OF ok]
    by (intro exI [of _ "length (header_items st)"] exI [of _ "st_headers st"]) (simp add: header_items_def)
qed

text \<open>The steps of a successful call of \<^verbatim>\<open>add_into_iter\<close>.\<close>

lemma add_into_iter_steps:
  assumes "HeaderQueue_add_into_iter E st hs = Ok st'" and "st_header_config st = Some c"
  obtains first removed st1 added st2 cw where "vec_first hs = Some first"
    and "if wh_height first \<le> HeaderQueue_height E st
       then HeaderQueue_pop_back_to E st (wh_height first) = Ok (removed, st1) else removed = wrap256 0 \<and> st1 = st"
    and "HeaderQueue_verify_and_add_headers E st1 hs = Ok (added, st2)" and "removed < added"
    and "st_current_work st2 = Some cw"
    and "st' = (let p = prune_headers E (hc_max_length c) (HeaderQueue_len E st2) cw (st_headers st2)
       in st2\<lparr>st_headers := snd p, st_current_work := Some (fst p)\<rparr>)"
  using assms
  by (fastforce simp: HeaderQueue_add_into_iter_def HeaderQueue_config_def ok_simps Let_def case_prod_unfold not_le
      split: if_splits)

text \<open>What a successful call of \<^verbatim>\<open>add\<close> does to the queue.\<close>

lemma HeaderQueue_add_Inr:
  assumes inv: "headers_inv E st" and cfg: "st_header_config st = Some c"
    and cw: "st_current_work st = Some (wrap256 (headers_work E (map kh_header (header_items st)) + e))"
    and add: "HeaderQueue_add E st hs = Ok st'"
  shows "\<exists>d kept dropped xs. header_items st = kept @ dropped \<and> kept \<noteq> [] \<and> hs \<noteq> [] \<and> map kh_header xs = hs \<and>
    chain_ok E c (kept @ xs) \<and>
    dq_ok d \<and> dq_items d = drop (length (kept @ xs) - hc_max_length c) (kept @ xs) \<and>
    st' = st\<lparr>st_headers := d, st_current_work :=
      Some (wrap256 (headers_work E (map kh_header (dq_items d)) + (e + headers_work E (map kh_header dropped))))\<rparr> \<and>
    wrap256 (headers_work E (map kh_header dropped)) < wrap256 (headers_work E hs) \<and>
    (dropped \<noteq> [] \<longleftrightarrow> wh_height (hd hs) \<le> HeaderQueue_height E st)"
proof -
  have ok: "dq_ok (st_headers st)" and chain: "chain_ok E c (header_items st)"
      and len: "length (header_items st) \<le> hc_max_length c" "hc_max_length c < 2 ^ 31"
    using inv cfg by (auto simp: headers_inv_def)
  have n: "length hs \<le> 1000" and into: "HeaderQueue_add_into_iter E st hs = Ok st'"
    using add by (auto simp: HeaderQueue_add_def MAX_HEADERS_RELAY_ONE_TIME_def ok_simps split: if_splits)
  from add_into_iter_steps [OF into cfg] obtain first removed st1 added st2 cw2
    where first: "vec_first hs = Some first"
      and pop: "if wh_height first \<le> HeaderQueue_height E st
         then HeaderQueue_pop_back_to E st (wh_height first) = Ok (removed, st1) else removed = wrap256 0 \<and> st1 = st"
      and add2: "HeaderQueue_verify_and_add_headers E st1 hs = Ok (added, st2)" and more: "removed < added"
      and cw2: "st_current_work st2 = Some cw2"
      and st': "st' = (let p = prune_headers E (hc_max_length c) (HeaderQueue_len E st2) cw2 (st_headers st2)
         in st2\<lparr>st_headers := snd p, st_current_work := Some (fst p)\<rparr>)" .
  have hd: "hd hs = first" using first by (auto simp: vec_first_Some_iff)
  define kept where "kept k = take k (header_items st)" for k
  define dropped where "dropped k = drop k (header_items st)" for k
  from reorg_pop [OF ok chain pop] obtain k d1 where st1: "st1 = st\<lparr>st_headers := d1\<rparr>"
      and d1: "dq_ok d1" "dq_items d1 = kept k" and removed: "removed = wrap256 (headers_work E (map kh_header (dropped k)))"
      and above: "kept k \<noteq> [] \<longrightarrow> WorkHeader_height (last (kept k)) < wh_height first"
      and some: "dropped k \<noteq> [] \<longleftrightarrow> wh_height (hd hs) \<le> HeaderQueue_height E st"
    unfolding kept_def dropped_def hd by blast
  have items: "header_items st = kept k @ dropped k" by (simp add: kept_def dropped_def)
  have ch: "kept k = [] \<or> chain_ok E c (kept k)" using chain_ok_prefix [of E c "kept k" "dropped k"] chain items by auto
  have cw1: "st_current_work st1 = Some (wrap256 (headers_work E (map kh_header (header_items st)) + e))" by (simp add: st1 cw)
  have room: "length (header_items st1) + length hs < u32_space"
    using len n by (simp add: st1 d1(2) u32_space_def kept_def)
  obtain d2 xs where xs: "kept k \<noteq> []" "hs \<noteq> []" "map kh_header xs = hs" "dq_ok d2" "dq_items d2 = kept k @ xs"
      "chain_ok E c (kept k @ xs)" "added = wrap256 (headers_work E hs)"
      and st2: "st2 = st1\<lparr>st_headers := d2, st_current_work :=
         Some (wrap256 (headers_work E (map kh_header (header_items st)) + e + headers_work E hs))\<rparr>"
    using verify_and_add_Inr [OF _ _ _ _ room cw1 add2, of c] ch above cfg d1 hd by (auto simp: st1)
  let ?w = "\<lambda>d. wrap256 (headers_work E (map kh_header (dq_items d)) + (e + headers_work E (map kh_header (dropped k))))"
  have w: "headers_work E (map kh_header (header_items st)) + e + headers_work E hs =
      headers_work E (map kh_header (dq_items d2)) + (e + headers_work E (map kh_header (dropped k)))"
    unfolding items xs(5) using xs(3) by simp
  have "cw2 = ?w d2" using cw2 by (simp add: st2 w)
  then obtain d where d: "prune_headers E (hc_max_length c) (length (dq_items d2)) cw2 d2 = (?w d, d)"
      "dq_ok d" "dq_items d = drop (length (dq_items d2) - hc_max_length c) (dq_items d2)"
    using prune_headers_eq [OF xs(4) refl, of "hc_max_length c" "e + headers_work E (map kh_header (dropped k))"] by auto
  have len2: "HeaderQueue_len E st2 = length (dq_items d2)" using header_reads(2) [of st2] xs(4) by (simp add: st2)
  have "st' = st\<lparr>st_headers := d, st_current_work := Some (?w d)\<rparr>"
    unfolding st' len2 using d(1) by (simp add: st2 st1)
  then show ?thesis using xs d(2,3) more removed items some by metis
qed

lemma HeaderQueue_add_inv:
  assumes inv: "headers_inv E st" and w: "st_current_work st = Some w" "w < 2 ^ 256" and add: "HeaderQueue_add E st hs = Ok st'"
  shows "headers_inv E st'"
proof -
  obtain c where c: "st_header_config st = Some c" "0 < hc_max_length c" "hc_max_length c < 2 ^ 31"
    using inv by (auto simp: headers_inv_def)
  obtain e where "w = wrap256 (headers_work E (map kh_header (header_items st)) + e)"
    using wrap256_any [OF w(2)] by blast
  then have cw: "st_current_work st = Some (wrap256 (headers_work E (map kh_header (header_items st)) + e))"
    using w(1) by simp
  from HeaderQueue_add_Inr [OF inv c(1) cw add]
  obtain d kept xs w' where d: "dq_ok d" "dq_items d = drop (length (kept @ xs) - hc_max_length c) (kept @ xs)"
      "chain_ok E c (kept @ xs)" "kept \<noteq> []" and st': "st' = st\<lparr>st_headers := d, st_current_work := Some w'\<rparr>"
    by blast
  have "chain_ok E c (dq_items d)"
    unfolding d(2) by (rule chain_ok_drop [OF d(3)]) (use c(2) d(4) in \<open>cases kept; simp\<close>)
  moreover have "length (dq_items d) \<le> hc_max_length c" unfolding d(2) by simp
  ultimately show ?thesis using d(1) c by (simp add: headers_inv_def st')
qed

lemma configure_inv:
  assumes "0 < hc_max_length c" and "hc_max_length c < 2 ^ 31" and "dq_ok (st_headers st)"
  shows "headers_inv E (HeaderQueue_configure E st c)"
    and "header_items (HeaderQueue_configure E st c) = [HeaderConfig_work_header E c]"
proof -
  let ?d = "DequeExtension_clear (headers_dq E) (st_headers st)"
  have "dq_ok ?d" "dq_items ?d = []" 
    using clear_loop_items [OF headers_laws assms(3) refl] hdq.len by (simp_all add: DequeExtension_clear_def)
  then have "dq_ok (dq_push_front (headers_dq E) ?d x)" "dq_items (dq_push_front (headers_dq E) ?d x) = [x]" for x
    using hdq.push_front [of ?d x] by (simp_all add: u32_space_def)
  then show "headers_inv E (HeaderQueue_configure E st c)"
    and "header_items (HeaderQueue_configure E st c) = [HeaderConfig_work_header E c]"
    using assms by (auto simp: headers_inv_def HeaderQueue_configure_def Let_def header_items_def chain_ok_def median_ok_def pow_ok_def
        HeaderConfig_work_header_def)
qed

end

text \<open>
  The states of the light client: a configuration, and then accepted calls of \<^verbatim>\<open>add\<close>.
\<close>

inductive headers_reachable :: "'x contract_ext_scheme \<Rightarrow> header_config \<Rightarrow> store \<Rightarrow> bool" for E c where
  configure: "dq_ok (st_headers st) \<Longrightarrow> headers_reachable E c (HeaderQueue_configure E st c)"
| add: "headers_reachable E c st \<Longrightarrow> HeaderQueue_add E st hs = Ok st' \<Longrightarrow> headers_reachable E c st'"

text \<open>How far \<^verbatim>\<open>CURRENT_WORK\<close> is above the work of the headers in the queue.\<close>

definition work_drift :: "'x ext_scheme \<Rightarrow> store \<Rightarrow> nat \<Rightarrow> bool" where
  "work_drift E st e \<longleftrightarrow>
     st_current_work st = Some (wrap256 (headers_work E (map kh_header (header_items st)) + e))"

lemma reachable_headers_inv:
  assumes "contract_deques E" and "0 < hc_max_length c" and "hc_max_length c < 2 ^ 31"
    and "header_work E (hc_trusted_header c) < 2 ^ 256" and "headers_reachable E c st"
  shows "headers_inv E st \<and> st_header_config st = Some c \<and> (\<exists>e. work_drift E st e)"
  using assms(5)
proof induction
  case (configure st)
  let ?st = "HeaderQueue_configure E st c"
  have "header_items ?st = [HeaderConfig_work_header E c]"
    using contract_deques.configure_inv(2) [OF assms(1-3) configure] .
  moreover have "st_current_work ?st = Some (header_work E (hc_trusted_header c))"
    by (simp add: HeaderQueue_configure_def Let_def WorkHeader_new_def WrappedHeader_work_def WrappedHeader_new_def)
  ultimately have "work_drift E ?st 0"
    using assms(4) by (simp add: work_drift_def HeaderConfig_work_header_def WorkHeader_new_def wrap256_def
        WrappedHeader_work_def WrappedHeader_new_def)
  then show ?case
    using contract_deques.configure_inv(1) [OF assms(1-3) configure]
    by (auto simp: HeaderQueue_configure_def Let_def)
next
  case (add st hs st')
  then obtain e where e: "work_drift E st e" by blast
  then have "headers_inv E st'"
    using contract_deques.HeaderQueue_add_inv [OF assms(1) _ _ _ add.hyps(2)] add.IH
    by (auto simp: work_drift_def wrap256_def)
  moreover have "\<exists>d w e. st' = st\<lparr>st_headers := d, st_current_work := Some w\<rparr> \<and> work_drift E st' e"
    using contract_deques.HeaderQueue_add_Inr [OF assms(1) _ _ _ add.hyps(2), of c e] add.IH e
    by (auto simp: work_drift_def)
  ultimately show ?case using add.IH by auto
qed

text \<open>
  C6: The light client always holds a valid chain. In every state it can reach from its
  configuration, the headers have consecutive heights and each names the hash of the one before it;
  each obeys the median-time rule over its eleven predecessors in the queue; there are between one
  and \<^verbatim>\<open>max_length\<close> of them; and each but the first carries a proof of work for the target its
  predecessors determine. At a retargeting height that target is at most the maximum, and it is the
  formula's, from the target of the header before and the time since the header one interval
  earlier clamped to a quarter and four times the timespan, whenever that earlier header is still in
  the queue (the front is pruned). At other heights, and with retargeting off, it is the target of
  the header before. On a network with minimum-difficulty blocks it is, at other heights, the
  maximum for a header later than twice the spacing and otherwise the target of the header
  before, if that one is not itself a minimum-difficulty block inside an interval; for a header on
  time after such a block, nothing is said about which earlier target the search finds.
\<close>

theorem header_chain_valid:
  assumes "contract_deques E" and "0 < hc_max_length c" and "hc_max_length c < 2 ^ 31"
    and "header_work E (hc_trusted_header c) < 2 ^ 256" and "headers_reachable E c st"
  shows "successively (link_ok E) (header_items st) \<and> median_ok (header_items st) \<and> pow_ok E c (header_items st) \<and>
    0 < length (header_items st) \<and> length (header_items st) \<le> hc_max_length c"
  using reachable_headers_inv [OF assms] by (auto simp: headers_inv_def chain_ok_def)

text \<open>
  C20: Only more work replaces headers. An accepted call of \<^verbatim>\<open>add\<close> keeps a nonempty prefix of the
  queue, appends the given headers to it and prunes the front to \<^verbatim>\<open>max_length\<close>; the headers it
  drops from the end carry strictly less work than the ones it adds.
\<close>

theorem header_add_more_work:
  assumes "contract_deques E" and "0 < hc_max_length c" and "hc_max_length c < 2 ^ 31"
    and "header_work E (hc_trusted_header c) < 2 ^ 256" and "headers_reachable E c st"
    and "HeaderQueue_add E st hs = Ok st'"
  shows "\<exists>kept dropped. header_items st = kept @ dropped \<and> kept \<noteq> [] \<and>
    map kh_header (header_items st') =
      drop (length kept + length hs - hc_max_length c) (map kh_header kept @ hs) \<and>
    wrap256 (headers_work E (map kh_header dropped)) < wrap256 (headers_work E hs)"
proof -
  have inv: "headers_inv E st" "st_header_config st = Some c" and "\<exists>e. work_drift E st e"
    using reachable_headers_inv [OF assms(1-5)] by auto
  then obtain e where e: "st_current_work st = Some (wrap256 (headers_work E (map kh_header (header_items st)) + e))"
    by (auto simp: work_drift_def)
  obtain d kept dropped xs w where d: "header_items st = kept @ dropped" "kept \<noteq> []" "map kh_header xs = hs"
      "dq_items d = drop (length (kept @ xs) - hc_max_length c) (kept @ xs)"
      "wrap256 (headers_work E (map kh_header dropped)) < wrap256 (headers_work E hs)"
      and st': "st' = st\<lparr>st_headers := d, st_current_work := Some w\<rparr>"
    using contract_deques.HeaderQueue_add_Inr [OF assms(1) inv e assms(6)] by blast
  have "map kh_header (header_items st') = drop (length (kept @ xs) - hc_max_length c) (map kh_header (kept @ xs))"
    by (simp only: st' header_items_simps d(4) drop_map)
  moreover have "length xs = length hs" using d(3) by auto
  ultimately show ?thesis using d by (intro exI [of _ kept] exI [of _ dropped]) simp
qed

text \<open>
  C38: The work counter drifts at every reorganisation. \<^verbatim>\<open>CURRENT_WORK\<close> exceeds the work of the
  headers in the queue by an amount that grows, at every accepted call of \<^verbatim>\<open>add\<close>, by the work
  of the headers dropped from the end: the work of a replaced branch is never taken off.
\<close>

theorem reorg_work_drift:
  assumes "contract_deques E" and "headers_inv E st" and "work_drift E st e" and "HeaderQueue_add E st hs = Ok st'"
  shows "\<exists>kept dropped. header_items st = kept @ dropped \<and>
    work_drift E st' (e + headers_work E (map kh_header dropped)) \<and>
    (dropped \<noteq> [] \<longleftrightarrow> wh_height (hd hs) \<le> HeaderQueue_height E st)"
proof -
  obtain c where c: "st_header_config st = Some c" using assms(2) by (auto simp: headers_inv_def)
  show ?thesis
    using contract_deques.HeaderQueue_add_Inr [OF assms(1,2) c _ assms(4), of e] assms(3)
    by (auto simp: work_drift_def)
qed

text \<open>
  C37: Removing headers down to a height always returns. For a valid chain and a height above zero,
  \<^verbatim>\<open>pop_back_to\<close> leaves exactly the headers below the height and returns the work of the others;
  for height zero it ends with an error.
\<close>

theorem pop_back_to_returns:
  assumes "contract_deques E" and "dq_ok (st_headers st)" and "chain_ok E c (header_items st)"
  shows "HeaderQueue_pop_back_to E st 0 = Err (Prelude.Header ''Removed all headers'') \<and>
    (\<forall>h > 0. \<exists>st'. HeaderQueue_pop_back_to E st h =
        Ok (wrap256 (headers_work E (map kh_header (filter (\<lambda>x. h \<le> WorkHeader_height x) (header_items st)))), st') \<and>
      header_items st' = filter (\<lambda>x. WorkHeader_height x < h) (header_items st))"
proof -
  let ?hs = "header_items st"
  have loop: "if dropWhile (not_below h) (rev ?hs) = [] \<and> h = 0
    then HeaderQueue_pop_back_to E st h = Err (Prelude.Header ''Removed all headers'')
    else \<exists>d. HeaderQueue_pop_back_to E st h =
        Ok (wrap256 (headers_work E (map kh_header (takeWhile (not_below h) (rev ?hs)))), st\<lparr>st_headers := d\<rparr>) \<and>
      dq_ok d \<and> rev (dq_items d) = dropWhile (not_below h) (rev ?hs)" for h
  proof -
    have eq: "HeaderQueue_pop_back_to E st h = pop_back_to_loop E (Suc (length ?hs)) h (wrap256 0) st" for h
      using contract_deques.header_reads(2) [OF assms(1,2)] by (simp add: HeaderQueue_pop_back_to_def)
    have "length (rev ?hs) < Suc (length ?hs)" by simp
    from contract_deques.pop_back_to_loop_eq [OF assms(1,2) refl this, of h 0]
    show ?thesis unfolding eq by (simp only: add_0)
  qed
  note parts = contract_deques.not_below_suffix [OF assms(1,3), unfolded chain_take_drop [OF assms(3)]]
  have "HeaderQueue_pop_back_to E st 0 = Err (Prelude.Header ''Removed all headers'')"
    using loop [of 0] by (simp add: not_below_def)
  moreover have "\<exists>st'. HeaderQueue_pop_back_to E st h =
        Ok (wrap256 (headers_work E (map kh_header (filter (\<lambda>x. h \<le> WorkHeader_height x) ?hs))), st') \<and>
      header_items st' = filter (\<lambda>x. WorkHeader_height x < h) ?hs" if "h > 0" for h
    using loop [of h] that unfolding parts by (auto simp: rev_map [symmetric])
  ultimately show ?thesis by simp
qed

text \<open>
  C39: A retargeting interval whose last header is older than its first cannot be passed. When the
  next height is a retargeting height, the queue still holds the header that opened the interval and
  the last header of the queue has an earlier timestamp, no call of \<^verbatim>\<open>add\<close> appends to the queue,
  however the new headers look: the next target is not computed from the smallest timespan, the
  subtraction of the two timestamps underflows. Only a call that replaces the last header is accepted.
\<close>

theorem retarget_time_underflow:
  assumes deques: "contract_deques E" and bounds: "0 < hc_max_length c" "hc_max_length c < 2 ^ 31"
      "header_work E (hc_trusted_header c) < 2 ^ 256"
    and reach: "headers_reachable E c st"
    and retarget: "hc_retargeting c" "Suc (HeaderQueue_height E st) mod hc_retarget_interval c = 0"
    and first: "0 < hc_retarget_interval c" "hc_retarget_interval c \<le> length (header_items st)"
    and older: "WorkHeader_time (last (header_items st)) <
      WorkHeader_time (header_items st ! (length (header_items st) - hc_retarget_interval c))"
    and add: "HeaderQueue_add E st hs = Ok st'"
  shows "wh_height (hd hs) \<le> HeaderQueue_height E st"
proof (rule ccontr)
  let ?hs = "header_items st" and ?n = "hc_retarget_interval c"
  assume above: "\<not> ?thesis"
  have inv: "headers_inv E st" "st_header_config st = Some c" and "\<exists>e. work_drift E st e"
    using reachable_headers_inv [OF deques bounds reach] by auto
  then obtain e where e: "st_current_work st = Some (wrap256 (headers_work E (map kh_header ?hs) + e))"
    by (auto simp: work_drift_def)
  obtain kept dropped xs where xs: "hs \<noteq> []" "map kh_header xs = hs" "chain_ok E c (kept @ xs)"
      and parts: "?hs = kept @ dropped" "dropped = []"
    using contract_deques.HeaderQueue_add_Inr [OF deques inv e add] above by blast
  then have chain: "chain_ok E c (?hs @ xs)" by simp
  from xs(1,2) obtain y ys where y: "xs = y # ys" by (cases xs) auto
  have ne: "?hs \<noteq> []" using first by auto
  have at: "(?hs @ xs) ! length ?hs = y" "(?hs @ xs) ! (length ?hs - 1) = last ?hs"
      "(?hs @ xs) ! (length ?hs - ?n) = ?hs ! (length ?hs - ?n)"
    using ne first by (simp_all add: nth_append last_conv_nth y)
  have "link_ok E (last ?hs) y"
    using chain ne by (simp add: chain_ok_def successively_append_iff y)
  then have "WorkHeader_height y = Suc (HeaderQueue_height E st)"
    using contract_deques.header_reads(1) [OF deques, of st] inv(1) ne by (simp add: headers_inv_def link_ok_def)
  moreover obtain t where "target_ok E c (?hs @ xs) (length ?hs) t"
    using chain ne unfolding chain_ok_def pow_ok_def by (elim conjE allE [of _ "length ?hs"]) (auto simp: y)
  ultimately show False using at retarget first older by (simp add: target_ok_def Let_def)
qed

end
