(* ===== verification/CheckpointQueue.thy ===== *)
theory CheckpointQueue
  imports State
begin

text \<open>
  \<^verbatim>\<open>CheckpointQueue\<close> of \<^verbatim>\<open>checkpoint.rs\<close>: the stored chain of checkpoints, its state machine
  (\<^verbatim>\<open>maybe_step\<close>), signing, fee adjustment and pruning.
\<close>

section \<open>Indexes and access\<close>

definition CheckpointQueue_config :: "store \<Rightarrow> checkpoint_config result" where
  "CheckpointQueue_config st = unwrap (st_checkpoint_config st)"

definition CheckpointQueue_index :: "store \<Rightarrow> u32 result" where
  "CheckpointQueue_index st = unwrap (st_building_index st)"

definition CheckpointQueue_first_unhandled_confirmed_index :: "store \<Rightarrow> u32 result" where
  "CheckpointQueue_first_unhandled_confirmed_index st = unwrap (st_first_unhandled_confirmed_index st)"

definition CheckpointQueue_confirmed_index :: "store \<Rightarrow> u32 option" where
  "CheckpointQueue_confirmed_index st = st_confirmed_index st"

definition CheckpointQueue_reset :: "'x contract_ext_scheme \<Rightarrow> store \<Rightarrow> store" where
  "CheckpointQueue_reset E st =
     st\<lparr>st_building_index := Some 0, st_first_unhandled_confirmed_index := None,
        st_confirmed_index := None,
        st_checkpoints := DequeExtension_clear (checkpoints_dq E) (st_checkpoints st)\<rparr>"

definition CheckpointQueue_len :: "'x contract_ext_scheme \<Rightarrow> store \<Rightarrow> u32" where
  "CheckpointQueue_len E st = dq_length (checkpoints_dq E) (st_checkpoints st)"

definition CheckpointQueue_is_empty :: "'x contract_ext_scheme \<Rightarrow> store \<Rightarrow> bool" where
  "CheckpointQueue_is_empty E st \<longleftrightarrow> CheckpointQueue_len E st = 0"

definition CheckpointQueue_get_deque_index :: "store \<Rightarrow> u32 \<Rightarrow> u32 \<Rightarrow> u32 result" where
  "CheckpointQueue_get_deque_index st index queue_len =
     bnd (CheckpointQueue_index st) (\<lambda>self_index.
     bnd (add_u32 self_index 1) (\<lambda>n.
     bnd (sub_w n queue_len) (\<lambda>start.
     if index > self_index \<or> index < start then Err (App ''Index out of bounds'')
     else Ok (index - start))))"

definition CheckpointQueue_get :: "'x contract_ext_scheme \<Rightarrow> store \<Rightarrow> u32 \<Rightarrow> checkpoint result" where
  "CheckpointQueue_get E st index =
     bnd (CheckpointQueue_get_deque_index st index (CheckpointQueue_len E st)) (\<lambda>i.
     unwrap (dq_get (checkpoints_dq E) (st_checkpoints st) i))"

definition CheckpointQueue_set ::
  "'x contract_ext_scheme \<Rightarrow> store \<Rightarrow> u32 \<Rightarrow> checkpoint \<Rightarrow> store result"
where
  "CheckpointQueue_set E st index checkpoint =
     bnd (CheckpointQueue_get_deque_index st index (CheckpointQueue_len E st)) (\<lambda>i.
     Ok (st\<lparr>st_checkpoints := DequeExtension_set (st_checkpoints st) i checkpoint\<rparr>))"

definition CheckpointQueue_all ::
  "'x contract_ext_scheme \<Rightarrow> store \<Rightarrow> (u32 \<times> checkpoint) list result"
where
  "CheckpointQueue_all E st =
     (let queue_len = CheckpointQueue_len E st
      in map_r (\<lambda>i.
           bnd (unwrap (dq_get (checkpoints_dq E) (st_checkpoints st) i)) (\<lambda>checkpoint.
           bnd (CheckpointQueue_index st) (\<lambda>index.
           bnd (add_u32 index 1) (\<lambda>n.
           bnd (sub_w n (queue_len - i)) (\<lambda>k.
           Ok (k, checkpoint)))))) [0..<queue_len])"

definition CheckpointQueue_building :: "'x contract_ext_scheme \<Rightarrow> store \<Rightarrow> checkpoint result" where
  "CheckpointQueue_building E st =
     bnd (CheckpointQueue_index st) (\<lambda>index. CheckpointQueue_get E st index)"

definition CheckpointQueue_signing :: "'x contract_ext_scheme \<Rightarrow> store \<Rightarrow> checkpoint option result" where
  "CheckpointQueue_signing E st =
     (if CheckpointQueue_len E st < 2 then Ok None
      else bnd (CheckpointQueue_index st) (\<lambda>index.
           bnd (sub_w index 1) (\<lambda>i.
           bnd (CheckpointQueue_get E st i) (\<lambda>second.
           Ok (if cp_status second \<noteq> Signing then None else Some second)))))"

definition CheckpointQueue_completed ::
  "'x contract_ext_scheme \<Rightarrow> store \<Rightarrow> u32 \<Rightarrow> checkpoint list result"
where
  "CheckpointQueue_completed E st limit =
     (let length = CheckpointQueue_len E st
      in if length = 0 then Ok []
         else bnd (CheckpointQueue_signing E st) (\<lambda>signing.
              let skip = (if signing \<noteq> None then 2 else 1)
              in bnd (CheckpointQueue_index st) (\<lambda>index.
                 let last = saturating_sub index (skip - 1)
                 in bnd (sub_w length skip) (\<lambda>n.
                    bnd (sub_w last (min limit n)) (\<lambda>start.
                    map_r (CheckpointQueue_get E st) [start..<last])))))"

definition CheckpointQueue_last_completed_index :: "'x contract_ext_scheme \<Rightarrow> store \<Rightarrow> u32 result" where
  "CheckpointQueue_last_completed_index E st =
     bnd (CheckpointQueue_signing E st) (\<lambda>signing.
     bnd (CheckpointQueue_index st) (\<lambda>index.
     ok_or (App ''No completed checkpoints yet'')
       (if signing \<noteq> None then checked_sub index 2 else checked_sub index 1)))"

definition CheckpointQueue_first_index :: "'x contract_ext_scheme \<Rightarrow> store \<Rightarrow> u32 result" where
  "CheckpointQueue_first_index E st =
     bnd (CheckpointQueue_index st) (\<lambda>index.
     bnd (add_u32 index 1) (\<lambda>n. sub_w n (CheckpointQueue_len E st)))"

definition CheckpointQueue_last_completed :: "'x contract_ext_scheme \<Rightarrow> store \<Rightarrow> checkpoint result" where
  "CheckpointQueue_last_completed E st =
     bnd (CheckpointQueue_last_completed_index E st) (\<lambda>index. CheckpointQueue_get E st index)"

definition CheckpointQueue_last_completed_tx :: "'x contract_ext_scheme \<Rightarrow> store \<Rightarrow> transaction result" where
  "CheckpointQueue_last_completed_tx E st =
     bnd (CheckpointQueue_last_completed E st) (Checkpoint_checkpoint_tx E)"

definition CheckpointQueue_completed_txs ::
  "'x contract_ext_scheme \<Rightarrow> store \<Rightarrow> u32 \<Rightarrow> transaction list result"
where
  "CheckpointQueue_completed_txs E st limit =
     bnd (CheckpointQueue_completed E st limit) (\<lambda>cps. map_r (Checkpoint_checkpoint_tx E) cps)"

definition CheckpointQueue_last_completed_checkpoint_tx ::
  "'x contract_ext_scheme \<Rightarrow> store \<Rightarrow> transaction list result"
where
  "CheckpointQueue_last_completed_checkpoint_tx E st =
     bnd (CheckpointQueue_completed E st 1) (\<lambda>cps.
     case vec_last cps of
       Some completed \<Rightarrow> bnd (Checkpoint_checkpoint_tx E completed) (\<lambda>tx. Ok [tx])
     | None \<Rightarrow> Ok [])"

definition CheckpointQueue_active_sigset :: "'x contract_ext_scheme \<Rightarrow> store \<Rightarrow> signatory_set result" where
  "CheckpointQueue_active_sigset E st =
     bnd (CheckpointQueue_building E st) (\<lambda>building. Ok (cp_sigset building))"

definition CheckpointQueue_sigset :: "'x contract_ext_scheme \<Rightarrow> store \<Rightarrow> u32 \<Rightarrow> signatory_set result" where
  "CheckpointQueue_sigset E st index =
     bnd (CheckpointQueue_get E st index) (\<lambda>cp. Ok (cp_sigset cp))"

section \<open>Unconfirmed checkpoints and fees\<close>

definition CheckpointQueue_num_unconfirmed :: "'x contract_ext_scheme \<Rightarrow> store \<Rightarrow> u32 result" where
  "CheckpointQueue_num_unconfirmed E st =
     bnd (CheckpointQueue_signing E st) (\<lambda>signing.
     let signing_offset = (if signing \<noteq> None then 1 else 0)
     in bnd (CheckpointQueue_index st) (\<lambda>index.
        case checked_sub index (1 + signing_offset) of
          None \<Rightarrow> Ok 0
        | Some last_completed_index \<Rightarrow>
            (case CheckpointQueue_confirmed_index st of
               None \<Rightarrow> bnd (sub_w (CheckpointQueue_len E st) 1) (\<lambda>n. sub_w n signing_offset)
             | Some confirmed_index \<Rightarrow> sub_w last_completed_index confirmed_index)))"

definition CheckpointQueue_first_unconfirmed_index ::
  "'x contract_ext_scheme \<Rightarrow> store \<Rightarrow> u32 option result"
where
  "CheckpointQueue_first_unconfirmed_index E st =
     bnd (CheckpointQueue_num_unconfirmed E st) (\<lambda>num_unconf.
     if num_unconf = 0 then Ok None
     else bnd (CheckpointQueue_signing E st) (\<lambda>signing.
          let signing_offset = (if signing \<noteq> None then 1 else 0)
          in bnd (CheckpointQueue_index st) (\<lambda>index.
             bnd (sub_w index num_unconf) (\<lambda>n.
             bnd (sub_w n signing_offset) (\<lambda>i. Ok (Some i))))))"

text \<open>The loops over a range of indexes that stop at the first checkpoint that is not complete.\<close>

fun take_complete :: "'x contract_ext_scheme \<Rightarrow> store \<Rightarrow> u32 list \<Rightarrow> (u32 \<times> checkpoint) list result" where
  "take_complete E st [] = Ok []"
| "take_complete E st (i # is) =
     bnd (CheckpointQueue_get E st i) (\<lambda>cp.
     if cp_status cp \<noteq> Complete then Ok []
     else bnd (take_complete E st is) (\<lambda>rest. Ok ((i, cp) # rest)))"

definition CheckpointQueue_unconfirmed :: "'x contract_ext_scheme \<Rightarrow> store \<Rightarrow> checkpoint list result" where
  "CheckpointQueue_unconfirmed E st =
     bnd (CheckpointQueue_first_unconfirmed_index E st) (\<lambda>first_unconf_index.
     case first_unconf_index of
       Some first \<Rightarrow>
         bnd (CheckpointQueue_index st) (\<lambda>index.
         bnd (take_complete E st [first..<Suc index]) (\<lambda>cps. Ok (map snd cps)))
     | None \<Rightarrow> Ok [])"

definition CheckpointQueue_unhandled_confirmed :: "'x contract_ext_scheme \<Rightarrow> store \<Rightarrow> u32 list result" where
  "CheckpointQueue_unhandled_confirmed E st =
     (case CheckpointQueue_confirmed_index st of
        None \<Rightarrow> Ok []
      | Some confirmed_index \<Rightarrow>
          bnd (CheckpointQueue_first_unhandled_confirmed_index st) (\<lambda>first.
          bnd (take_complete E st [first..<Suc confirmed_index]) (\<lambda>cps. Ok (map fst cps))))"

definition CheckpointQueue_unconfirmed_fees_paid :: "'x contract_ext_scheme \<Rightarrow> store \<Rightarrow> u64 result" where
  "CheckpointQueue_unconfirmed_fees_paid E st =
     bnd (CheckpointQueue_unconfirmed E st) (\<lambda>cps.
     fold_r (\<lambda>cp fees. bnd (Checkpoint_checkpoint_tx_miner_fees cp) (\<lambda>fee. add_u64 fees fee)) cps 0)"

definition CheckpointQueue_unconfirmed_vbytes ::
  "'x contract_ext_scheme \<Rightarrow> store \<Rightarrow> checkpoint_config \<Rightarrow> u64 result"
where
  "CheckpointQueue_unconfirmed_vbytes E st config =
     bnd (CheckpointQueue_unconfirmed E st) (\<lambda>cps.
     fold_r (\<lambda>cp total. bnd (Checkpoint_est_vsize E cp config (replicate 32 0)) (\<lambda>vbytes. add_u64 total vbytes)) cps 0)"

definition CheckpointQueue_fee_adjustment ::
  "'x contract_ext_scheme \<Rightarrow> store \<Rightarrow> u64 \<Rightarrow> checkpoint_config \<Rightarrow> u64 result"
where
  "CheckpointQueue_fee_adjustment E st fee_rate config =
     bnd (CheckpointQueue_unconfirmed_fees_paid E st) (\<lambda>unconf_fees_paid.
     bnd (CheckpointQueue_unconfirmed_vbytes E st config) (\<lambda>unconf_vbytes.
     bnd (mul_u64 unconf_vbytes fee_rate) (\<lambda>fees.
     Ok (saturating_sub fees unconf_fees_paid))))"

definition CheckpointQueue_calc_fee_checkpoint ::
  "'x contract_ext_scheme \<Rightarrow> store \<Rightarrow> u32 \<Rightarrow> bytes \<Rightarrow> u64 result"
where
  "CheckpointQueue_calc_fee_checkpoint E st cp_index timestamping_commitment =
     bnd (CheckpointQueue_get E st cp_index) (\<lambda>cp.
     bnd (CheckpointQueue_config st) (\<lambda>config.
     bnd (CheckpointQueue_fee_adjustment E st (cp_fee_rate cp) config) (\<lambda>additional_fees.
     bnd (Checkpoint_base_fee E cp config timestamping_commitment) (\<lambda>base_fee.
     add_u64 base_fee additional_fees))))"

definition CheckpointQueue_query_building_miner_fee ::
  "'x contract_ext_scheme \<Rightarrow> store \<Rightarrow> u32 \<Rightarrow> bytes \<Rightarrow> u64 result"
where
  "CheckpointQueue_query_building_miner_fee E st cp_index timestamping_commitment =
     CheckpointQueue_calc_fee_checkpoint E st cp_index timestamping_commitment"

section \<open>The state machine\<close>

text \<open>The signatory set of a new checkpoint, from the stored validators and keys.\<close>

definition next_sigset :: "'x contract_ext_scheme \<Rightarrow> store \<Rightarrow> env \<Rightarrow> u32 \<Rightarrow> signatory_set result" where
  "next_sigset E st env index =
     SignatorySet_from_validator_ctx E (get_validators st) (map_of (st_sig_keys st)) (env_seconds env) index"

text \<open>The pruning loop; \<open>n\<close> is the counter \<^verbatim>\<open>queue_len\<close>.\<close>

fun prune_checkpoints ::
  "'x contract_ext_scheme \<Rightarrow> store \<Rightarrow> u64 \<Rightarrow> nat \<Rightarrow> checkpoint dq \<Rightarrow> checkpoint dq result"
where
  "prune_checkpoints E st latest 0 cps = Ok cps"
| "prune_checkpoints E st latest (Suc n) cps =
     (case dq_front (checkpoints_dq E) cps of
        None \<Rightarrow> Ok cps
      | Some oldest \<Rightarrow>
          if Suc n \<le> 10 then Ok cps
          else bnd (sub_w latest (Checkpoint_create_time oldest)) (\<lambda>age.
               bnd (CheckpointQueue_config st) (\<lambda>config.
               if age \<le> cc_max_age config then Ok cps
               else prune_checkpoints E st latest n (snd (dq_pop_front (checkpoints_dq E) cps)))))"

definition CheckpointQueue_prune :: "'x contract_ext_scheme \<Rightarrow> store \<Rightarrow> store result" where
  "CheckpointQueue_prune E st =
     bnd (CheckpointQueue_building E st) (\<lambda>building.
     bnd (prune_checkpoints E st (Checkpoint_create_time building) (CheckpointQueue_len E st)
            (st_checkpoints st)) (\<lambda>cps.
     Ok (st\<lparr>st_checkpoints := cps\<rparr>)))"

text \<open>
  The part of \<^verbatim>\<open>should_push\<close> that looks at the checkpoint being built; its result is
  whether the checks of that part pass.
\<close>

definition should_push_building ::
  "'x contract_ext_scheme \<Rightarrow> env \<Rightarrow> store \<Rightarrow> bytes \<Rightarrow> u32 \<Rightarrow> bool result"
where
  "should_push_building E env st timestamping_commitment btc_height =
     bnd (CheckpointQueue_building E st) (\<lambda>building.
     bnd (sub_w (env_seconds env) (Checkpoint_create_time building)) (\<lambda>elapsed.
     bnd (CheckpointQueue_config st) (\<lambda>config.
     if elapsed < cc_min_checkpoint_interval config then Ok False
     else
       bnd (case CheckpointQueue_last_completed_index E st of
              Inr last_completed_index \<Rightarrow>
                bnd (CheckpointQueue_get E st last_completed_index) (\<lambda>last_completed.
                Ok (btc_height < (case cp_signed_at_btc_height last_completed of None \<Rightarrow> 0 | Some h \<Rightarrow> h)))
            | Inl (Fail _) \<Rightarrow> Ok False
            | Inl Panic \<Rightarrow> panic) (\<lambda>backfilling.
       if backfilling then Ok False
       else
         bnd (CheckpointQueue_index st) (\<lambda>index.
         bnd (CheckpointQueue_calc_fee_checkpoint E st index timestamping_commitment) (\<lambda>cp_miner_fees.
         bnd (if elapsed < cc_max_checkpoint_interval config \<or> index = 0
              then bnd (Checkpoint_checkpoint_tx E building) (\<lambda>checkpoint_tx.
                   let has_pending_deposit =
                         (if index = 0 then btx_input checkpoint_tx \<noteq> []
                          else length (btx_input checkpoint_tx) > 1);
                       has_pending_withdrawal = (btx_output checkpoint_tx \<noteq> []);
                       has_pending_transfers = (cp_pending building \<noteq> [])
                   in Ok ((has_pending_deposit \<or> has_pending_withdrawal \<or> has_pending_transfers) \<and>
                          cp_fees_collected building \<ge> cp_miner_fees))
              else Ok True) (\<lambda>ready.
         if \<not> ready then Ok False
         else
           bnd (Checkpoint_calc_total_input_and_output building config) (\<lambda>(input_amount, output_amount).
           bnd (add_u64 output_amount cp_miner_fees) (\<lambda>spent.
           Ok (\<not> input_amount < spent)))))))))) "

definition CheckpointQueue_should_push ::
  "'x contract_ext_scheme \<Rightarrow> env \<Rightarrow> store \<Rightarrow> bytes \<Rightarrow> u32 \<Rightarrow> bool result"
where
  "CheckpointQueue_should_push E env st timestamping_commitment btc_height =
     bnd (CheckpointQueue_signing E st) (\<lambda>signing.
     if signing \<noteq> None then Ok False
     else
       bnd (if CheckpointQueue_is_empty E st then Ok True
            else should_push_building E env st timestamping_commitment btc_height) (\<lambda>ready.
       if \<not> ready then Ok False
       else
         bnd (CheckpointQueue_num_unconfirmed E st) (\<lambda>unconfs.
         bnd (CheckpointQueue_config st) (\<lambda>config.
         if unconfs \<ge> cc_max_unconfirmed_checkpoints config then Ok False
         else
           bnd (CheckpointQueue_index st) (\<lambda>index.
           bnd (if CheckpointQueue_is_empty E st then Ok index else add_u32 index 1) (\<lambda>index.
           bnd (next_sigset E st env index) (\<lambda>sigset.
           Ok (ss_possible_vp sigset \<noteq> 0 \<and> SignatorySet_has_quorum sigset))))))))"

definition CheckpointQueue_maybe_push ::
  "'x contract_ext_scheme \<Rightarrow> env \<Rightarrow> store \<Rightarrow> bool \<Rightarrow> (checkpoint option \<times> store) result"
where
  "CheckpointQueue_maybe_push E env st deposits_enabled =
     bnd (CheckpointQueue_index st) (\<lambda>index.
     bnd (if CheckpointQueue_is_empty E st then Ok (index, st)
          else bnd (add_u32 index 1) (\<lambda>index. Ok (index, st\<lparr>st_building_index := Some index\<rparr>))) (\<lambda>(index, st).
     bnd (next_sigset E st env index) (\<lambda>sigset.
     if ss_possible_vp sigset = 0 then Ok (None, st)
     else if \<not> SignatorySet_has_quorum sigset then Ok (None, st)
     else
       bnd (Checkpoint_new sigset) (\<lambda>cp.
       let st = st\<lparr>st_checkpoints := dq_push_back (checkpoints_dq E) (st_checkpoints st) cp\<rparr>
       in bnd (CheckpointQueue_building E st) (\<lambda>building.
          let building = building\<lparr>cp_deposits_enabled := deposits_enabled\<rparr>
          in bnd (CheckpointQueue_set E st index building) (\<lambda>st.
             Ok (Some building, st)))))))"

text \<open>The fee rate of the next checkpoint, from the confirmations of the previous ones.\<close>

definition next_fee_rate ::
  "'x contract_ext_scheme \<Rightarrow> store \<Rightarrow> checkpoint_config \<Rightarrow> u32 \<Rightarrow> u64 \<Rightarrow> u64 result"
where
  "next_fee_rate E st config btc_height prev_fee_rate =
     bnd (CheckpointQueue_first_unconfirmed_index E st) (\<lambda>first_unconf_index.
     case first_unconf_index of
       Some first_unconf_index \<Rightarrow>
         bnd (CheckpointQueue_get E st first_unconf_index) (\<lambda>first_unconf.
         bnd (sub_w btc_height (case cp_signed_at_btc_height first_unconf of None \<Rightarrow> 0 | Some h \<Rightarrow> h)) (\<lambda>btc_blocks_since_first.
         bnd (CheckpointQueue_last_completed_index E st) (\<lambda>last_unconf_index.
         bnd (CheckpointQueue_get E st last_unconf_index) (\<lambda>last_unconf.
         bnd (sub_w btc_height (case cp_signed_at_btc_height last_unconf of None \<Rightarrow> 0 | Some h \<Rightarrow> h)) (\<lambda>btc_blocks_since_last.
         if btc_blocks_since_first \<ge> cc_target_checkpoint_inclusion config \<and> btc_blocks_since_last > 0
         then adjust_fee_rate prev_fee_rate True config
         else Ok prev_fee_rate)))))
     | None \<Rightarrow>
         (case CheckpointQueue_last_completed_index E st of
            Inr _ \<Rightarrow> adjust_fee_rate prev_fee_rate False config
          | Inl (Fail _) \<Rightarrow> Ok prev_fee_rate
          | Inl Panic \<Rightarrow> panic))"

text \<open>The excess inputs of the previous checkpoint, with a fresh signing state.\<close>

definition carry_input :: "input \<Rightarrow> input result" where
  "carry_input input =
     bnd (ThresholdSig_from_shares (ts_sigs (in_signatures input))) (\<lambda>ts.
     Ok (input\<lparr>in_signatures := ts\<rparr>))"

text \<open>
  What \<^verbatim>\<open>maybe_step\<close> does after a checkpoint was pushed behind an existing one: the previous
  checkpoint is frozen, and its reserve output and what did not fit move to the new one.
\<close>

definition step_advance ::
  "'x contract_ext_scheme \<Rightarrow> store \<Rightarrow> u32 \<Rightarrow> u32 \<Rightarrow> bytes \<Rightarrow> bitcoin_config \<Rightarrow> store result"
where
  "step_advance E st index btc_height timestamping_commitment parent_config =
     (let prev_index = index - 1
      in bnd (CheckpointQueue_calc_fee_checkpoint E st prev_index timestamping_commitment) (\<lambda>cp_fees.
         bnd (CheckpointQueue_config st) (\<lambda>config.
         bnd (CheckpointQueue_get E st prev_index) (\<lambda>prev.
         bnd (BuildingCheckpoint_advance E prev timestamping_commitment cp_fees config)
           (\<lambda>(prev', reserve_outpoint, reserve_value, fees_paid, excess_inputs, excess_outputs).
         bnd (CheckpointQueue_set E st prev_index prev') (\<lambda>st.
         bnd (load (st_fee_pool st)) (\<lambda>fee_pool.
         bnd (mul_u64 fees_paid (bc_units_per_sat parent_config)) (\<lambda>fees.
         bnd (sub_i64 fee_pool (as_i64 fees)) (\<lambda>fee_pool.
         let st = st\<lparr>st_fee_pool := Some fee_pool\<rparr>
         in bnd (next_fee_rate E st config btc_height (cp_fee_rate prev)) (\<lambda>fee_rate.
            bnd (CheckpointQueue_building E st) (\<lambda>building.
            let building = building\<lparr>cp_fee_rate := fee_rate\<rparr>
            in bnd (first_tx building) (\<lambda>tx.
               bnd (Input_new E reserve_outpoint (cp_sigset prev) [0] reserve_value (cc_sigset_threshold config)) (\<lambda>input.
               bnd (map_r carry_input excess_inputs) (\<lambda>carried.
               let tx = tx\<lparr>bt_input := bt_input tx @ [input] @ carried, bt_output := bt_output tx @ excess_outputs\<rparr>
               in CheckpointQueue_set E st index (set_first_tx building tx)))))))))))))))"

definition CheckpointQueue_maybe_step ::
  "'x contract_ext_scheme \<Rightarrow> env \<Rightarrow> store \<Rightarrow> u32 \<Rightarrow> bool \<Rightarrow> bytes \<Rightarrow> bitcoin_config \<Rightarrow> (bool \<times> store) result"
where
  "CheckpointQueue_maybe_step E env st btc_height should_allow_deposits timestamping_commitment parent_config =
     bnd (CheckpointQueue_should_push E env st timestamping_commitment btc_height) (\<lambda>is_should_push.
     if \<not> is_should_push then Ok (False, st)
     else
       bnd (CheckpointQueue_maybe_push E env st should_allow_deposits) (\<lambda>(pushed, st).
       if pushed = None then Ok (False, st)
       else
         bnd (CheckpointQueue_prune E st) (\<lambda>st.
         bnd (CheckpointQueue_index st) (\<lambda>index.
         if index > 0
         then bnd (step_advance E st index btc_height timestamping_commitment parent_config) (\<lambda>st. Ok (True, st))
         else Ok (True, st)))))"

definition CheckpointQueue_sign ::
  "'x contract_ext_scheme \<Rightarrow> store \<Rightarrow> xpub \<Rightarrow> signature list \<Rightarrow> u32 \<Rightarrow> u32 \<Rightarrow> store result"
where
  "CheckpointQueue_sign E st xpub sigs index btc_height =
     bnd (CheckpointQueue_get E st index) (\<lambda>checkpoint.
     let status = cp_status checkpoint
     in bnd (throw_if (status = Building) (Prelude.Checkpoint ''Checkpoint is still building'')) (\<lambda>_.
        bnd (Checkpoint_sign E checkpoint xpub sigs btc_height) (\<lambda>checkpoint.
        let checkpoint = (if status = Signing \<and> Checkpoint_signed checkpoint
                          then (Checkpoint_advance checkpoint)\<lparr>cp_status := Complete\<rparr> else checkpoint)
        in CheckpointQueue_set E st index checkpoint)))"

section \<open>The queue as a list\<close>

definition queue :: "store \<Rightarrow> checkpoint list" where
  "queue st = dq_items (st_checkpoints st)"

text \<open>A well-formed queue whose last checkpoint has index \<open>i\<close>.\<close>

definition queue_ok :: "store \<Rightarrow> u32 \<Rightarrow> bool" where
  "queue_ok st i \<longleftrightarrow> dq_ok (st_checkpoints st) \<and> st_building_index st = Some i \<and> i + 1 < 2 ^ 32 \<and>
     length (queue st) \<le> i + 1"

text \<open>A queue from which nothing was pruned: checkpoint \<open>j\<close> is its element \<open>j\<close>.\<close>

definition unpruned :: "store \<Rightarrow> u32 \<Rightarrow> bool" where
  "unpruned st i \<longleftrightarrow> queue_ok st i \<and> dq_head (st_checkpoints st) = 0 \<and>
     length (queue st) = (if queue st = [] then i else i + 1)"

lemma length_queue: "length (queue st) = dq_len (st_checkpoints st)"
  by (simp add: queue_def)

lemma queue_set_checkpoints [simp]: "queue (st\<lparr>st_checkpoints := d\<rparr>) = dq_items d"
  by (simp add: queue_def)

context contract_deques
begin

lemma len_queue: "CheckpointQueue_len E st = length (queue st)"
  by (simp add: CheckpointQueue_len_def cdq.len queue_def)

lemma is_empty_queue: "CheckpointQueue_is_empty E st \<longleftrightarrow> queue st = []"
  by (simp add: CheckpointQueue_is_empty_def len_queue)

lemma get_deque_index_eq:
  assumes "queue_ok st i"
  shows "CheckpointQueue_get_deque_index st j (length (queue st)) =
    (if i + 1 \<le> j + length (queue st) \<and> j \<le> i then Ok (j + length (queue st) - (i + 1))
     else Err (App ''Index out of bounds''))"
  using assms
  by (auto simp: CheckpointQueue_get_deque_index_def CheckpointQueue_index_def queue_ok_def add_w_def sub_w_def)

lemma get_eq:
  assumes "queue_ok st i"
  shows "CheckpointQueue_get E st j =
    (if i + 1 \<le> j + length (queue st) \<and> j \<le> i then Ok (queue st ! (j + length (queue st) - (i + 1)))
     else Err (App ''Index out of bounds''))"
proof -
  have items: "dq_get (checkpoints_dq E) (st_checkpoints st) k = vec_get (queue st) k" for k
    using assms cdq.get_items [of "st_checkpoints st"] by (simp add: queue_ok_def queue_def)
  have "length (queue st) \<le> i + 1" using assms by (simp add: queue_ok_def)
  then show ?thesis
    by (auto simp: CheckpointQueue_get_def len_queue get_deque_index_eq [OF assms] items vec_get_def)
qed

lemma get_unpruned:
  assumes "unpruned st i"
  shows "CheckpointQueue_get E st j =
    (if j < length (queue st) then Ok (queue st ! j) else Err (App ''Index out of bounds''))"
proof -
  have ok: "queue_ok st i" using assms by (simp add: unpruned_def)
  show ?thesis
  proof (cases "queue st = []")
    case True
    then show ?thesis using get_eq [OF ok] assms by (simp add: unpruned_def)
  next
    case False
    then have "length (queue st) = i + 1" using assms by (simp add: unpruned_def)
    then show ?thesis using get_eq [OF ok, of j] by auto
  qed
qed

lemma set_unpruned:
  assumes "unpruned st i"
  shows "CheckpointQueue_set E st j cp =
    (if j < length (queue st) then Ok (st\<lparr>st_checkpoints := DequeExtension_set (st_checkpoints st) j cp\<rparr>)
     else Err (App ''Index out of bounds''))"
proof -
  have ok: "queue_ok st i" using assms by (simp add: unpruned_def)
  show ?thesis
  proof (cases "queue st = []")
    case True
    then show ?thesis
      using get_deque_index_eq [OF ok] assms by (simp add: unpruned_def CheckpointQueue_set_def len_queue)
  next
    case False
    then have "length (queue st) = i + 1" using assms by (simp add: unpruned_def)
    then show ?thesis
      using get_deque_index_eq [OF ok, of j] by (auto simp: CheckpointQueue_set_def len_queue)
  qed
qed

text \<open>On an unpruned queue, \<^verbatim>\<open>set\<close> is the update of the list.\<close>

lemma set_unpruned_Inr:
  assumes "unpruned st i" and "CheckpointQueue_set E st j cp = Inr st'"
  shows "unpruned st' i" and "queue st' = (queue st)[j := cp]" and "j < length (queue st)"
    and "st' = st\<lparr>st_checkpoints := st_checkpoints st'\<rparr>"
proof -
  show j: "j < length (queue st)" and st': "st' = st\<lparr>st_checkpoints := st_checkpoints st'\<rparr>"
    using assms(2) unfolding set_unpruned [OF assms(1)] by (auto split: if_splits)
  have st'': "st' = st\<lparr>st_checkpoints := DequeExtension_set (st_checkpoints st) j cp\<rparr>"
    using assms(2) j unfolding set_unpruned [OF assms(1)] by simp
  have len: "j < dq_len (st_checkpoints st)" using j by (simp add: length_queue)
  have head: "dq_head (st_checkpoints st) = 0" and ok: "dq_ok (st_checkpoints st)"
    using assms(1) by (simp_all add: unpruned_def queue_ok_def)
  show q: "queue st' = (queue st)[j := cp]"
    using DequeExtension_set_items [OF head len] by (simp add: st'' queue_def)
  show "unpruned st' i"
    using assms(1) DequeExtension_set_ok [OF ok head len] q
    by (auto simp: unpruned_def queue_ok_def st'')
qed

lemma get_set_unpruned:
  assumes "unpruned st i" and "CheckpointQueue_set E st j cp = Inr st'"
  shows "CheckpointQueue_get E st' k = (if k = j then Ok cp else CheckpointQueue_get E st k)"
  using set_unpruned_Inr [OF assms] assms(1) by (auto simp: get_unpruned)

lemma building_unpruned:
  assumes "unpruned st i"
  shows "CheckpointQueue_building E st =
    (if queue st = [] then Err (App ''Index out of bounds'') else Ok (last (queue st)))"
proof -
  have "CheckpointQueue_index st = Ok i"
    using assms by (simp add: CheckpointQueue_index_def unpruned_def queue_ok_def)
  moreover have "queue st \<noteq> [] \<Longrightarrow> length (queue st) = i + 1" "queue st = [] \<Longrightarrow> i = 0"
    using assms by (simp_all add: unpruned_def)
  ultimately show ?thesis
    using get_unpruned [OF assms] by (auto simp: CheckpointQueue_building_def last_conv_nth)
qed

lemma signing_unpruned:
  assumes "unpruned st i"
  shows "CheckpointQueue_signing E st = Ok (if 2 \<le> length (queue st) \<and>
      cp_status (queue st ! (length (queue st) - 2)) = Signing
    then Some (queue st ! (length (queue st) - 2)) else None)"
proof (cases "2 \<le> length (queue st)")
  case True
  then have i: "length (queue st) = i + 1" using assms by (auto simp: unpruned_def)
  then have "CheckpointQueue_index st = Ok i" "0 < i"
    using assms True by (simp_all add: CheckpointQueue_index_def unpruned_def queue_ok_def)
  then show ?thesis
    using True i get_unpruned [OF assms, of "i - 1"]
    by (simp add: CheckpointQueue_signing_def len_queue sub_w_def numeral_2_eq_2)
qed (simp add: CheckpointQueue_signing_def len_queue)

text \<open>
  On a pruned queue the write goes to the cell of the deque index itself, which is the cell of
  an older checkpoint or of none.
\<close>

lemma set_pruned:
  assumes ok: "queue_ok st i" and head: "dq_head (st_checkpoints st) = start"
    and len: "start + length (queue st) = i + 1" and "0 < start" and j: "start \<le> j" "j \<le> i"
  shows "\<exists>st'. CheckpointQueue_set E st j cp = Ok st' \<and>
    CheckpointQueue_get E st' j = CheckpointQueue_get E st j \<and>
    (2 * start \<le> j \<longrightarrow> CheckpointQueue_get E st' (j - start) = Ok cp)"
proof -
  define d st' where "d = st_checkpoints st"
    and "st' = st\<lparr>st_checkpoints := DequeExtension_set (st_checkpoints st) (j - start) cp\<rparr>"
  have set: "CheckpointQueue_set E st j cp = Ok st'"
    using get_deque_index_eq [OF ok, of j] len j
    by (simp add: CheckpointQueue_set_def len_queue st'_def) (metis add_diff_cancel_right)
  have small: "i + 1 < u32_space" using ok by (simp add: queue_ok_def u32_space_def)
  have dl: "start + dq_len d = i + 1" using len by (simp add: d_def length_queue)
  have pos: "dq_pos d k = start + k" if "k < dq_len d" for k
    using that dl small head by (simp add: dq_pos_def d_def)
  have index: "CheckpointQueue_get_deque_index s k (dq_len d) = Ok (k - start)"
    if "start \<le> k" "k \<le> i" "st_building_index s = Some i" for k s
    using that dl small by (auto simp: CheckpointQueue_get_deque_index_def CheckpointQueue_index_def
        add_w_def sub_w_def u32_space_def)
  have get: "CheckpointQueue_get E s k = unwrap (dq_cells (st_checkpoints s) k)"
    if "start \<le> k" "k \<le> i" "st_building_index s = Some i" "dq_len (st_checkpoints s) = dq_len d"
      "dq_head (st_checkpoints s) = start" for k s
  proof -
    have "dq_pos (st_checkpoints s) (k - start) = k"
      using that small by (simp add: dq_pos_def)
    moreover have "k - start < dq_len d" using that dl by linarith
    ultimately show ?thesis
      using that by (simp add: CheckpointQueue_get_def CheckpointQueue_len_def cdq.len cdq.get index)
  qed
  have bi: "st_building_index st = Some i" using ok by (simp add: queue_ok_def)
  have "j \<noteq> j - start" using j assms(4) by linarith
  then have "CheckpointQueue_get E st' j = CheckpointQueue_get E st j"
    using j bi head by (simp add: get st'_def d_def)
  moreover have "CheckpointQueue_get E st' (j - start) = Ok cp" if "2 * start \<le> j"
    using j that bi head by (simp add: get st'_def d_def)
  ultimately show ?thesis using set by blast
qed

end

text \<open>
  As long as nothing was pruned from the checkpoint queue, \<^verbatim>\<open>set\<close> writes exactly the
  checkpoint with the given index: a later \<^verbatim>\<open>get\<close> of this index returns the new checkpoint
  and every other index returns what it returned before.
\<close>

lemma get_after_set:
  assumes "contract_deques E" and "unpruned st i" and "j < length (queue st)"
  shows "\<exists>st'. CheckpointQueue_set E st j cp = Ok st' \<and> unpruned st' i \<and> queue st' = (queue st)[j := cp] \<and>
    (\<forall>k. CheckpointQueue_get E st' k = (if k = j then Ok cp else CheckpointQueue_get E st k))"
proof -
  obtain st' where st': "CheckpointQueue_set E st j cp = Ok st'"
    using contract_deques.set_unpruned [OF assms(1,2), of j cp] assms(3) by simp
  show ?thesis
    using st' contract_deques.set_unpruned_Inr [OF assms(1,2) st']
      contract_deques.get_set_unpruned [OF assms(1,2) st'] by blast
qed

text \<open>
  C26: Once \<^verbatim>\<open>prune\<close> has removed checkpoints from the front (the queue now starts at index
  \<open>start > 0\<close>), \<^verbatim>\<open>set\<close> of a checkpoint that is in the queue reports success and does not
  change what \<^verbatim>\<open>get\<close> returns for that checkpoint; where the queue is long enough it
  overwrites the checkpoint \<open>start\<close> places before it.
\<close>

theorem set_lost_after_prune:
  assumes "contract_deques E" and "queue_ok st i" and "dq_head (st_checkpoints st) = start"
    and "start + length (queue st) = i + 1" and "0 < start" and "start \<le> j" and "j \<le> i"
  shows "\<exists>st'. CheckpointQueue_set E st j cp = Ok st' \<and>
    CheckpointQueue_get E st' j = CheckpointQueue_get E st j \<and>
    (2 * start \<le> j \<longrightarrow> CheckpointQueue_get E st' (j - start) = Ok cp)"
  using assms by (rule contract_deques.set_pruned)

section \<open>Pushing and pruning\<close>

context contract_deques
begin

lemma prune_checkpoints_suffix:
  assumes "prune_checkpoints E st latest n d = Inr d'" and "dq_ok d" and "n = length (dq_items d)"
  shows "dq_ok d' \<and> (\<exists>k. dq_items d' = drop k (dq_items d) \<and> (k = 0 \<longrightarrow> d' = d) \<and> k \<le> n \<and>
    (k = 0 \<or> 10 \<le> length (dq_items d')) \<and> dq_head d' = (dq_head d + k) mod u32_space)"
  using assms
proof (induction n arbitrary: d)
  case 0
  then show ?case by (auto simp: dq_ok_def dq_items_def intro!: exI [of _ 0])
next
  case (Suc n)
  then obtain x xs where items: "dq_items d = x # xs"
    by (cases "dq_items d") (auto simp del: length_dq_items)
  have front: "dq_front (checkpoints_dq E) d = Some x"
    using cdq.front_items [OF Suc.prems(2)] items by simp
  show ?case
  proof (cases "d' = d")
    case True
    then show ?thesis using Suc.prems(2) by (intro conjI exI [of _ 0]) (simp_all add: dq_ok_def)
  next
    case False
    then have rec: "prune_checkpoints E st latest n (snd (dq_pop_front (checkpoints_dq E) d)) = Inr d'"
        and n: "10 < Suc n"
      using Suc.prems(1) front by (auto simp: ok_simps split: if_splits)
    obtain d1 where d1: "dq_pop_front (checkpoints_dq E) d = (Some x, d1)" "dq_ok d1" "dq_items d1 = xs"
        "dq_head d1 = (dq_head d + 1) mod u32_space"
      using cdq.pop_front [OF Suc.prems(2) items] by blast
    have len: "n = length (dq_items d1)" using Suc.prems(3) items d1(3) by simp
    from Suc.IH [OF rec [unfolded d1(1), simplified] d1(2) len] obtain k where
      k: "dq_ok d'" "dq_items d' = drop k xs" "k = 0 \<or> 10 \<le> length (dq_items d')"
        "dq_head d' = (dq_head d1 + k) mod u32_space" "k \<le> n"
      unfolding d1(3) by blast
    have "10 \<le> length (dq_items d')" using k(2,3) n len d1(3) by auto
    moreover have "dq_head d' = (dq_head d + Suc k) mod u32_space"
      by (simp add: k(4) d1(4) mod_simps)
    ultimately show ?thesis using k(1,2,5) items by (intro conjI exI [of _ "Suc k"]) simp_all
  qed
qed

lemma prune_checkpoints_short:
  "n \<le> 10 \<Longrightarrow> prune_checkpoints E st latest n d = Ok d"
  by (cases n) (auto split: option.splits)

lemma prune_Inr:
  assumes "CheckpointQueue_prune E st = Inr st'" and "queue_ok st i"
  shows "queue_ok st' i \<and> st' = st\<lparr>st_checkpoints := st_checkpoints st'\<rparr> \<and>
    (\<exists>k. queue st' = drop k (queue st) \<and> (k = 0 \<or> 10 \<le> length (queue st')))"
proof -
  obtain d latest where d: "prune_checkpoints E st latest (length (queue st)) (st_checkpoints st) = Inr d"
      and st': "st' = st\<lparr>st_checkpoints := d\<rparr>"
    using assms(1) by (auto simp: CheckpointQueue_prune_def ok_simps len_queue)
  have ok: "dq_ok (st_checkpoints st)" using assms(2) by (simp add: queue_ok_def)
  from prune_checkpoints_suffix [OF d ok] show ?thesis
    using assms(2) by (auto simp: st' queue_def queue_ok_def simp del: length_dq_items)
qed

lemma prune_short:
  assumes "CheckpointQueue_prune E st = Inr st'" and "length (queue st) \<le> 10"
  shows "st' = st"
  using assms prune_checkpoints_short by (auto simp: CheckpointQueue_prune_def ok_simps len_queue)

text \<open>The head cursor tells whether anything was pruned.\<close>

lemma prune_head:
  assumes "CheckpointQueue_prune E st = Inr st'" and "queue_ok st i"
    and "dq_head (st_checkpoints st) = 0" and "dq_head (st_checkpoints st') = 0"
  shows "st' = st"
proof -
  obtain d latest where d: "prune_checkpoints E st latest (length (queue st)) (st_checkpoints st) = Inr d"
      and st': "st' = st\<lparr>st_checkpoints := d\<rparr>"
    using assms(1) by (auto simp: CheckpointQueue_prune_def ok_simps len_queue)
  have ok: "dq_ok (st_checkpoints st)" using assms(2) by (simp add: queue_ok_def)
  have "length (queue st) = length (dq_items (st_checkpoints st))" by (simp only: queue_def)
  note S = prune_checkpoints_suffix [OF d ok this]
  then obtain k where k: "k = 0 \<longrightarrow> d = st_checkpoints st" "k \<le> length (queue st)"
      "dq_head d = (dq_head (st_checkpoints st) + k) mod u32_space" by (elim conjE exE)
  have "length (queue st) < u32_space" using assms(2) by (simp add: queue_ok_def u32_space_def)
  then have "k < u32_space" using k(2) by (rule le_less_trans [rotated])
  then have "k = 0" using k(3) assms(3,4) by (simp add: st')
  then show ?thesis using k(1) by (simp add: st')
qed

lemma queue_ok_push:
  assumes "queue_ok st i" and "Suc i + 1 < 2 ^ 32" and "length (queue st) = i + 1"
  shows "queue_ok (st\<lparr>st_building_index := Some (Suc i),
      st_checkpoints := dq_push_back (checkpoints_dq E) (st_checkpoints st) cp\<rparr>) (Suc i)"
  using assms cdq.push_back [of "st_checkpoints st" cp]
  by (simp add: queue_ok_def queue_def u32_space_def)

end

section \<open>The statuses of the checkpoints\<close>

text \<open>
  The shape of the queue: the last checkpoint is being built, the one before it is being signed
  or complete, and all earlier ones are complete.
\<close>

definition status_ok :: "checkpoint_status list \<Rightarrow> bool" where
  "status_ok ss \<longleftrightarrow> (\<forall>j < length ss.
     (j + 1 = length ss \<longrightarrow> ss ! j = Building) \<and>
     (j + 2 = length ss \<longrightarrow> ss ! j = Signing \<or> ss ! j = Complete) \<and>
     (j + 2 < length ss \<longrightarrow> ss ! j = Complete))"

definition queue_inv :: "store \<Rightarrow> bool" where
  "queue_inv st \<longleftrightarrow> (\<exists>i. unpruned st i) \<and> status_ok (map cp_status (queue st))"

lemma status_okD:
  assumes "status_ok ss"
  shows "j + 1 = length ss \<Longrightarrow> ss ! j = Building"
    and "j + 2 = length ss \<Longrightarrow> ss ! j = Signing \<or> ss ! j = Complete"
    and "j + 2 < length ss \<Longrightarrow> ss ! j = Complete"
  using assms [unfolded status_ok_def, THEN spec, of j] by simp_all

lemma status_update_same:
  "j < length q \<Longrightarrow> cp_status cp = cp_status (q ! j) \<Longrightarrow> map cp_status (q[j := cp]) = map cp_status q"
  by (simp add: map_update) (metis list_update_id nth_map)

lemma index_unpruned: "unpruned st i \<Longrightarrow> CheckpointQueue_index st = Ok i"
  by (simp add: CheckpointQueue_index_def unpruned_def queue_ok_def)

lemma length_unpruned: "unpruned st i \<Longrightarrow> queue st \<noteq> [] \<Longrightarrow> length (queue st) = i + 1"
  by (simp add: unpruned_def)

lemma next_sigset_cong:
  "get_validators st' = get_validators st \<Longrightarrow> st_sig_keys st' = st_sig_keys st \<Longrightarrow>
     next_sigset E st' env i = next_sigset E st env i"
  by (simp add: next_sigset_def)

lemma queue_frame [simp]:
  "queue (st\<lparr>st_fee_pool := a\<rparr>) = queue st"
  "queue (st\<lparr>st_outpoints := b\<rparr>) = queue st"
  "queue (st\<lparr>st_expiration_queue := c\<rparr>) = queue st"
  "queue (st\<lparr>st_recovery_txs := d\<rparr>) = queue st"
  "queue (st\<lparr>st_first_unhandled_confirmed_index := e\<rparr>) = queue st"
  "queue (st\<lparr>st_confirmed_index := f\<rparr>) = queue st"
  by (simp_all add: queue_def)

lemma unpruned_cong:
  "st_checkpoints st' = st_checkpoints st \<Longrightarrow> st_building_index st' = st_building_index st \<Longrightarrow>
     unpruned st' i = unpruned st i"
  by (simp add: unpruned_def queue_ok_def queue_def)

lemma unpruned_frame [simp]:
  "unpruned (st\<lparr>st_fee_pool := a\<rparr>) i = unpruned st i"
  "unpruned (st\<lparr>st_outpoints := b\<rparr>) i = unpruned st i"
  "unpruned (st\<lparr>st_expiration_queue := c\<rparr>) i = unpruned st i"
  "unpruned (st\<lparr>st_recovery_txs := d\<rparr>) i = unpruned st i"
  "unpruned (st\<lparr>st_first_unhandled_confirmed_index := e\<rparr>) i = unpruned st i"
  "unpruned (st\<lparr>st_confirmed_index := f\<rparr>) i = unpruned st i"
  by (rule unpruned_cong, simp_all)+

lemma advance_frame:
  assumes "BuildingCheckpoint_advance E cp tc fees config = Inr (cp', op, rv, paid, xi, xo)"
  shows "cp_status cp' = Signing" and "cp_pending cp' = cp_pending cp" and "cp_sigset cp' = cp_sigset cp"
  using assms by (rule advance_Inr, simp add: Let_def set_first_tx_def)+

lemma set_first_tx_frame [simp]:
  "cp_status (set_first_tx cp tx) = cp_status cp"
  "cp_pending (set_first_tx cp tx) = cp_pending cp"
  "cp_sigset (set_first_tx cp tx) = cp_sigset cp"
  by (simp_all add: set_first_tx_def Let_def)

context contract_deques
begin

lemma unpruned_push:
  fixes cp :: checkpoint
  assumes "unpruned st i" and "length (queue st) + 2 < 2 ^ 32"
  defines "i' \<equiv> (if queue st = [] then i else i + 1)"
  defines "st' \<equiv> st\<lparr>st_building_index := Some i', st_checkpoints := dq_push_back (checkpoints_dq E) (st_checkpoints st) cp\<rparr>"
  shows "unpruned st' i'" and "queue st' = queue st @ [cp]"
proof -
  have ok: "dq_ok (st_checkpoints st)" and head: "dq_head (st_checkpoints st) = 0"
    using assms(1) by (simp_all add: unpruned_def queue_ok_def)
  have "length (dq_items (st_checkpoints st)) < u32_space - 1"
    using assms(2) by (simp add: queue_def u32_space_def)
  from cdq.push_back [OF ok this, of cp]
  have push: "dq_ok (dq_push_back (checkpoints_dq E) (st_checkpoints st) cp)"
      "dq_items (dq_push_back (checkpoints_dq E) (st_checkpoints st) cp) = dq_items (st_checkpoints st) @ [cp]"
      "dq_head (dq_push_back (checkpoints_dq E) (st_checkpoints st) cp) = 0"
    using head by simp_all
  show "queue st' = queue st @ [cp]" using push(2) by (simp add: st'_def queue_def)
  then show "unpruned st' i'"
    using assms(1,2) push by (auto simp: unpruned_def queue_ok_def i'_def st'_def queue_def simp del: length_dq_items)
qed

text \<open>A push that succeeds appends a new checkpoint, which is being built.\<close>

lemma maybe_push_Inr:
  assumes inv: "unpruned st i" and short: "length (queue st) + 2 < 2 ^ 32"
    and push: "CheckpointQueue_maybe_push E env st de = Inr (Some b, st')"
  defines "i' \<equiv> (if queue st = [] then i else i + 1)"
  shows "unpruned st' i'" and "queue st' = queue st @ [b]" and "cp_status b = Building"
    and "cp_pending b = []" and "cp_batches b = [\<lparr>ba_signed_txs = 0, ba_batch = [BitcoinTx_default]\<rparr>]"
    and "next_sigset E st env i' = Inr (cp_sigset b)"
    and "st' = st\<lparr>st_building_index := Some i', st_checkpoints := st_checkpoints st'\<rparr>"
    and "\<exists>cp. Checkpoint_new (cp_sigset b) = Inr cp \<and> b = cp\<lparr>cp_deposits_enabled := de\<rparr>"
proof -
  let ?st1 = "st\<lparr>st_building_index := Some i'\<rparr>"
  have i: "st_building_index st = Some i" using inv by (simp add: unpruned_def queue_ok_def)
  have first: "(if CheckpointQueue_is_empty E st then Ok (i, st)
          else bnd (add_u32 i 1) (\<lambda>index. Ok (index, st\<lparr>st_building_index := Some index\<rparr>))) = Ok (i', ?st1)"
  proof (cases "queue st = []")
    case True
    then show ?thesis using i by (simp add: is_empty_queue i'_def)
  next
    case False
    then have "i + 1 < 2 ^ 32" using length_unpruned [OF inv] short by simp
    then show ?thesis using False by (simp add: is_empty_queue i'_def add_w_def)
  qed
  obtain sigset where sigset: "next_sigset E st env i' = Inr sigset"
    using push by (auto simp: CheckpointQueue_maybe_push_def index_unpruned [OF inv] first bnd_Inr_iff
        next_sigset_cong [of ?st1 st] get_validators_def)
  obtain cp where cp: "Checkpoint_new sigset = Inr cp" by (simp add: Checkpoint_new_def)
  define st2 where "st2 = ?st1\<lparr>st_checkpoints := dq_push_back (checkpoints_dq E) (st_checkpoints st) cp\<rparr>"
  have st2: "unpruned st2 i'" "queue st2 = queue st @ [cp]"
    using unpruned_push [OF inv short, of cp] unfolding st2_def i'_def by simp_all
  have b: "b = cp\<lparr>cp_deposits_enabled := de\<rparr>" and set: "CheckpointQueue_set E st2 i' b = Inr st'"
    using push st2 cp sigset
    by (auto simp: CheckpointQueue_maybe_push_def index_unpruned [OF inv] first Let_def bnd_Inr_iff
        next_sigset_cong [of ?st1 st] get_validators_def st2_def [symmetric] building_unpruned [OF st2(1)]
        split: if_splits)
  have len: "length (queue st) = i'" using inv by (auto simp: i'_def unpruned_def)
  show "unpruned st' i'" using set_unpruned_Inr(1) [OF st2(1) set] .
  show "queue st' = queue st @ [b]"
    using set_unpruned_Inr(2) [OF st2(1) set] by (simp add: st2(2) len [symmetric])
  have "st' = st2\<lparr>st_checkpoints := st_checkpoints st'\<rparr>"
    by (rule set_unpruned_Inr(4) [OF st2(1) set])
  then show "st' = st\<lparr>st_building_index := Some i', st_checkpoints := st_checkpoints st'\<rparr>"
    unfolding st2_def by (cases st') simp
  show "cp_status b = Building" "cp_pending b = []"
      "cp_batches b = [\<lparr>ba_signed_txs = 0, ba_batch = [BitcoinTx_default]\<rparr>]"
      "next_sigset E st env i' = Inr (cp_sigset b)"
      "\<exists>cp. Checkpoint_new (cp_sigset b) = Inr cp \<and> b = cp\<lparr>cp_deposits_enabled := de\<rparr>"
    using cp sigset by (auto simp: b Checkpoint_new_def)
qed

lemma should_push_Inr:
  assumes "unpruned st i" and "CheckpointQueue_should_push E env st tc h = Inr True"
  shows "CheckpointQueue_signing E st = Inr None"
    and "queue st \<noteq> [] \<Longrightarrow> i + 1 < 2 ^ 32"
    and "\<exists>sigset. next_sigset E st env (if queue st = [] then i else i + 1) = Inr sigset \<and>
      ss_possible_vp sigset \<noteq> 0 \<and> SignatorySet_has_quorum sigset"
  using assms(2)
  by (auto simp: CheckpointQueue_should_push_def ok_simps is_empty_queue index_unpruned [OF assms(1)]
      split: if_splits)

text \<open>A checkpoint that should be pushed is pushed.\<close>

lemma should_push_pushes:
  assumes inv: "unpruned st i" and short: "length (queue st) + 2 < 2 ^ 32"
    and should: "CheckpointQueue_should_push E env st tc h = Inr True"
  shows "\<exists>b st'. CheckpointQueue_maybe_push E env st de = Inr (Some b, st')"
proof -
  define i' where "i' = (if queue st = [] then i else i + 1)"
  let ?st1 = "st\<lparr>st_building_index := Some i'\<rparr>"
  have i: "st_building_index st = Some i" using inv by (simp add: unpruned_def queue_ok_def)
  have first: "(if CheckpointQueue_is_empty E st then Ok (i, st)
          else bnd (add_u32 i 1) (\<lambda>index. Ok (index, st\<lparr>st_building_index := Some index\<rparr>))) = Ok (i', ?st1)"
    using should_push_Inr(2) [OF inv should] i by (cases "queue st = []") (simp_all add: is_empty_queue i'_def add_w_def)
  obtain sigset where sigset: "next_sigset E ?st1 env i' = Inr sigset" "ss_possible_vp sigset \<noteq> 0"
      "SignatorySet_has_quorum sigset"
    using should_push_Inr(3) [OF inv should] next_sigset_cong [of ?st1 st E env i']
    by (auto simp: i'_def get_validators_def)
  obtain cp where cp: "Checkpoint_new sigset = Inr cp" by (simp add: Checkpoint_new_def)
  define st2 where "st2 = ?st1\<lparr>st_checkpoints := dq_push_back (checkpoints_dq E) (st_checkpoints st) cp\<rparr>"
  have st2: "unpruned st2 i'" "queue st2 = queue st @ [cp]"
    using unpruned_push [OF inv short, of cp] unfolding st2_def i'_def by simp_all
  have "i' < length (queue st2)" using inv st2(2) by (auto simp: i'_def unpruned_def)
  then show ?thesis
    using sigset cp st2 set_unpruned [OF st2(1), of i']
    by (simp add: CheckpointQueue_maybe_push_def index_unpruned [OF inv] first Let_def st2_def [symmetric]
        building_unpruned [OF st2(1)])
qed

lemma next_fee_rate_bound:
  "next_fee_rate E st config h r = Inr r' \<Longrightarrow> r' = r \<or> r' \<le> cc_max_fee_rate config"
  by (auto simp: next_fee_rate_def ok_simps dest: adjust_fee_rate_Inr
      split: option.splits sum.splits failure.splits if_splits)

text \<open>What the step does to the last two checkpoints.\<close>

lemma step_advance_Inr:
  assumes inv: "unpruned st i" and "0 < i" and step: "step_advance E st i h tc pc = Inr st'"
  obtains config cp_fees prev' op rv paid xi xo fr tx input carried where
    "CheckpointQueue_config st = Inr config"
    "CheckpointQueue_calc_fee_checkpoint E st (i - 1) tc = Inr cp_fees"
    "BuildingCheckpoint_advance E (queue st ! (i - 1)) tc cp_fees config = Inr (prev', op, rv, paid, xi, xo)"
    "first_tx (queue st ! i) = Inr tx"
    "Input_new E op (cp_sigset (queue st ! (i - 1))) [0] rv (cc_sigset_threshold config) = Inr input"
    "map_r carry_input xi = Inr carried"
    "unpruned st' i"
    "queue st' = (queue st)[i - 1 := prev', i := set_first_tx ((queue st ! i)\<lparr>cp_fee_rate := fr\<rparr>)
       (tx\<lparr>bt_input := bt_input tx @ [input] @ carried, bt_output := bt_output tx @ xo\<rparr>)]"
    "st' = st\<lparr>st_fee_pool := st_fee_pool st', st_checkpoints := st_checkpoints st'\<rparr>"
    "fr = cp_fee_rate (queue st ! (i - 1)) \<or> fr \<le> cc_max_fee_rate config"
    "\<exists>p. st_fee_pool st = Some p \<and> st_fee_pool st' = Some (p - as_i64 (paid * bc_units_per_sat pc)) \<and>
       in_i64 (p - as_i64 (paid * bc_units_per_sat pc))"
proof -
  have ne: "queue st \<noteq> []" using inv assms(2) by (auto simp: unpruned_def)
  have len: "length (queue st) = i + 1" using length_unpruned [OF inv ne] .
  have get: "CheckpointQueue_get E st (i - 1) = Ok (queue st ! (i - 1))"
    using get_unpruned [OF inv, of "i - 1"] len by simp
  from step obtain cp_fees config prev' op rv paid xi xo st1 where
      A: "CheckpointQueue_config st = Inr config" "CheckpointQueue_calc_fee_checkpoint E st (i - 1) tc = Inr cp_fees"
        "BuildingCheckpoint_advance E (queue st ! (i - 1)) tc cp_fees config = Inr (prev', op, rv, paid, xi, xo)"
      and st1: "CheckpointQueue_set E st (i - 1) prev' = Inr st1"
    unfolding step_advance_def Let_def get bnd_Inr_iff by (auto simp: bnd_Inr_iff)
  note S1 = set_unpruned_Inr [OF inv st1]
  from step obtain fp fr tx input carried b where
      B: "first_tx (b\<lparr>cp_fee_rate := fr\<rparr>) = Inr tx"
        "CheckpointQueue_building E (st1\<lparr>st_fee_pool := Some fp\<rparr>) = Inr b"
        "Input_new E op (cp_sigset (queue st ! (i - 1))) [0] rv (cc_sigset_threshold config) = Inr input"
        "map_r carry_input xi = Inr carried"
        "CheckpointQueue_set E (st1\<lparr>st_fee_pool := Some fp\<rparr>) i (set_first_tx (b\<lparr>cp_fee_rate := fr\<rparr>)
          (tx\<lparr>bt_input := bt_input tx @ [input] @ carried, bt_output := bt_output tx @ xo\<rparr>)) = Inr st'"
        "next_fee_rate E (st1\<lparr>st_fee_pool := Some fp\<rparr>) config h (cp_fee_rate (queue st ! (i - 1))) = Inr fr"
        "in_i64 fp" "\<exists>p. st_fee_pool st1 = Some p \<and> fp = p - as_i64 (paid * bc_units_per_sat pc)"
    unfolding step_advance_def Let_def get A bnd_simps st1 prod.case by (auto simp: ok_simps)
  let ?st2 = "st1\<lparr>st_fee_pool := Some fp\<rparr>"
  have inv2: "unpruned ?st2 i" and q2: "queue ?st2 = (queue st)[i - 1 := prev']"
    using S1(1,2) by simp_all
  have b: "b = queue st ! i"
    using B(2) len assms(2) unfolding building_unpruned [OF inv2] q2 by (auto simp: last_conv_nth split: if_splits)
  have "first_tx (queue st ! i) = Inr tx" using B(1) by (simp add: b first_tx_def)
  moreover have "st' = st\<lparr>st_fee_pool := st_fee_pool st', st_checkpoints := st_checkpoints st'\<rparr>"
    using set_unpruned_Inr(4) [OF inv2 B(5)] S1(4) by (cases st, cases st1, cases st') simp
  moreover have "\<exists>p. st_fee_pool st = Some p \<and> st_fee_pool st' = Some (p - as_i64 (paid * bc_units_per_sat pc)) \<and>
      in_i64 (p - as_i64 (paid * bc_units_per_sat pc))"
    using B(7,8) arg_cong [OF set_unpruned_Inr(4) [OF inv2 B(5)], of st_fee_pool]
      arg_cong [OF S1(4), of st_fee_pool] by auto
  ultimately show thesis
    using that [OF A] B(3,4) next_fee_rate_bound [OF B(6)] set_unpruned_Inr(1,2) [OF inv2 B(5)] by (simp add: S1(2) b)
qed

lemma status_no_signing:
  assumes inv: "unpruned st i" and "status_ok (map cp_status (queue st))"
    and "CheckpointQueue_signing E st = Inr None" and "j + 1 < length (queue st)"
  shows "cp_status (queue st ! j) = Complete"
proof (cases "j + 2 = length (queue st)")
  case True
  then have "cp_status (queue st ! j) \<noteq> Signing"
    using assms(3) unfolding signing_unpruned [OF inv] True [symmetric] by (auto split: if_splits)
  then show ?thesis using status_okD(2) [OF assms(2), of j] True by auto
next
  case False
  then show ?thesis using status_okD(3) [OF assms(2), of j] assms(4) by simp
qed

lemma set_head: "CheckpointQueue_set E st j cp = Inr st' \<Longrightarrow> dq_head (st_checkpoints st') = dq_head (st_checkpoints st)"
  by (auto simp: CheckpointQueue_set_def ok_simps)

lemma step_advance_head:
  assumes "step_advance E st i h tc pc = Inr st'"
  shows "dq_head (st_checkpoints st') = dq_head (st_checkpoints st)"
proof -
  obtain st1 cp1 p cp2 where "CheckpointQueue_set E st (i - 1) cp1 = Inr st1"
      "CheckpointQueue_set E (st1\<lparr>st_fee_pool := p\<rparr>) i cp2 = Inr st'"
    using assms unfolding step_advance_def Let_def by (auto simp: ok_simps)
  then show ?thesis using set_head by fastforce
qed

text \<open>What a step of the state machine does, unless it prunes: nothing, or a push, followed by freezing the
  previous checkpoint if there is one.\<close>

lemma maybe_step_Inr:
  assumes inv: "unpruned st i" and short: "length (queue st) + 2 < 2 ^ 32"
    and step: "CheckpointQueue_maybe_step E env st h de tc pc = Inr (pushed, st')"
    and head: "dq_head (st_checkpoints st') = 0"
  obtains (none) "st' = st"
  | (first) b where "CheckpointQueue_should_push E env st tc h = Inr True"
      "CheckpointQueue_maybe_push E env st de = Inr (Some b, st')" "queue st = []"
  | (advance) b st1 where "CheckpointQueue_should_push E env st tc h = Inr True"
      "CheckpointQueue_maybe_push E env st de = Inr (Some b, st1)" "queue st \<noteq> []"
      "step_advance E st1 (i + 1) h tc pc = Inr st'"
proof (cases "CheckpointQueue_should_push E env st tc h = Inr True")
  case False
  then show thesis using step none by (auto simp: CheckpointQueue_maybe_step_def bnd_Inr_iff split: if_splits)
next
  case should: True
  obtain b st1 where push: "CheckpointQueue_maybe_push E env st de = Inr (Some b, st1)"
    using should_push_pushes [OF inv short should] by blast
  define i' where "i' = (if queue st = [] then i else i + 1)"
  note P = maybe_push_Inr [OF inv short push, folded i'_def]
  obtain st2 where prune: "CheckpointQueue_prune E st1 = Inr st2"
    using step should push by (auto simp: CheckpointQueue_maybe_step_def bnd_Inr_iff)
  have q1: "queue_ok st1 i'" "dq_head (st_checkpoints st1) = 0" using P(1) by (simp_all add: unpruned_def)
  have "st_building_index st2 = Some i'"
    using prune_Inr [OF prune q1(1)] by (simp add: queue_ok_def)
  then have rest: "(if i' > 0 then step_advance E st2 i' h tc pc = Inr st' else st' = st2)"
    using step should push prune by (auto simp: CheckpointQueue_maybe_step_def CheckpointQueue_index_def bnd_Inr_iff)
  then have "dq_head (st_checkpoints st2) = 0" using head step_advance_head by (auto split: if_splits)
  then have st2: "st2 = st1" using prune_head [OF prune q1] by simp
  show thesis
  proof (cases "queue st = []")
    case True
    then have "i' = 0" using inv by (simp add: i'_def unpruned_def)
    then show thesis using first [OF should _ True] push rest st2 by simp
  next
    case False
    then show thesis using advance [OF should push False] rest st2 by (simp add: i'_def)
  qed
qed

lemma maybe_step_inv:
  assumes inv: "queue_inv st" and short: "length (queue st) + 2 < 2 ^ 32"
    and step: "CheckpointQueue_maybe_step E env st h de tc pc = Inr (pushed, st')"
    and head: "dq_head (st_checkpoints st') = 0"
  shows "queue_inv st'"
proof -
  obtain i where i: "unpruned st i" and ss: "status_ok (map cp_status (queue st))"
    using inv by (auto simp: queue_inv_def)
  from i short step head show ?thesis
  proof (cases rule: maybe_step_Inr)
    case none
    then show ?thesis using inv by simp
  next
    case (first b)
    then show ?thesis
      using maybe_push_Inr(1-3) [OF i short first(2)] by (auto simp: queue_inv_def status_ok_def)
  next
    case (advance b st1)
    note P = maybe_push_Inr [OF i short advance(2)]
    have inv1: "unpruned st1 (i + 1)" using P(1) advance(3) by simp
    have len: "length (queue st) = i + 1" using length_unpruned [OF i advance(3)] .
    from inv1 _ advance(4) show ?thesis
    proof (rule step_advance_Inr, goal_cases)
      case (2 config cp_fees prev' op rv paid xi xo fr tx input carried)
      have q: "map cp_status (queue st') = (map cp_status (queue st))[i := Signing] @ [Building]"
        using 2(8) advance_frame(1) [OF 2(3)] P(2,3) len
        by (simp add: list_update_append map_update nth_append)
      have "(map cp_status (queue st)) ! j = Complete" if "j < i" for j
        using status_no_signing [OF i ss should_push_Inr(1) [OF i advance(1)], of j] that len by simp
      then have "status_ok (map cp_status (queue st'))"
        unfolding q using len by (auto simp: status_ok_def nth_append nth_list_update)
      then show ?case using 2(7) by (auto simp: queue_inv_def)
    qed simp
  qed
qed

text \<open>A write that keeps the status of the checkpoint keeps the shape of the queue.\<close>

lemma set_same_status_inv:
  assumes inv: "queue_inv st" and get: "CheckpointQueue_get E st j = Inr cp"
    and status: "cp_status cp' = cp_status cp" and set: "CheckpointQueue_set E st j cp' = Inr st'"
  shows "queue_inv st'" and "length (queue st') = length (queue st)"
proof -
  obtain i where i: "unpruned st i" and ss: "status_ok (map cp_status (queue st))"
    using inv by (auto simp: queue_inv_def)
  have "j < length (queue st)" "cp = queue st ! j"
    using get unfolding get_unpruned [OF i] by (auto split: if_splits)
  then have "map cp_status (queue st') = map cp_status (queue st)"
    using set_unpruned_Inr(2) [OF i set] status by (simp add: status_update_same)
  then show "queue_inv st'" using set_unpruned_Inr(1) [OF i set] ss by (auto simp: queue_inv_def)
  show "length (queue st') = length (queue st)" using set_unpruned_Inr(2) [OF i set] by simp
qed

lemma queue_sign_inv:
  assumes inv: "queue_inv st" and sign: "CheckpointQueue_sign E st xpub sigs j h = Inr st'"
  shows "queue_inv st'" and "length (queue st') = length (queue st)"
proof -
  obtain i where i: "unpruned st i" and ss: "status_ok (map cp_status (queue st))"
    using inv by (auto simp: queue_inv_def)
  let ?q = "queue st"
  obtain cp1 where get: "CheckpointQueue_get E st j = Inr (?q ! j)" "j < length ?q"
      and nb: "cp_status (?q ! j) \<noteq> Building"
      and cp1: "Checkpoint_sign E (?q ! j) xpub sigs h = Inr cp1"
      and set: "CheckpointQueue_set E st j (if cp_status (?q ! j) = Signing \<and> Checkpoint_signed cp1
                          then (Checkpoint_advance cp1)\<lparr>cp_status := Complete\<rparr> else cp1) = Inr st'"
    using sign by (auto simp: CheckpointQueue_sign_def Let_def ok_simps get_unpruned [OF i] split: if_splits)
  show "length (queue st') = length (queue st)" using set_unpruned_Inr(2) [OF i set] by simp
  have status: "cp_status cp1 = cp_status (?q ! j)" using cp1 by (rule Checkpoint_sign_Inr)
  show "queue_inv st'"
  proof (cases "cp_status (?q ! j) = Signing \<and> Checkpoint_signed cp1")
    case False
    then show ?thesis using set_same_status_inv(1) [OF inv get(1) status, of st'] set by (auto split: if_splits)
  next
    case True
    have "j + 1 \<noteq> length ?q" "\<not> j + 2 < length ?q"
      using status_okD(1,3) [OF ss, of j] True get(2) by auto
    then have "j + 2 = length ?q" using get(2) by linarith
    moreover have "map cp_status (queue st') = (map cp_status ?q)[j := Complete]"
      using set_unpruned_Inr(2) [OF i set] True by (simp add: map_update)
    ultimately have "status_ok (map cp_status (queue st'))"
      using ss by (auto simp: status_ok_def nth_list_update)
    then show ?thesis using set_unpruned_Inr(1) [OF i set] by (auto simp: queue_inv_def)
  qed
qed

end

text \<open>
  C28: On a queue from which nothing was pruned, with room for two more checkpoints below the 32
  bits of an index: when \<^verbatim>\<open>should_push\<close> answers yes, \<^verbatim>\<open>maybe_push\<close> returns and appends a
  checkpoint, which is in status \<^verbatim>\<open>Building\<close>, has one empty transaction and no pending transfer,
  and has a signatory set with a quorum; and a call of \<^verbatim>\<open>maybe_step\<close> with the same arguments, if it
  succeeds, reports that it pushed, so it never moves the building index without appending a
  checkpoint for it.
\<close>

theorem should_push_then_pushed:
  assumes "contract_deques E" and "unpruned st i" and "length (queue st) + 2 < 2 ^ 32"
    and "CheckpointQueue_should_push E env st tc h = Ok True"
  shows "\<exists>b st'. CheckpointQueue_maybe_push E env st de = Ok (Some b, st') \<and>
    queue st' = queue st @ [b] \<and> unpruned st' (length (queue st)) \<and>
    cp_status b = Building \<and> cp_pending b = [] \<and>
    cp_batches b = [\<lparr>ba_signed_txs = 0, ba_batch = [BitcoinTx_default]\<rparr>] \<and>
    SignatorySet_has_quorum (cp_sigset b) \<and> sigset_ok (cp_sigset b) \<and>
    (\<forall>config pushed st''. CheckpointQueue_maybe_step E env st h de tc config = Ok (pushed, st'') \<longrightarrow> pushed)"
proof -
  obtain b st' where push: "CheckpointQueue_maybe_push E env st de = Ok (Some b, st')"
    using contract_deques.should_push_pushes [OF assms] by blast
  note P = contract_deques.maybe_push_Inr [OF assms(1-3) push]
  have len: "(if queue st = [] then i else i + 1) = length (queue st)"
    using assms(2) by (auto simp: unpruned_def)
  obtain sigset where "next_sigset E st env (if queue st = [] then i else i + 1) = Inr sigset"
      "SignatorySet_has_quorum sigset"
    using contract_deques.should_push_Inr(3) [OF assms(1,2,4)] by blast
  then have q: "SignatorySet_has_quorum (cp_sigset b)" using P(6) by simp
  have "sigset_ok (cp_sigset b)"
    using P(6) unfolding next_sigset_def by (rule from_validator_ctx_sigset_ok)
  moreover have "CheckpointQueue_maybe_step E env st h de tc config = Ok (pushed, st'') \<Longrightarrow> pushed" for config pushed st''
    using assms(4) push by (auto simp: CheckpointQueue_maybe_step_def bnd_Inr_iff split: if_splits)
  ultimately show ?thesis using push P q unfolding len by blast
qed

end
