(* ===== verification/SignatoryKeys.thy ===== *)
theory SignatoryKeys
  imports State
begin

text \<open>
  \<^verbatim>\<open>SignatoryKeys\<close> of \<^verbatim>\<open>signatory.rs\<close>: the extended public keys the validators registered,
  and the set of normalized keys that keeps them distinct.
\<close>

definition normalized :: "xpub \<Rightarrow> xpub" where
  "normalized xpub = xpub\<lparr>xp_child_number := 0, xp_depth := 0, xp_parent_fingerprint := replicate 4 0\<rparr>"

definition SignatoryKeys_reset :: "'x contract_ext_scheme \<Rightarrow> store \<Rightarrow> store" where
  "SignatoryKeys_reset E st =
     st\<lparr>st_xpubs := st_xpubs st - set (map (xpub_encode E \<circ> snd) (st_sig_keys st)),
        st_sig_keys := []\<rparr>"

definition SignatoryKeys_insert ::
  "'x contract_ext_scheme \<Rightarrow> store \<Rightarrow> consensus_key \<Rightarrow> xpub \<Rightarrow> store result"
where
  "SignatoryKeys_insert E st consensus_key xpub =
     (let xpub_key = xpub_encode E (normalized xpub)
      in bnd (throw_if (xpub_key \<in> st_xpubs st) (App ''Duplicate signatory key'')) (\<lambda>_.
         Ok (st\<lparr>st_sig_keys := omap_save consensus_key xpub (st_sig_keys st),
                st_xpubs := insert xpub_key (st_xpubs st)\<rparr>)))"

definition SignatoryKeys_get :: "store \<Rightarrow> consensus_key \<Rightarrow> xpub option" where
  "SignatoryKeys_get st cons_key = map_of (st_sig_keys st) cons_key"

section \<open>Distinct keys\<close>

text \<open>Every registered key is in the set of taken keys, and no two validators share one.\<close>

definition keys_inv :: "'x contract_ext_scheme \<Rightarrow> store \<Rightarrow> bool" where
  "keys_inv E st \<longleftrightarrow>
     (\<forall>k x. SignatoryKeys_get st k = Some x \<longrightarrow> xpub_encode E (normalized x) \<in> st_xpubs st) \<and>
     (\<forall>k k' x x'. SignatoryKeys_get st k = Some x \<and> SignatoryKeys_get st k' = Some x' \<and>
        xpub_encode E (normalized x) = xpub_encode E (normalized x') \<longrightarrow> k = k')"

lemma keys_insert_Inr_iff:
  "SignatoryKeys_insert E st k x = Inr st' \<longleftrightarrow> xpub_encode E (normalized x) \<notin> st_xpubs st \<and>
     st' = st\<lparr>st_sig_keys := omap_save k x (st_sig_keys st),
              st_xpubs := insert (xpub_encode E (normalized x)) (st_xpubs st)\<rparr>"
  by (auto simp: SignatoryKeys_insert_def Let_def ok_simps)

lemma keys_inv_insert:
  assumes "keys_inv E st" and "SignatoryKeys_insert E st k x = Inr st'"
  shows "keys_inv E st'" and "SignatoryKeys_get st' k' = (if k' = k then Some x else SignatoryKeys_get st k')"
proof -
  have st': "st' = st\<lparr>st_sig_keys := omap_save k x (st_sig_keys st),
              st_xpubs := insert (xpub_encode E (normalized x)) (st_xpubs st)\<rparr>"
      and new: "xpub_encode E (normalized x) \<notin> st_xpubs st"
    using assms(2) by (simp_all add: keys_insert_Inr_iff)
  show get: "SignatoryKeys_get st' k' = (if k' = k then Some x else SignatoryKeys_get st k')" for k'
    by (simp add: st' SignatoryKeys_get_def)
  show "keys_inv E st'"
    unfolding keys_inv_def get using assms(1) new by (auto simp: keys_inv_def st' split: if_splits) metis+
qed

text \<open>
  What is used of the encoding of a key (BIP 32 writes every field of the key): keys with the same
  encoding have normalized forms with the same encoding.
\<close>

locale xpub_encoding =
  fixes E :: "'x contract_ext_scheme"
  assumes encode_normalized:
    "xpub_encode E x = xpub_encode E y \<Longrightarrow> xpub_encode E (normalized x) = xpub_encode E (normalized y)"
begin

text \<open>
  Removing the key of a validator, with its encoding as it was registered taken out of the set of
  taken keys, leaves the encodings of the other normalized keys in it.
\<close>

lemma keys_inv_remove:
  assumes inv: "keys_inv E st" and x: "SignatoryKeys_get st k = Some x"
  shows "keys_inv E (st\<lparr>st_xpubs := st_xpubs st - {xpub_encode E x}, st_sig_keys := omap_remove k (st_sig_keys st)\<rparr>)"
proof -
  let ?st = "st\<lparr>st_xpubs := st_xpubs st - {xpub_encode E x}, st_sig_keys := omap_remove k (st_sig_keys st)\<rparr>"
  have get: "SignatoryKeys_get ?st k' = (if k' = k then None else SignatoryKeys_get st k')" for k'
    by (simp add: SignatoryKeys_get_def map_of_omap_remove)
  have "xpub_encode E (normalized y) \<noteq> xpub_encode E x" if y: "SignatoryKeys_get st k' = Some y" "k' \<noteq> k" for k' y
  proof
    assume "xpub_encode E (normalized y) = xpub_encode E x"
    from encode_normalized [OF this] have "xpub_encode E (normalized y) = xpub_encode E (normalized x)"
      by (simp add: normalized_def)
    then show False using inv x y unfolding keys_inv_def by blast
  qed
  then show ?thesis
    using inv unfolding keys_inv_def get by (auto split: if_splits)
qed

end

end
