(* ===== verification/OutpointSet.thy ===== *)
theory OutpointSet
  imports State
begin

text \<open>
  \<^verbatim>\<open>outpoint_set.rs\<close>: the outpoints that were relayed, with the queue of their expirations.
\<close>

definition OutpointSet_reset :: "store \<Rightarrow> store" where
  "OutpointSet_reset st = st\<lparr>st_expiration_queue := [], st_outpoints := {}\<rparr>"

definition OutpointSet_contains :: "'x ext_scheme \<Rightarrow> store \<Rightarrow> outpoint \<Rightarrow> bool" where
  "OutpointSet_contains E st op \<longleftrightarrow> outpoint_to_string E op \<in> st_outpoints st"

definition OutpointSet_insert :: "'x ext_scheme \<Rightarrow> store \<Rightarrow> outpoint \<Rightarrow> u64 \<Rightarrow> store" where
  "OutpointSet_insert E st op expiration =
     (let outpoint_key = outpoint_to_string E op
      in st\<lparr>st_outpoints := insert outpoint_key (st_outpoints st),
            st_expiration_queue := omap_save (expiration, outpoint_key) () (st_expiration_queue st)\<rparr>)"

text \<open>The entries of the queue that have expired, up to the first one that has not.\<close>

fun collect_expired ::
  "'x ext_scheme \<Rightarrow> u64 \<Rightarrow> ((u64 \<times> string) \<times> unit) list \<Rightarrow> (u64 \<times> outpoint) list result"
where
  "collect_expired E now [] = Ok []"
| "collect_expired E now (((expiration, outpoint_str), _) # rest) =
     (if expiration > now then Ok []
      else bnd (outpoint_from_str E outpoint_str) (\<lambda>op.
           bnd (collect_expired E now rest) (\<lambda>ops.
           Ok ((expiration, op) # ops))))"

definition remove_expired_step :: "'x ext_scheme \<Rightarrow> u64 \<times> outpoint \<Rightarrow> store \<Rightarrow> store" where
  "remove_expired_step E entry st =
     (let outpoint_key = outpoint_to_string E (snd entry)
      in st\<lparr>st_outpoints := st_outpoints st - {outpoint_key},
            st_expiration_queue := omap_remove (fst entry, outpoint_key) (st_expiration_queue st)\<rparr>)"

definition OutpointSet_remove_expired :: "'x ext_scheme \<Rightarrow> store \<Rightarrow> u64 \<Rightarrow> store result" where
  "OutpointSet_remove_expired E st now =
     bnd (collect_expired E now (st_expiration_queue st)) (\<lambda>expired.
     Ok (fold (remove_expired_step E) expired st))"

section \<open>The set and its queue\<close>

text \<open>
  The relation of the two maps: every outpoint is in the queue, and the queue has only outpoints.
\<close>

definition outpoints_inv :: "'x ext_scheme \<Rightarrow> store \<Rightarrow> bool" where
  "outpoints_inv E st \<longleftrightarrow> omap_ok (st_expiration_queue st) \<and>
     (\<forall>k \<in> fst ` set (st_expiration_queue st). \<exists>op. snd k = outpoint_to_string E op) \<and>
     distinct (map (snd \<circ> fst) (st_expiration_queue st)) \<and>
     st_outpoints st = snd ` fst ` set (st_expiration_queue st)"

locale outpoint_strings =
  fixes E :: "'x ext_scheme"
  assumes outpoint_roundtrip: "outpoint_from_str E (outpoint_to_string E op) = Ok op"
begin

lemma outpoint_string_inj: "outpoint_to_string E op = outpoint_to_string E op' \<longleftrightarrow> op = op'"
  by (metis outpoint_roundtrip sum.inject(2))

text \<open>In an ordered queue the expired entries are a prefix.\<close>

lemma collect_expired_eq:
  assumes "omap_ok q" and "\<forall>k \<in> fst ` set q. \<exists>op. snd k = outpoint_to_string E op"
  shows "\<exists>es. collect_expired E now q = Ok es \<and>
    map (\<lambda>e. (fst e, outpoint_to_string E (snd e))) es = filter (\<lambda>k. fst k \<le> now) (map fst q)"
  using assms
proof (induction q)
  case (Cons e q)
  obtain t s where e: "e = ((t, s), ())" by (metis prod.exhaust unit.exhaust)
  obtain op where s: "s = outpoint_to_string E op" using Cons.prems(2) e by auto
  have ok: "omap_ok q" and less: "\<forall>k \<in> fst ` set q. (t, s) < k"
    using Cons.prems(1) e by (auto simp: omap_ok_def)
  show ?case
  proof (cases "t > now")
    case True
    have "t \<le> fst k" if "k \<in> fst ` set q" for k
      using less that by (cases k) (auto simp: less_le_not_le)
    then have "filter (\<lambda>k. fst k \<le> now) (map fst q) = []"
      unfolding filter_empty_conv set_map using True by (meson leD le_trans)
    then show ?thesis using True e by simp
  next
    case False
    then show ?thesis
      using Cons.IH [OF ok] Cons.prems(2) e s outpoint_roundtrip by auto
  qed
qed simp

end

lemma remove_expired_fold:
  "st_expiration_queue (fold (remove_expired_step E) es st) =
     filter (\<lambda>x. fst x \<notin> set (map (\<lambda>e. (fst e, outpoint_to_string E (snd e))) es)) (st_expiration_queue st)"
  "st_outpoints (fold (remove_expired_step E) es st) =
     st_outpoints st - set (map (\<lambda>e. outpoint_to_string E (snd e)) es)"
  by (induction es arbitrary: st)
    (auto simp: remove_expired_step_def omap_remove_def Let_def filter_filter intro!: filter_cong)


lemma omap_save_new:
  "k \<notin> fst ` set m \<Longrightarrow> mset (omap_save k v m) = add_mset (k, v) (mset m)"
  by (induction m) auto

text \<open>
  A relayed outpoint is remembered. Inserting an outpoint that is not in the set keeps the set
  and its expiration queue in agreement, makes the outpoint a member and changes the membership of
  no other outpoint.
\<close>

lemma outpoint_insert:
  assumes "outpoint_strings E" and "outpoints_inv E st" and "\<not> OutpointSet_contains E st op"
  shows "outpoints_inv E (OutpointSet_insert E st op expiration) \<and>
    (\<forall>op'. OutpointSet_contains E (OutpointSet_insert E st op expiration) op' \<longleftrightarrow>
       op' = op \<or> OutpointSet_contains E st op')"
proof -
  let ?k = "(expiration, outpoint_to_string E op)" and ?q = "st_expiration_queue st"
  have new: "snd ?k \<notin> snd ` fst ` set ?q"
    using assms(2,3) by (simp add: outpoints_inv_def OutpointSet_contains_def)
  then have new': "?k \<notin> fst ` set ?q" by force
  have m: "mset (omap_save ?k () ?q) = add_mset (?k, ()) (mset ?q)" by (rule omap_save_new [OF new'])
  have set: "set (omap_save ?k () ?q) = insert (?k, ()) (set ?q)"
    using arg_cong [OF m, of set_mset] by simp
  have "distinct (map (snd \<circ> fst) (omap_save ?k () ?q)) \<longleftrightarrow> distinct (map (snd \<circ> fst) ((?k, ()) # ?q))"
    using m by (intro mset_eq_imp_distinct_iff) simp
  then have "distinct (map (snd \<circ> fst) (omap_save ?k () ?q))"
    using assms(2) new by (simp add: outpoints_inv_def image_image)
  then have "outpoints_inv E (OutpointSet_insert E st op expiration)"
    using assms(2) omap_ok_save [of ?q ?k "()"] set
    by (auto simp: outpoints_inv_def OutpointSet_insert_def Let_def)
  moreover have "OutpointSet_contains E (OutpointSet_insert E st op expiration) op' \<longleftrightarrow>
       op' = op \<or> OutpointSet_contains E st op'" for op'
    using outpoint_strings.outpoint_string_inj [OF assms(1)]
    by (auto simp: OutpointSet_contains_def OutpointSet_insert_def Let_def)
  ultimately show ?thesis by blast
qed

text \<open>
  Removing expired outpoints succeeds and forgets exactly the outpoints whose expiration has
  been reached; the set and the queue still agree afterwards.
\<close>

lemma outpoint_remove_expired:
  assumes "outpoint_strings E" and "outpoints_inv E st"
  shows "\<exists>st'. OutpointSet_remove_expired E st now = Ok st' \<and> outpoints_inv E st' \<and>
    st_expiration_queue st' = filter (\<lambda>((t, s), u). now < t) (st_expiration_queue st) \<and>
    (\<forall>op. OutpointSet_contains E st' op \<longleftrightarrow>
       (\<exists>t > now. ((t, outpoint_to_string E op), ()) \<in> set (st_expiration_queue st)))"
proof -
  let ?q = "st_expiration_queue st"
  obtain es where es: "collect_expired E now ?q = Ok es"
      "map (\<lambda>e. (fst e, outpoint_to_string E (snd e))) es = filter (\<lambda>k. fst k \<le> now) (map fst ?q)"
    using outpoint_strings.collect_expired_eq [OF assms(1), of ?q now] assms(2) by (auto simp: outpoints_inv_def)
  define st' where "st' = fold (remove_expired_step E) es st"
  have "fst x \<notin> set (filter (\<lambda>k. fst k \<le> now) (map fst ?q)) \<longleftrightarrow> now < fst (fst x)" if "x \<in> set ?q" for x
    using that by (auto simp: not_le)
  then have "filter (\<lambda>x. fst x \<notin> set (filter (\<lambda>k. fst k \<le> now) (map fst ?q))) ?q = filter (\<lambda>x. now < fst (fst x)) ?q"
    by (intro filter_cong) simp_all
  then have q: "st_expiration_queue st' = filter (\<lambda>x. now < fst (fst x)) ?q"
    unfolding st'_def remove_expired_fold es(2) .
  have d: "inj_on snd (fst ` set ?q)"
    using assms(2) by (intro inj_on_imageI) (simp add: outpoints_inv_def distinct_map)
  have "map snd (map (\<lambda>e. (fst e, outpoint_to_string E (snd e))) es) = map snd (filter (\<lambda>k. fst k \<le> now) (map fst ?q))"
    using es(2) by simp
  then have "map (\<lambda>e. outpoint_to_string E (snd e)) es = map snd (filter (\<lambda>k. fst k \<le> now) (map fst ?q))"
    by (simp add: comp_def)
  then have keys: "set (map (\<lambda>e. outpoint_to_string E (snd e)) es) = snd ` {k \<in> fst ` set ?q. fst k \<le> now}"
    by (simp only: set_map set_filter)
  have "snd ` fst ` set ?q - snd ` {k \<in> fst ` set ?q. fst k \<le> now} = snd ` (fst ` set ?q - {k \<in> fst ` set ?q. fst k \<le> now})"
    by (rule inj_on_image_set_diff [OF d, symmetric]) auto
  also have "fst ` set ?q - {k \<in> fst ` set ?q. fst k \<le> now} = fst ` set (filter (\<lambda>x. now < fst (fst x)) ?q)"
    by (auto simp: not_le)
  finally have o: "st_outpoints st' = snd ` fst ` set (st_expiration_queue st')"
    using assms(2) unfolding q by (simp only: st'_def remove_expired_fold keys outpoints_inv_def)
  have "omap_ok (st_expiration_queue st')" "distinct (map (snd \<circ> fst) (st_expiration_queue st'))"
    using assms(2) unfolding q outpoints_inv_def omap_ok_def
    by (auto simp: sorted_wrt_map sorted_wrt_filter distinct_map_filter)
  then have inv: "outpoints_inv E st'"
    using assms(2) o unfolding outpoints_inv_def q by auto
  have "OutpointSet_contains E st' op \<longleftrightarrow> (\<exists>t > now. ((t, outpoint_to_string E op), ()) \<in> set ?q)" for op
    unfolding OutpointSet_contains_def o q by force
  moreover have "filter (\<lambda>x. now < fst (fst x)) ?q = filter (\<lambda>((t, s), u). now < t) ?q"
    by (rule filter_cong) auto
  moreover have "OutpointSet_remove_expired E st now = Ok st'"
    unfolding OutpointSet_remove_expired_def es(1) st'_def by simp
  ultimately show ?thesis using inv q by (intro exI [of _ st'] conjI allI) simp_all
qed

end
