(* ===== verification/Fee.thy ===== *)
theory Fee
  imports State
begin

text \<open>
  \<^verbatim>\<open>fee.rs\<close> and \<^verbatim>\<open>helper.rs\<close>: the token fee and the relayer fee that are taken from a
  transfer when it is paid out.
\<close>

text \<open>\<^verbatim>\<open>FeeData\<close> of \<^verbatim>\<open>msg.rs\<close>.\<close>

record fee_data =
  fd_deducted_amount :: u128
  fd_token_fee :: coin
  fd_relayer_fee :: coin

definition denom_to_asset_info :: "'x ext_scheme \<Rightarrow> string \<Rightarrow> asset_info" where
  "denom_to_asset_info E denom =
     (case addr_validate E denom of
        Some contract_addr \<Rightarrow> Token contract_addr
      | None \<Rightarrow> NativeToken denom)"

definition deduct_fee :: "'x ext_scheme \<Rightarrow> ratio \<Rightarrow> u128 \<Rightarrow> u128 result" where
  "deduct_fee E token_fee amount =
     (if denominator token_fee = 0 then Ok 0
      else mul_ratio E amount (nominator token_fee) (denominator token_fee))"

definition deduct_token_fee :: "'x ext_scheme \<Rightarrow> store \<Rightarrow> u128 \<Rightarrow> (u128 \<times> u128) result" where
  "deduct_token_fee E st amount =
     (case st_token_fee_ratio st of
        Some token_fee \<Rightarrow>
          bnd (deduct_fee E token_fee amount) (\<lambda>fee.
          bnd (ok_or (Std ''Cannot Sub'') (checked_sub amount fee)) (\<lambda>new_deducted_amount.
          Ok (new_deducted_amount, fee)))
      | None \<Rightarrow> Ok (amount, 0))"

definition get_swap_token_amount_out ::
  "'x ext_scheme \<Rightarrow> u128 \<Rightarrow> addr \<Rightarrow> asset_info \<Rightarrow> asset_info \<Rightarrow> u128"
where
  "get_swap_token_amount_out E offer_amount swap_router_contract ask_asset_info relayer_fee_token =
     (if ask_asset_info = relayer_fee_token then offer_amount
      else (let orai_asset = NativeToken ''orai'';
                swap_ops = (if ask_asset_info = orai_asset \<or> relayer_fee_token = orai_asset
                            then [OraiSwap relayer_fee_token ask_asset_info]
                            else [OraiSwap relayer_fee_token orai_asset, OraiSwap orai_asset ask_asset_info])
            in case simulate_swap E swap_router_contract offer_amount swap_ops of
                 Some amount \<Rightarrow> amount
               | None \<Rightarrow> 0))"

definition deduct_relayer_fee :: "'x ext_scheme \<Rightarrow> store \<Rightarrow> asset_info \<Rightarrow> u128 result" where
  "deduct_relayer_fee E st ask_asset_info =
     bnd (load (st_config st)) (\<lambda>config.
     if cf_relayer_fee config = 0 then Ok 0
     else case cf_swap_router_contract config of
            None \<Rightarrow> Ok 0
          | Some router \<Rightarrow>
              Ok (get_swap_token_amount_out E (cf_relayer_fee config) router ask_asset_info
                    (cf_relayer_fee_token config)))"

definition process_deduct_fee :: "'x ext_scheme \<Rightarrow> store \<Rightarrow> coin \<Rightarrow> fee_data result" where
  "process_deduct_fee E st local_amount =
     (let local_denom = coin_denom local_amount
      in bnd (deduct_token_fee E st (coin_amount local_amount)) (\<lambda>(deducted_amount, token_fee).
         let fee_data = \<lparr>fd_deducted_amount = deducted_amount,
               fd_token_fee = \<lparr>coin_denom = local_denom, coin_amount = token_fee\<rparr>,
               fd_relayer_fee = \<lparr>coin_denom = local_denom, coin_amount = 0\<rparr>\<rparr>
         in if deducted_amount = 0 then Ok (fee_data\<lparr>fd_token_fee := local_amount\<rparr>)
            else
              bnd (deduct_relayer_fee E st (denom_to_asset_info E (coin_denom local_amount))) (\<lambda>relayer_fee.
              let fee_data = fee_data\<lparr>
                    fd_deducted_amount := (case checked_sub deducted_amount relayer_fee of Some n \<Rightarrow> n | None \<Rightarrow> 0),
                    fd_relayer_fee := \<lparr>coin_denom = local_denom, coin_amount = relayer_fee\<rparr>\<rparr>
              in if fd_deducted_amount fee_data = 0
                 then Ok (fee_data\<lparr>fd_relayer_fee := \<lparr>coin_denom = local_denom, coin_amount = deducted_amount\<rparr>\<rparr>)
                 else Ok fee_data)))"

lemma process_deduct_fee_sum:
  assumes "process_deduct_fee E st c = Inr fd"
  shows "fd_deducted_amount fd + coin_amount (fd_token_fee fd) + coin_amount (fd_relayer_fee fd) = coin_amount c"
    and "coin_denom (fd_token_fee fd) = coin_denom c" and "coin_denom (fd_relayer_fee fd) = coin_denom c"
proof -
  obtain d t where dt: "deduct_token_fee E st (coin_amount c) = Ok (d, t)"
    using assms by (auto simp: process_deduct_fee_def Let_def ok_simps)
  have sum: "d + t = coin_amount c"
    using dt by (auto simp: deduct_token_fee_def ok_simps split: option.splits)
  have "fd_deducted_amount fd + coin_amount (fd_token_fee fd) + coin_amount (fd_relayer_fee fd) = coin_amount c \<and>
    coin_denom (fd_token_fee fd) = coin_denom c \<and> coin_denom (fd_relayer_fee fd) = coin_denom c"
  proof (cases "d = 0")
    case True
    then show ?thesis using assms dt by (auto simp: process_deduct_fee_def Let_def)
  next
    case False
    then show ?thesis
      using assms dt sum by (auto simp: process_deduct_fee_def Let_def ok_simps checked_sub_def split: if_splits)
  qed
  then show "fd_deducted_amount fd + coin_amount (fd_token_fee fd) + coin_amount (fd_relayer_fee fd) = coin_amount c"
    and "coin_denom (fd_token_fee fd) = coin_denom c" and "coin_denom (fd_relayer_fee fd) = coin_denom c" by blast+
qed

end
