(* ===== verification/Recovery.thy ===== *)
theory Recovery
  imports State
begin

text \<open>
  \<^verbatim>\<open>recovery.rs\<close>: the transactions that move deposits made to an expired signatory set to the
  current one. \<open>recoveries\<close> is the queue as a list; the theorems say what a call of
  \<^verbatim>\<open>create_recovery_tx\<close> appends to it and which signatures a call of \<^verbatim>\<open>sign\<close> takes.
\<close>

record signed_recovery_tx =
  sr_tx :: transaction
  sr_sigset_index :: u32
  sr_dest :: dest

record recovery_tx_input =
  ri_expired_tx :: transaction
  ri_vout :: u32
  ri_old_sigset :: signatory_set
  ri_new_sigset :: signatory_set
  ri_threshold :: "u64 \<times> u64"
  ri_fee_rate :: u64
  ri_dest :: dest

definition RecoveryTxs_create_recovery_tx ::
  "'x contract_ext_scheme \<Rightarrow> store \<Rightarrow> recovery_tx_input \<Rightarrow> store result"
where
  "RecoveryTxs_create_recovery_tx E st args =
     bnd (ok_or (Signer ''Invalid recovery tx vout'')
            (vec_get (btx_output (ri_expired_tx args)) (ri_vout args))) (\<lambda>expired_output.
     bnd (Dest_commitment_bytes E (ri_dest args)) (\<lambda>commitment.
     bnd (Input_new E \<lparr>op_txid = tx_txid E (ri_expired_tx args), op_vout = ri_vout args\<rparr>
            (ri_old_sigset args) commitment (txo_value expired_output) (ri_threshold args)) (\<lambda>input.
     bnd (SignatorySet_output_script E (ri_new_sigset args) commitment (ri_threshold args)) (\<lambda>script_pubkey.
     let output = \<lparr>txo_value = txo_value expired_output, txo_script_pubkey = script_pubkey\<rparr>;
         tx = BitcoinTx_default\<lparr>bt_input := [input], bt_output := [output]\<rparr>
     in bnd (BitcoinTx_est_vsize E tx) (\<lambda>vsize.
        bnd (mul_u64 (ri_fee_rate args) vsize) (\<lambda>fee.
        bnd (BitcoinTx_deduct_fee E tx fee) (\<lambda>tx.
        bnd (BitcoinTx_populate_input_sig_message E tx 0) (\<lambda>tx.
        Ok (st\<lparr>st_recovery_txs := dq_push_back (recovery_dq E) (st_recovery_txs st)
              \<lparr>rt_tx = tx, rt_old_sigset_index = ss_index (ri_old_sigset args),
               rt_new_sigset_index = ss_index (ri_new_sigset args), rt_dest = ri_dest args\<rparr>\<rparr>)))))))))"

text \<open>\<^verbatim>\<open>RECOVERY_TXS.iter(store)\<close>, every item unwrapped with \<^verbatim>\<open>?\<close>.\<close>

definition recovery_items :: "'x contract_ext_scheme \<Rightarrow> store \<Rightarrow> recovery_tx list result" where
  "recovery_items E st =
     map_r (\<lambda>i. load (dq_get (recovery_dq E) (st_recovery_txs st) i))
       [0..<dq_length (recovery_dq E) (st_recovery_txs st)]"

definition RecoveryTxs_to_sign ::
  "'x contract_ext_scheme \<Rightarrow> store \<Rightarrow> xpub \<Rightarrow> (message \<times> u32) list result"
where
  "RecoveryTxs_to_sign E st xpub =
     bnd (recovery_items E st) (\<lambda>txs. to_sign_txs E xpub (map rt_tx txs))"

text \<open>The loop of \<^verbatim>\<open>sign\<close> over the indexes of the queue.\<close>

fun sign_recovery_txs ::
  "'x contract_ext_scheme \<Rightarrow> xpub \<Rightarrow> signature list \<Rightarrow> u32 list \<Rightarrow> nat \<Rightarrow> store \<Rightarrow> (nat \<times> store) result"
where
  "sign_recovery_txs E xpub sigs [] sig_index st = Ok (sig_index, st)"
| "sign_recovery_txs E xpub sigs (i # is) sig_index st =
     bnd (ok_or (Signer ''Error getting recovery transaction'')
            (dq_get (recovery_dq E) (st_recovery_txs st) i)) (\<lambda>tx.
     bnd (sign_inputs E (Signer ''Not enough signatures supplied for recovery transaction'') xpub sigs
            (bt_input (rt_tx tx)) sig_index (bt_signed_inputs (rt_tx tx))) (\<lambda>(ins, sig_index, n).
     let tx = tx\<lparr>rt_tx := (rt_tx tx)\<lparr>bt_input := ins, bt_signed_inputs := n\<rparr>\<rparr>
     in sign_recovery_txs E xpub sigs is sig_index
          (st\<lparr>st_recovery_txs := DequeExtension_set (st_recovery_txs st) i tx\<rparr>)))"

definition RecoveryTxs_sign ::
  "'x contract_ext_scheme \<Rightarrow> store \<Rightarrow> xpub \<Rightarrow> signature list \<Rightarrow> store result"
where
  "RecoveryTxs_sign E st xpub sigs =
     bnd (throw_if (sigs = []) (Signer ''No signatures supplied for recovery transaction'')) (\<lambda>_.
     bnd (sign_recovery_txs E xpub sigs [0..<dq_length (recovery_dq E) (st_recovery_txs st)] 0 st) (\<lambda>(sig_index, st).
     bnd (throw_if (sig_index \<noteq> length sigs) (Signer ''Excess signatures supplied for recovery transaction'')) (\<lambda>_.
     Ok st)))"

definition RecoveryTxs_signed :: "'x contract_ext_scheme \<Rightarrow> store \<Rightarrow> signed_recovery_tx list result" where
  "RecoveryTxs_signed E st =
     bnd (recovery_items E st) (\<lambda>txs.
     map_r (\<lambda>tx. bnd (BitcoinTx_to_bitcoin_tx E (rt_tx tx)) (\<lambda>btc_tx.
         Ok \<lparr>sr_tx = btc_tx, sr_sigset_index = rt_new_sigset_index tx, sr_dest = rt_dest tx\<rparr>))
       (filter (\<lambda>tx. BitcoinTx_signed (rt_tx tx)) txs))"

section \<open>What is queued\<close>

text \<open>The recovery transactions in the queue.\<close>

definition recoveries :: "store \<Rightarrow> recovery_tx list" where
  "recoveries st = dq_items (st_recovery_txs st)"

text \<open>A fee deducted from a transaction with one output: the output pays it all, or is dropped.\<close>

lemma deduct_fee_single:
  assumes "fee < 2 ^ 64" and "bt_output tx = [out]"
  shows "BitcoinTx_deduct_fee E tx fee = Ok (tx\<lparr>bt_output :=
    (if fee = 0 \<or> dust_value E (txo_script_pubkey out) + fee < txo_value out
     then [out\<lparr>txo_value := txo_value out - fee\<rparr>] else [])\<rparr>)"
proof (cases "fee = 0")
  case True
  then show ?thesis using assms(2) by (simp add: BitcoinTx_deduct_fee_def)
next
  case False
  then have "0 < fee" "bt_output tx \<noteq> []" using assms(2) by simp_all
  from deduct_fee_Ok [OF this(1) assms(1) this(2), of E]
  obtain kept t where ok: "BitcoinTx_deduct_fee E tx fee =
        Ok (tx\<lparr>bt_output := map (\<lambda>out. out\<lparr>txo_value := txo_value out - t\<rparr>) kept\<rparr>)"
      and kept: "kept = filter (\<lambda>out. t < adjusted_output E out) (bt_output tx)"
      and t: "fee div length (bt_output tx) \<le> t" "t \<le> fee"
    by blast
  have "t = fee" using t assms(2) by simp
  then show ?thesis using False ok kept assms(2) by (auto simp: adjusted_output_def)
qed

text \<open>The message of an input is the signature hash of the transaction it is an input of.\<close>

lemma populate_input_Inr:
  assumes "BitcoinTx_populate_input_sig_message E tx 0 = Inr tx'" and "bt_input tx = [i]"
  shows "\<exists>j btc. same_input i j \<and> tx' = tx\<lparr>bt_input := [j]\<rparr> \<and> BitcoinTx_to_bitcoin_tx E tx' = Ok btc \<and>
    segwit_signature_hash E btc 0 (in_redeem_script j) (in_amount j) = Ok (ts_message (in_signatures j))"
proof -
  obtain btc m where btc: "BitcoinTx_to_bitcoin_tx E tx = Ok btc"
      and m: "segwit_signature_hash E btc 0 (in_redeem_script i) (in_amount i) = Ok m"
      and tx': "tx' = tx\<lparr>bt_input := [i\<lparr>in_signatures := ThresholdSig_set_message (in_signatures i) m\<rparr>]\<rparr>"
    using assms by (auto simp: BitcoinTx_populate_input_sig_message_def ok_simps)
  have same: "same_input i (i\<lparr>in_signatures := ThresholdSig_set_message (in_signatures i) m\<rparr>)"
    by (auto simp: same_input_def)
  then have "BitcoinTx_to_bitcoin_tx E tx' = Ok btc"
    using btc assms(2) by (simp add: BitcoinTx_to_bitcoin_tx_def tx' same_input_to_txin)
  then show ?thesis using same m tx' by (auto simp: ThresholdSig_set_message_def)
qed

lemma recovery_tx_built:
  assumes t0: "t0 = BitcoinTx_default\<lparr>bt_input := [i], bt_output := [out]\<rparr>"
    and vsize: "BitcoinTx_est_vsize E t0 = Ok vsize" and fee: "fee < 2 ^ 64"
    and ded: "BitcoinTx_deduct_fee E t0 fee = Ok tx1" and pop: "BitcoinTx_populate_input_sig_message E tx1 0 = Ok tx"
  shows "\<exists>j btc. same_input i j \<and> bt_input tx = [j] \<and>
    bt_output tx = (if fee = 0 \<or> dust_value E (txo_script_pubkey out) + fee < txo_value out
      then [out\<lparr>txo_value := txo_value out - fee\<rparr>] else []) \<and>
    BitcoinTx_est_vsize E (tx\<lparr>bt_output := [out]\<rparr>) = Ok vsize \<and> BitcoinTx_to_bitcoin_tx E tx = Ok btc \<and>
    segwit_signature_hash E btc 0 (in_redeem_script j) (in_amount j) = Ok (ts_message (in_signatures j))"
proof -
  let ?outs = "if fee = 0 \<or> dust_value E (txo_script_pubkey out) + fee < txo_value out
      then [out\<lparr>txo_value := txo_value out - fee\<rparr>] else []"
  have tx1: "tx1 = BitcoinTx_default\<lparr>bt_input := [i], bt_output := ?outs\<rparr>"
    using ded deduct_fee_single [OF fee, of t0 out E] by (simp add: t0)
  obtain j btc where j: "same_input i j" "tx = tx1\<lparr>bt_input := [j]\<rparr>" "BitcoinTx_to_bitcoin_tx E tx = Ok btc"
      "segwit_signature_hash E btc 0 (in_redeem_script j) (in_amount j) = Ok (ts_message (in_signatures j))"
    using populate_input_Inr [OF pop, of i] by (auto simp: tx1)
  have "in_est_witness_vsize j = in_est_witness_vsize i" using j(1) by (auto simp: same_input_def)
  then have "BitcoinTx_est_vsize E (tx\<lparr>bt_output := [out]\<rparr>) = Ok vsize"
    using vsize same_input_to_txin [OF j(1), of E]
    by (simp add: BitcoinTx_est_vsize_def BitcoinTx_to_bitcoin_tx_def t0 tx1 j(2))
  then show ?thesis using j by (intro exI [of _ j] exI [of _ btc]) (simp add: tx1)
qed

text \<open>The steps of a successful call.\<close>

lemma create_recovery_tx_Inr:
  assumes "RecoveryTxs_create_recovery_tx E st args = Ok st'"
  obtains expired commitment i script_pubkey vsize tx1 tx
    where "vec_get (btx_output (ri_expired_tx args)) (ri_vout args) = Some expired"
      and "Dest_commitment_bytes E (ri_dest args) = Ok commitment"
      and "Input_new E \<lparr>op_txid = tx_txid E (ri_expired_tx args), op_vout = ri_vout args\<rparr>
        (ri_old_sigset args) commitment (txo_value expired) (ri_threshold args) = Ok i"
      and "SignatorySet_output_script E (ri_new_sigset args) commitment (ri_threshold args) = Ok script_pubkey"
      and "BitcoinTx_est_vsize E (BitcoinTx_default\<lparr>bt_input := [i],
        bt_output := [\<lparr>txo_value = txo_value expired, txo_script_pubkey = script_pubkey\<rparr>]\<rparr>) = Ok vsize"
      and "ri_fee_rate args * vsize < 2 ^ 64"
      and "BitcoinTx_deduct_fee E (BitcoinTx_default\<lparr>bt_input := [i],
        bt_output := [\<lparr>txo_value = txo_value expired, txo_script_pubkey = script_pubkey\<rparr>]\<rparr>)
        (ri_fee_rate args * vsize) = Ok tx1"
      and "BitcoinTx_populate_input_sig_message E tx1 0 = Ok tx"
      and "st' = st\<lparr>st_recovery_txs := dq_push_back (recovery_dq E) (st_recovery_txs st)
        \<lparr>rt_tx = tx, rt_old_sigset_index = ss_index (ri_old_sigset args),
         rt_new_sigset_index = ss_index (ri_new_sigset args), rt_dest = ri_dest args\<rparr>\<rparr>"
  using assms unfolding RecoveryTxs_create_recovery_tx_def Let_def bnd_Inr_iff ok_or_Inr_iff mul_w_Inr_iff
  by (elim exE conjE) (rule that, (assumption | simp)+)

text \<open>
  C17: A recovery transaction moves one expired deposit to the new signatory set. If
  \<^verbatim>\<open>create_recovery_tx\<close> succeeds, it appends one transaction to the queue and changes nothing
  else. The transaction has one input, the expired output with its whole value, locked by the old
  set's redeem script, and the message to be signed for it is the signature hash of the queued
  transaction itself. Its only output pays the value less the fee (fee rate times estimated size) to
  the output script of the new set with the same destination. If the value does not exceed fee and
  dust limit, the transaction is queued without any output.
\<close>

theorem recovery_tx_spec:
  assumes "contract_deques E" and "dq_ok (st_recovery_txs st)" and "length (recoveries st) < u32_space - 1"
    and "RecoveryTxs_create_recovery_tx E st args = Ok st'"
  shows "\<exists>d tx i expired commitment script_pubkey vsize fee btc.
    st' = st\<lparr>st_recovery_txs := d\<rparr> \<and> dq_ok d \<and> dq_head d = dq_head (st_recovery_txs st) \<and>
    recoveries st' = recoveries st @ [\<lparr>rt_tx = tx, rt_old_sigset_index = ss_index (ri_old_sigset args),
      rt_new_sigset_index = ss_index (ri_new_sigset args), rt_dest = ri_dest args\<rparr>] \<and>
    vec_get (btx_output (ri_expired_tx args)) (ri_vout args) = Some expired \<and>
    Dest_commitment_bytes E (ri_dest args) = Ok commitment \<and>
    SignatorySet_redeem_script E (ri_old_sigset args) commitment (ri_threshold args) = Ok (in_redeem_script i) \<and>
    SignatorySet_output_script E (ri_new_sigset args) commitment (ri_threshold args) = Ok script_pubkey \<and>
    bt_input tx = [i] \<and> in_amount i = txo_value expired \<and>
    in_prevout i = \<lparr>op_txid = tx_txid E (ri_expired_tx args), op_vout = ri_vout args\<rparr> \<and>
    BitcoinTx_est_vsize E (tx\<lparr>bt_output := [\<lparr>txo_value = txo_value expired, txo_script_pubkey = script_pubkey\<rparr>]\<rparr>) = Ok vsize \<and>
    fee = ri_fee_rate args * vsize \<and>
    bt_output tx = (if fee = 0 \<or> dust_value E script_pubkey + fee < txo_value expired
      then [\<lparr>txo_value = txo_value expired - fee, txo_script_pubkey = script_pubkey\<rparr>] else []) \<and>
    BitcoinTx_to_bitcoin_tx E tx = Ok btc \<and>
    segwit_signature_hash E btc 0 (in_redeem_script i) (in_amount i) = Ok (ts_message (in_signatures i))"
proof -
  from create_recovery_tx_Inr [OF assms(4)] obtain expired commitment i script_pubkey vsize tx1 tx
    where expired: "vec_get (btx_output (ri_expired_tx args)) (ri_vout args) = Some expired"
      and com: "Dest_commitment_bytes E (ri_dest args) = Ok commitment"
      and i: "Input_new E \<lparr>op_txid = tx_txid E (ri_expired_tx args), op_vout = ri_vout args\<rparr>
        (ri_old_sigset args) commitment (txo_value expired) (ri_threshold args) = Ok i"
      and spk: "SignatorySet_output_script E (ri_new_sigset args) commitment (ri_threshold args) = Ok script_pubkey"
      and tx: "BitcoinTx_est_vsize E (BitcoinTx_default\<lparr>bt_input := [i],
          bt_output := [\<lparr>txo_value = txo_value expired, txo_script_pubkey = script_pubkey\<rparr>]\<rparr>) = Ok vsize"
        "ri_fee_rate args * vsize < 2 ^ 64"
        "BitcoinTx_deduct_fee E (BitcoinTx_default\<lparr>bt_input := [i],
          bt_output := [\<lparr>txo_value = txo_value expired, txo_script_pubkey = script_pubkey\<rparr>]\<rparr>)
          (ri_fee_rate args * vsize) = Ok tx1"
        "BitcoinTx_populate_input_sig_message E tx1 0 = Ok tx"
      and st': "st' = st\<lparr>st_recovery_txs := dq_push_back (recovery_dq E) (st_recovery_txs st)
        \<lparr>rt_tx = tx, rt_old_sigset_index = ss_index (ri_old_sigset args),
         rt_new_sigset_index = ss_index (ri_new_sigset args), rt_dest = ri_dest args\<rparr>\<rparr>" .
  from recovery_tx_built [OF refl tx] obtain j btc where j: "same_input i j" "bt_input tx = [j]"
      "bt_output tx = (if ri_fee_rate args * vsize = 0 \<or> dust_value E script_pubkey + ri_fee_rate args * vsize < txo_value expired
        then [\<lparr>txo_value = txo_value expired - ri_fee_rate args * vsize, txo_script_pubkey = script_pubkey\<rparr>] else [])"
      "BitcoinTx_est_vsize E (tx\<lparr>bt_output := [\<lparr>txo_value = txo_value expired, txo_script_pubkey = script_pubkey\<rparr>]\<rparr>) = Ok vsize"
      "BitcoinTx_to_bitcoin_tx E tx = Ok btc"
      "segwit_signature_hash E btc 0 (in_redeem_script j) (in_amount j) = Ok (ts_message (in_signatures j))"
    by auto
  have "in_amount j = txo_value expired" "in_prevout j = \<lparr>op_txid = tx_txid E (ri_expired_tx args), op_vout = ri_vout args\<rparr>"
      "SignatorySet_redeem_script E (ri_old_sigset args) commitment (ri_threshold args) = Ok (in_redeem_script j)"
    using i j(1) by (auto simp: Input_new_def same_input_def ok_simps)
  moreover note contract_deques.recovery_laws [OF assms(1), THEN deque_laws.push_back, OF assms(2) assms(3) [unfolded recoveries_def],
      of "\<lparr>rt_tx = tx, rt_old_sigset_index = ss_index (ri_old_sigset args),
         rt_new_sigset_index = ss_index (ri_new_sigset args), rt_dest = ri_dest args\<rparr>"]
  moreover have "recoveries st' = dq_items (st_recovery_txs st')" "recoveries st = dq_items (st_recovery_txs st)"
    by (simp_all add: recoveries_def)
  moreover note expired com spk j(2-6) st'
  ultimately show ?thesis by (intro exI conjI) (assumption | simp)+
qed

section \<open>Signing\<close>

text \<open>
  The loop of \<^verbatim>\<open>sign\<close> from an index on. Nothing is ever removed from the queue, so its head is at
  position 0 and the cell that \<^verbatim>\<open>set\<close> writes is the one that \<^verbatim>\<open>get\<close> read.
\<close>

definition signing_update :: "recovery_tx \<Rightarrow> recovery_tx \<Rightarrow> bool" where
  "signing_update t t' \<longleftrightarrow> (\<exists>ins n. t' = t\<lparr>rt_tx := (rt_tx t)\<lparr>bt_input := ins, bt_signed_inputs := n\<rparr>\<rparr> \<and>
     list_all2 (\<lambda>i j. j = i\<lparr>in_signatures := in_signatures j\<rparr>) (bt_input (rt_tx t)) ins)"

lemma sign_inputs_frame:
  assumes "sign_inputs E ne xpub sigs ins si n = Inr (ins', si', n')"
  shows "list_all2 (\<lambda>i j. j = i\<lparr>in_signatures := in_signatures j\<rparr>) ins ins'"
  using assms
proof (induction ins arbitrary: si n ins')
  case (Cons i ins)
  from Cons.prems show ?case by (cases rule: sign_inputs_Cons_Inr) (auto dest: Cons.IH)
qed simp

context contract_deques
begin

lemma recovery_items_eq: "dq_ok (st_recovery_txs st) \<Longrightarrow> recovery_items E st = Ok (recoveries st)"
proof -
  assume ok: "dq_ok (st_recovery_txs st)"
  have "recovery_items E st = Ok (map ((!) (recoveries st)) [0..<length (recoveries st)])"
    unfolding recovery_items_def rdq.length_items recoveries_def
    by (rule map_r_Ok) (use rdq.get_items [OF ok] in \<open>auto simp: vec_get_def simp del: length_dq_items\<close>)
  then show ?thesis by (simp add: map_nth)
qed

lemma sign_recovery_txs_to_sign:
  assumes "sign_recovery_txs E xpub sigs [length pre..<length (recoveries st)] si st = Inr (si', st')" and "si \<le> length sigs"
    and "dq_ok (st_recovery_txs st)" and "dq_head (st_recovery_txs st) = 0" and "recoveries st = pre @ txs"
  shows "\<exists>msgs txs' d. to_sign_txs E xpub (map rt_tx txs) = Inr msgs \<and> si \<le> si' \<and> si' \<le> length sigs \<and>
    sigs_match E xpub (slice sigs si si') msgs \<and> to_sign_txs E xpub (map rt_tx txs') = Inr [] \<and>
    st' = st\<lparr>st_recovery_txs := d\<rparr> \<and> dq_ok d \<and> dq_head d = 0 \<and> dq_items d = pre @ txs' \<and>
    list_all2 signing_update txs txs'"
  using assms
proof (induction txs arbitrary: pre si st)
  case Nil
  then have "si' = si" "st' = st" by (simp_all add: recoveries_def del: length_dq_items)
  then show ?case using Nil
    by (intro exI [of _ "[]"] exI [of _ "st_recovery_txs st"]) (simp add: recoveries_def)
next
  case (Cons t txs)
  let ?d = "st_recovery_txs st" and ?k = "length pre"
  have items: "dq_items ?d = pre @ t # txs" using Cons.prems(5) by (simp add: recoveries_def)
  then have k: "?k < dq_len ?d" and get: "dq_get (recovery_dq E) ?d ?k = Some t"
    using rdq.get_items [OF Cons.prems(3)] by (auto simp: vec_get_def simp flip: length_dq_items)
  obtain ins s n where ins: "sign_inputs E (Signer ''Not enough signatures supplied for recovery transaction'') xpub sigs
        (bt_input (rt_tx t)) si (bt_signed_inputs (rt_tx t)) = Inr (ins, s, n)"
      and rest: "sign_recovery_txs E xpub sigs [Suc ?k..<length (recoveries st)] s
        (st\<lparr>st_recovery_txs := DequeExtension_set ?d ?k (t\<lparr>rt_tx := (rt_tx t)\<lparr>bt_input := ins, bt_signed_inputs := n\<rparr>\<rparr>)\<rparr>) = Inr (si', st')"
    using Cons.prems(1) get Cons.prems(5) upt_conv_Cons [of ?k "length (recoveries st)"]
    by (auto simp: ok_simps Let_def simp del: upt_Suc)
  let ?t = "t\<lparr>rt_tx := (rt_tx t)\<lparr>bt_input := ins, bt_signed_inputs := n\<rparr>\<rparr>"
  let ?st = "st\<lparr>st_recovery_txs := DequeExtension_set ?d ?k ?t\<rparr>"
  from sign_inputs_to_sign [OF ins Cons.prems(2)] obtain ms where ms:
    "to_sign_inputs E xpub (bt_input (rt_tx t)) = Inr ms" "si \<le> s" "s \<le> length sigs"
    "to_sign_inputs E xpub ins = Inr []" "sigs_match E xpub (slice sigs si s) ms" by blast
  have st1: "recoveries ?st = (pre @ [?t]) @ txs"
    using DequeExtension_set_items [OF Cons.prems(4) k] by (simp add: recoveries_def items)
  then have len: "length (recoveries ?st) = length (recoveries st)" using Cons.prems(5) by simp
  have "sign_recovery_txs E xpub sigs [length (pre @ [?t])..<length (recoveries ?st)] s ?st = Inr (si', st')"
    using rest unfolding len by simp
  from Cons.IH [OF this ms(3) _ _ st1] Cons.prems(4) DequeExtension_set_ok [OF Cons.prems(3,4) k]
  obtain ms' txs' d where ms': "to_sign_txs E xpub (map rt_tx txs) = Inr ms'" "s \<le> si'" "si' \<le> length sigs"
      "sigs_match E xpub (slice sigs s si') ms'" "to_sign_txs E xpub (map rt_tx txs') = Inr []"
      and d: "st' = st\<lparr>st_recovery_txs := d\<rparr>" "dq_ok d" "dq_head d = 0" "dq_items d = (pre @ [?t]) @ txs'"
      and same: "list_all2 signing_update txs txs'"
    by auto
  have "signing_update t ?t" using sign_inputs_frame [OF ins] by (auto simp: signing_update_def)
  then show ?case
    using ms ms' d sigs_match_append [OF ms(5) ms'(4)] slice_append [OF ms(2) ms'(2), of sigs] same
    by (intro exI [of _ "ms @ ms'"] exI [of _ "?t # txs'"] exI [of _ d]) simp
qed

end

text \<open>
  C18: A signing call for the recovery queue takes exactly the signatures the key owes. If
  \<^verbatim>\<open>sign\<close> accepts a list of signatures for an extended key, the list is not empty and matches the
  messages of \<^verbatim>\<open>to_sign\<close> one by one, each signature verified with the key derived for its signatory
  set; afterwards \<^verbatim>\<open>to_sign\<close> returns no message for the key, and of the queued transactions only
  the signing states of their inputs and the counters of signed inputs have changed.
\<close>

theorem recovery_sign_exact:
  assumes "contract_deques E" and "dq_ok (st_recovery_txs st)" and "dq_head (st_recovery_txs st) = 0"
    and "RecoveryTxs_sign E st xpub sigs = Ok st'"
  shows "\<exists>msgs d. sigs \<noteq> [] \<and> RecoveryTxs_to_sign E st xpub = Ok msgs \<and> sigs_match E xpub sigs msgs \<and>
    RecoveryTxs_to_sign E st' xpub = Ok [] \<and>
    st' = st\<lparr>st_recovery_txs := d\<rparr> \<and> dq_ok d \<and> dq_head d = 0 \<and>
    list_all2 signing_update (recoveries st) (recoveries st')"
proof -
  have "sigs \<noteq> []" and "sign_recovery_txs E xpub sigs [length []..<length (recoveries st)] 0 st = Ok (length sigs, st')"
    using assms(4) deque_laws.length_items [OF contract_deques.recovery_laws [OF assms(1)]]
    by (auto simp: RecoveryTxs_sign_def ok_simps recoveries_def)
  moreover note contract_deques.sign_recovery_txs_to_sign [OF assms(1) this(2) _ assms(2,3), of "recoveries st"]
  ultimately obtain msgs txs' d where "to_sign_txs E xpub (map rt_tx (recoveries st)) = Ok msgs"
      "sigs_match E xpub sigs msgs" "to_sign_txs E xpub (map rt_tx txs') = Ok []"
      "st' = st\<lparr>st_recovery_txs := d\<rparr>" "dq_ok d" "dq_head d = 0" "dq_items d = txs'"
      "list_all2 signing_update (recoveries st) txs'"
    by auto
  then show ?thesis
    using \<open>sigs \<noteq> []\<close> contract_deques.recovery_items_eq [OF assms(1)] assms(2)
    by (intro exI [of _ msgs] exI [of _ d]) (simp add: RecoveryTxs_to_sign_def recoveries_def)
qed

end
