(* ===== verification/App.thy ===== *)
theory App
  imports HeaderQueue CheckpointQueue SignatoryKeys OutpointSet Fee Recovery
begin

text \<open>
  \<^verbatim>\<open>app.rs\<close>: the structure \<^verbatim>\<open>Bitcoin\<close>, which ties the components together: deposits,
  withdrawals, confirmations of checkpoints, the pending transfers, the fee pool and the step
  that is run once per block.
\<close>

section \<open>Configuration and reads\<close>

definition calc_deposit_fee :: "u128 \<Rightarrow> u64" where
  "calc_deposit_fee amount = 0"

definition Bitcoin_fee_pool :: "store \<Rightarrow> i64" where
  "Bitcoin_fee_pool st = (case st_fee_pool st of Some n \<Rightarrow> n | None \<Rightarrow> 0)"

definition Bitcoin_network :: network where
  [simp]: "Bitcoin_network = HeaderQueue_network"

definition Bitcoin_config :: "store \<Rightarrow> bitcoin_config result" where
  "Bitcoin_config st = load (st_bitcoin_config st)"

definition Bitcoin_configure :: "store \<Rightarrow> bitcoin_config \<Rightarrow> store" where
  "Bitcoin_configure st config = st\<lparr>st_bitcoin_config := Some config\<rparr>"

definition Bitcoin_get_checkpoint :: "'x contract_ext_scheme \<Rightarrow> store \<Rightarrow> u32 option \<Rightarrow> checkpoint result" where
  "Bitcoin_get_checkpoint E st index =
     (case index of
        Some index \<Rightarrow> CheckpointQueue_get E st index
      | None \<Rightarrow> bnd (CheckpointQueue_index st) (\<lambda>index. CheckpointQueue_get E st index))"

definition Bitcoin_set_signatory_key ::
  "'x contract_ext_scheme \<Rightarrow> store \<Rightarrow> addr \<Rightarrow> xpub \<Rightarrow> store result"
where
  "Bitcoin_set_signatory_key E st signer signatory_key =
     bnd (ok_or (App ''Signer does not have a consensus key'') (st_signers st signer)) (\<lambda>consensus_key.
     bnd (throw_if (xp_network signatory_key \<noteq> Bitcoin_network)
            (App ''Signatory key network does not match network'')) (\<lambda>_.
     SignatoryKeys_insert E st consensus_key signatory_key))"

definition Bitcoin_calc_minimum_deposit_fees :: "store \<Rightarrow> u64 \<Rightarrow> u64 \<Rightarrow> u64 result" where
  "Bitcoin_calc_minimum_deposit_fees st input_vsize fee_rate =
     bnd (Bitcoin_config st) (\<lambda>config.
     bnd (mul_u64 input_vsize fee_rate) (\<lambda>a.
     bnd (CheckpointQueue_config st) (\<lambda>cp_config.
     bnd (mul_u64 a (cc_user_fee_factor cp_config)) (\<lambda>b.
     mul_u64 (b div 10000) (bc_units_per_sat config)))))"

definition Bitcoin_calc_minimum_withdrawal_fees :: "store \<Rightarrow> u64 \<Rightarrow> u64 \<Rightarrow> u64 result" where
  "Bitcoin_calc_minimum_withdrawal_fees st script_pubkey_length fee_rate =
     bnd (Bitcoin_config st) (\<lambda>config.
     bnd (add_u64 9 script_pubkey_length) (\<lambda>size.
     bnd (mul_u64 size fee_rate) (\<lambda>a.
     bnd (CheckpointQueue_config st) (\<lambda>cp_config.
     bnd (mul_u64 a (cc_user_fee_factor cp_config)) (\<lambda>b.
     mul_u64 (b div 10000) (bc_units_per_sat config))))))"

definition Bitcoin_value_locked :: "'x contract_ext_scheme \<Rightarrow> store \<Rightarrow> u64 result" where
  "Bitcoin_value_locked E st =
     bnd (CheckpointQueue_last_completed E st) (\<lambda>last_completed.
     bnd (Checkpoint_reserve_output E last_completed) (\<lambda>out.
     bnd (unwrap out) (\<lambda>out. Ok (txo_value out))))"

section \<open>Deposits, withdrawals and confirmations\<close>

definition Bitcoin_give_miner_fee :: "'x contract_ext_scheme \<Rightarrow> store \<Rightarrow> u128 \<Rightarrow> store result" where
  "Bitcoin_give_miner_fee E st amount =
     bnd (Bitcoin_config st) (\<lambda>config.
     let amount = as_u64 amount
     in bnd (add_i64 (Bitcoin_fee_pool st) (as_i64 amount)) (\<lambda>fee_pool.
        let st = st\<lparr>st_fee_pool := Some fee_pool\<rparr>
        in bnd (CheckpointQueue_building E st) (\<lambda>checkpoint.
           bnd (div_r amount (bc_units_per_sat config)) (\<lambda>sats.
           bnd (add_u64 (cp_fees_collected checkpoint) sats) (\<lambda>fees.
           bnd (CheckpointQueue_index st) (\<lambda>index.
           CheckpointQueue_set E st index (checkpoint\<lparr>cp_fees_collected := fees\<rparr>)))))))"

text \<open>
  The proof that a transaction is in a block of the header queue, with enough confirmations:
  the check both relay handlers make. The result is the only transaction id of the proof.
\<close>

definition verify_inclusion ::
  "'x contract_ext_scheme \<Rightarrow> store \<Rightarrow> u32 \<Rightarrow> bytes \<Rightarrow> u32 \<Rightarrow> txid result"
where
  "verify_inclusion E st btc_height btc_proof min_confirmations =
     bnd (HeaderQueue_get_by_height E st btc_height None) (\<lambda>item.
     bnd (ok_or (App ''Invalid bitcoin block height'') item) (\<lambda>btc_header.
     bnd (sub_w (HeaderQueue_height E st) btc_height) (\<lambda>confirmations.
     bnd (throw_if (confirmations < min_confirmations) (App ''Block is not sufficiently confirmed'')) (\<lambda>_.
     bnd (ok_or BitcoinMerkleBlockError (extract_matches E btc_proof)) (\<lambda>(proof_merkle_root, txids).
     bnd (throw_if (proof_merkle_root \<noteq> WorkHeader_merkle_root btc_header)
            (App ''Bitcoin merkle proof does not match header'')) (\<lambda>_.
     bnd (throw_if (length txids \<noteq> 1)
            (App ''Bitcoin merkle proof contains an invalid number of txids'')) (\<lambda>_.
     Ok (txids ! 0))))))))"

text \<open>
  \<^verbatim>\<open>relay_deposit\<close>: the checks up to the comparison of the output's script with the one of the
  signatory set, with what they read, and then the deposit itself.
\<close>

definition deposit_checks ::
  "'x contract_ext_scheme \<Rightarrow> store \<Rightarrow> transaction \<Rightarrow> u32 \<Rightarrow> bytes \<Rightarrow> u32 \<Rightarrow> u32 \<Rightarrow> dest \<Rightarrow>
   (bitcoin_config \<times> checkpoint \<times> bytes \<times> checkpoint_config) result"
where
  "deposit_checks E st btc_tx btc_height btc_proof btc_vout sigset_index dest =
     bnd (Bitcoin_config st) (\<lambda>config.
     bnd (verify_inclusion E st btc_height btc_proof (bc_min_confirmations config)) (\<lambda>txid.
     bnd (throw_if (txid \<noteq> tx_txid E btc_tx) (App ''Bitcoin merkle proof does not match transaction'')) (\<lambda>_.
     bnd (throw_if (btc_vout \<ge> length (btx_output btc_tx)) (App ''Output index is out of bounds'')) (\<lambda>_.
     let output = btx_output btc_tx ! btc_vout
     in bnd (CheckpointQueue_get E st sigset_index) (\<lambda>checkpoint.
        bnd (Dest_commitment_bytes E dest) (\<lambda>dest_bytes.
        bnd (CheckpointQueue_config st) (\<lambda>cp_config.
        bnd (SignatorySet_output_script E (cp_sigset checkpoint) dest_bytes (cc_sigset_threshold cp_config)) (\<lambda>expected_script.
        bnd (throw_if (txo_script_pubkey output \<noteq> expected_script)
               (App ''Output script does not match signature set'')) (\<lambda>_.
        Ok (config, checkpoint, dest_bytes, cp_config))))))))))"

definition Bitcoin_relay_deposit ::
  "'x contract_ext_scheme \<Rightarrow> env \<Rightarrow> store \<Rightarrow> transaction \<Rightarrow> u32 \<Rightarrow> bytes \<Rightarrow> u32 \<Rightarrow> u32 \<Rightarrow> dest \<Rightarrow> store result"
where
  "Bitcoin_relay_deposit E env st btc_tx btc_height btc_proof btc_vout sigset_index dest =
     bnd (deposit_checks E st btc_tx btc_height btc_proof btc_vout sigset_index dest)
       (\<lambda>(config, checkpoint, dest_bytes, cp_config).
     let output = btx_output btc_tx ! btc_vout;
         sigset = cp_sigset checkpoint;
         prevout = \<lparr>op_txid = tx_txid E btc_tx, op_vout = btc_vout\<rparr>
     in bnd (throw_if (OutpointSet_contains E st prevout) (App ''Output has already been relayed'')) (\<lambda>_.
        bnd (add_u64 (ss_create_time sigset) (bc_max_deposit_age config)) (\<lambda>deposit_timeout.
        let st = OutpointSet_insert E st prevout deposit_timeout
        in bnd (throw_if (\<not> cp_deposits_enabled checkpoint)
                  (App ''Deposits are disabled for the given checkpoint'')) (\<lambda>_.
           if env_seconds env > deposit_timeout then
             bnd (CheckpointQueue_building E st) (\<lambda>building.
             RecoveryTxs_create_recovery_tx E st
               \<lparr>ri_expired_tx = btc_tx, ri_vout = btc_vout, ri_old_sigset = sigset,
                ri_new_sigset = cp_sigset building, ri_threshold = cc_sigset_threshold cp_config,
                ri_fee_rate = cp_fee_rate building, ri_dest = dest\<rparr>)
           else
             bnd (Input_new E prevout sigset dest_bytes (txo_value output) (cc_sigset_threshold cp_config)) (\<lambda>input.
             bnd (Input_est_vsize input) (\<lambda>input_size.
             bnd (mul_u64 (txo_value output) (bc_units_per_sat config)) (\<lambda>mint_amount.
             bnd (load (st_config st)) (\<lambda>cfg.
             let denom = get_full_btc_denom (cf_token_factory_addr cfg)
             in bnd (Bitcoin_calc_minimum_deposit_fees st input_size (cp_fee_rate checkpoint)) (\<lambda>fee_amount.
                bnd (add_u64 fee_amount (calc_deposit_fee mint_amount)) (\<lambda>fee.
                bnd (ok_or (App ''Deposit amount is too small to pay its spending fee'')
                       (checked_sub mint_amount fee)) (\<lambda>amount.
                bnd (Bitcoin_give_miner_fee E st fee) (\<lambda>st.
                bnd (CheckpointQueue_building E st) (\<lambda>building.
                bnd (first_tx building) (\<lambda>tx.
                let building = BuildingCheckpoint_insert_pending
                      (set_first_tx building (tx\<lparr>bt_input := bt_input tx @ [input]\<rparr>))
                      dest \<lparr>coin_denom = denom, coin_amount = amount\<rparr>
                in bnd (CheckpointQueue_index st) (\<lambda>index.
                   CheckpointQueue_set E st index building)))))))))))))))"

definition Bitcoin_relay_checkpoint ::
  "'x contract_ext_scheme \<Rightarrow> store \<Rightarrow> u32 \<Rightarrow> bytes \<Rightarrow> u32 \<Rightarrow> store result"
where
  "Bitcoin_relay_checkpoint E st btc_height btc_proof cp_index =
     bnd (Bitcoin_config st) (\<lambda>config.
     bnd (throw_if (case CheckpointQueue_confirmed_index st of
                      Some conf_index \<Rightarrow> cp_index \<le> conf_index | None \<Rightarrow> False)
            (App ''Checkpoint has already been relayed'')) (\<lambda>_.
     bnd (verify_inclusion E st btc_height btc_proof (bc_min_checkpoint_confirmations config)) (\<lambda>txid.
     bnd (CheckpointQueue_get E st cp_index) (\<lambda>cp.
     bnd (Checkpoint_checkpoint_tx E cp) (\<lambda>btc_tx.
     bnd (throw_if (txid \<noteq> tx_txid E btc_tx) (App ''Bitcoin merkle proof does not match transaction'')) (\<lambda>_.
     Ok (st\<lparr>st_confirmed_index := Some cp_index\<rparr>)))))))"

definition Bitcoin_add_withdrawal ::
  "'x contract_ext_scheme \<Rightarrow> store \<Rightarrow> script \<Rightarrow> u128 \<Rightarrow> store result"
where
  "Bitcoin_add_withdrawal E st script_pubkey amount =
     bnd (Bitcoin_config st) (\<lambda>config.
     bnd (throw_if (length script_pubkey > bc_max_withdrawal_script_length config)
            (App ''Script exceeds maximum length'')) (\<lambda>_.
     bnd (throw_if (CheckpointQueue_len E st < bc_min_withdrawal_checkpoints config)
            (App (''Withdrawals are disabled until the network has produced at least '' @
                  nat_to_string (bc_min_withdrawal_checkpoints config) @ '' checkpoints''))) (\<lambda>_.
     bnd (CheckpointQueue_building E st) (\<lambda>building.
     bnd (Bitcoin_calc_minimum_withdrawal_fees st (length script_pubkey) (cp_fee_rate building)) (\<lambda>fee.
     bnd (ok_or (App ''Withdrawal is too small to pay its miner fee'') (checked_sub amount fee)) (\<lambda>amount.
     bnd (Bitcoin_give_miner_fee E st fee) (\<lambda>st.
     bnd (div_r (as_u64 amount) (bc_units_per_sat config)) (\<lambda>value.
     bnd (throw_if (value \<le> dust_value E script_pubkey)
            (App ''Withdrawal is too small to pay its dust limit'')) (\<lambda>_.
     bnd (CheckpointQueue_building E st) (\<lambda>checkpoint.
     bnd (first_tx checkpoint) (\<lambda>tx.
     let output = \<lparr>txo_value = value, txo_script_pubkey = script_pubkey\<rparr>
     in bnd (CheckpointQueue_index st) (\<lambda>index.
        CheckpointQueue_set E st index
          (set_first_tx checkpoint (tx\<lparr>bt_output := bt_output tx @ [output]\<rparr>))))))))))))))"

section \<open>Pending transfers\<close>

text \<open>The loop that takes the pending transfers of the checkpoints with the given indexes.\<close>

fun take_pending ::
  "'x contract_ext_scheme \<Rightarrow> store \<Rightarrow> u32 list \<Rightarrow> ((dest \<times> coin) list list \<times> store) result"
where
  "take_pending E st [] = Ok ([], st)"
| "take_pending E st (i # is) =
     bnd (CheckpointQueue_get E st i) (\<lambda>checkpoint.
     bnd (CheckpointQueue_set E st i (checkpoint\<lparr>cp_pending := []\<rparr>)) (\<lambda>st.
     bnd (take_pending E st is) (\<lambda>(dests, st).
     Ok (cp_pending checkpoint # dests, st))))"

definition Bitcoin_take_pending_confirmed ::
  "'x contract_ext_scheme \<Rightarrow> store \<Rightarrow> ((dest \<times> coin) list list \<times> store) result"
where
  "Bitcoin_take_pending_confirmed E st =
     (case CheckpointQueue_unhandled_confirmed E st of
        Inl (Fail _) \<Rightarrow> Ok ([], st)
      | Inl Panic \<Rightarrow> panic
      | Inr unhandled_confirmed_cps \<Rightarrow>
          bnd (take_pending E st unhandled_confirmed_cps) (\<lambda>(confirmed_dests, st).
          case vec_last unhandled_confirmed_cps of
            Some last_index \<Rightarrow>
              bnd (add_u32 last_index 1) (\<lambda>n.
              Ok (confirmed_dests, st\<lparr>st_first_unhandled_confirmed_index := Some n\<rparr>))
          | None \<Rightarrow> Ok (confirmed_dests, st)))"

definition Bitcoin_take_pending_completed ::
  "'x contract_ext_scheme \<Rightarrow> store \<Rightarrow> ((dest \<times> coin) list list \<times> store) result"
where
  "Bitcoin_take_pending_completed E st =
     bnd (Bitcoin_take_pending_confirmed E st) (\<lambda>(confirmed_dests, st).
     case CheckpointQueue_last_completed_index E st of
       Inl err \<Rightarrow>
         (if err = Fail (App ''No completed checkpoints yet'') then Ok ([], st) else Inl err)
     | Inr last_completed_index \<Rightarrow>
         (let confirmed_index =
                (case CheckpointQueue_confirmed_index st of Some i \<Rightarrow> i | None \<Rightarrow> 0)
          in bnd (take_pending E st [confirmed_index..<Suc last_completed_index]) (\<lambda>(completed_dests, st).
             Ok (confirmed_dests @ completed_dests, st))))"

section \<open>The step of a block\<close>

text \<open>Whether a signatory has left signatures open in every one of the checkpoints.\<close>

fun all_unsigned :: "'x contract_ext_scheme \<Rightarrow> xpub \<Rightarrow> checkpoint list \<Rightarrow> bool result" where
  "all_unsigned E xpub [] = Ok True"
| "all_unsigned E xpub (checkpoint # rest) =
     bnd (Checkpoint_to_sign E checkpoint xpub) (\<lambda>msgs.
     if msgs = [] then Ok False else all_unsigned E xpub rest)"

fun collect_offline ::
  "'x contract_ext_scheme \<Rightarrow> store \<Rightarrow> u64 \<Rightarrow> checkpoint list \<Rightarrow> validator list \<Rightarrow> consensus_key list result"
where
  "collect_offline E st lowest_power completed [] = Ok []"
| "collect_offline E st lowest_power completed (v # vs) =
     (if val_power v < lowest_power then Ok []
      else case SignatoryKeys_get st (val_pubkey v) of
             None \<Rightarrow> collect_offline E st lowest_power completed vs
           | Some xpub \<Rightarrow>
               bnd (all_unsigned E xpub (rev completed)) (\<lambda>offline.
               bnd (collect_offline E st lowest_power completed vs) (\<lambda>keys.
               Ok (if offline then val_pubkey v # keys else keys))))"

text \<open>The sort by descending power is stable.\<close>

definition Bitcoin_offline_signers :: "'x contract_ext_scheme \<Rightarrow> store \<Rightarrow> consensus_key list result" where
  "Bitcoin_offline_signers E st =
     bnd (Bitcoin_config st) (\<lambda>config.
     let validators = rev (sort_key val_power (rev (get_validators st)));
         offline_threshold = bc_max_offline_checkpoints config
     in bnd (CheckpointQueue_active_sigset E st) (\<lambda>sigset.
        bnd (unwrap (vec_last (ss_signatories sigset))) (\<lambda>lowest.
        bnd (CheckpointQueue_completed E st offline_threshold) (\<lambda>completed.
        if length completed < offline_threshold then Ok []
        else collect_offline E st (sg_voting_power lowest) completed validators))))"

definition Bitcoin_begin_block_step ::
  "'x contract_ext_scheme \<Rightarrow> env \<Rightarrow> store \<Rightarrow> bytes \<Rightarrow> (consensus_key list \<times> store) result"
where
  "Bitcoin_begin_block_step E env st timestamping_commitment =
     bnd (Bitcoin_config st) (\<lambda>config.
     bnd (case CheckpointQueue_last_completed_index E st of
            Inl (Fail (App err)) \<Rightarrow>
              (if err = ''No completed checkpoints yet'' then Ok False else Err (App err))
          | Inl Panic \<Rightarrow> panic
          | _ \<Rightarrow> Ok True) (\<lambda>has_completed_cp.
     bnd (if has_completed_cp
          then bnd (Bitcoin_value_locked E st) (\<lambda>value. Ok (value \<ge> bc_capacity_limit config))
          else Ok False) (\<lambda>reached_capacity_limit.
     let btc_height = HeaderQueue_height E st
     in bnd (CheckpointQueue_maybe_step E env st btc_height (\<not> reached_capacity_limit)
               timestamping_commitment config) (\<lambda>(pushed, st).
        if pushed then bnd (Bitcoin_offline_signers E st) (\<lambda>keys. Ok (keys, st))
        else Ok ([], st)))))"

definition Bitcoin_punish_validator ::
  "'x contract_ext_scheme \<Rightarrow> store \<Rightarrow> consensus_key \<Rightarrow> string \<Rightarrow> store"
where
  "Bitcoin_punish_validator E st cons_key addr =
     (let st = st\<lparr>st_validators := omap_remove cons_key (st_validators st),
                  st_signers := (st_signers st)(addr := None)\<rparr>
      in case map_of (st_sig_keys st) cons_key of
           Some xpub \<Rightarrow>
             st\<lparr>st_xpubs := st_xpubs st - {xpub_encode E xpub},
                st_sig_keys := omap_remove cons_key (st_sig_keys st)\<rparr>
         | None \<Rightarrow> st)"

text \<open>
  The key of a punished validator stays taken. Punishing removes the key as it was registered
  from the set of taken keys, which holds its normalized form; if the two differ, the same key can
  not be registered again, neither by the same validator nor by another.
\<close>

lemma punished_key_stays_taken:
  assumes "SignatoryKeys_insert E st k x = Ok st'" and "xpub_encode E x \<noteq> xpub_encode E (normalized x)"
  shows "SignatoryKeys_get (Bitcoin_punish_validator E st' k addr) k = None \<and>
    SignatoryKeys_insert E (Bitcoin_punish_validator E st' k addr) k' x = Err (App ''Duplicate signatory key'')"
proof -
  have st': "st' = st\<lparr>st_sig_keys := omap_save k x (st_sig_keys st),
              st_xpubs := insert (xpub_encode E (normalized x)) (st_xpubs st)\<rparr>"
    using assms(1) by (simp add: keys_insert_Inr_iff)
  show ?thesis
    using assms(2) by (simp add: st' Bitcoin_punish_validator_def SignatoryKeys_get_def SignatoryKeys_insert_def
        Let_def map_of_omap_remove)
qed

section \<open>Deposits\<close>

lemma set_frame:
  "CheckpointQueue_set E st j cp = Inr st' \<Longrightarrow> \<exists>d. st' = st\<lparr>st_checkpoints := d\<rparr>"
  by (auto simp: CheckpointQueue_set_def ok_simps)

lemma give_miner_fee_set:
  assumes "Bitcoin_give_miner_fee E st n = Inr st'"
  obtains config cp index where "st_bitcoin_config st = Some config" "bc_units_per_sat config \<noteq> 0"
    "CheckpointQueue_building E (st\<lparr>st_fee_pool := Some (Bitcoin_fee_pool st + as_i64 (as_u64 n))\<rparr>) = Inr cp"
    "CheckpointQueue_index st = Inr index"
    "CheckpointQueue_set E (st\<lparr>st_fee_pool := Some (Bitcoin_fee_pool st + as_i64 (as_u64 n))\<rparr>) index
       (cp\<lparr>cp_fees_collected := cp_fees_collected cp + as_u64 n div bc_units_per_sat config\<rparr>) = Inr st'"
    "in_i64 (Bitcoin_fee_pool st + as_i64 (as_u64 n))"
    "cp_fees_collected cp + as_u64 n div bc_units_per_sat config < 2 ^ 64"
  using assms by (auto simp: Bitcoin_give_miner_fee_def Bitcoin_config_def CheckpointQueue_index_def ok_simps Let_def)

lemma give_miner_fee_frame:
  "Bitcoin_give_miner_fee E st n = Inr st' \<Longrightarrow> \<exists>p d. st' = st\<lparr>st_fee_pool := p, st_checkpoints := d\<rparr>"
  by (erule give_miner_fee_set) (blast dest: set_frame)

lemma recovery_frame:
  "RecoveryTxs_create_recovery_tx E st args = Inr st' \<Longrightarrow> \<exists>d. st' = st\<lparr>st_recovery_txs := d\<rparr>"
  by (auto simp: RecoveryTxs_create_recovery_tx_def ok_simps Let_def)

lemma relay_deposit_Inr:
  assumes "Bitcoin_relay_deposit E env st btc_tx btc_height proof vout sigset_index dest = Inr st'"
  defines "prevout \<equiv> \<lparr>op_txid = tx_txid E btc_tx, op_vout = vout\<rparr>"
  obtains config cp cp_config bytes timeout st0 where
    "st_bitcoin_config st = Some config"
    "verify_inclusion E st btc_height proof (bc_min_confirmations config) = Inr (tx_txid E btc_tx)"
    "vout < length (btx_output btc_tx)" "CheckpointQueue_get E st sigset_index = Inr cp"
    "Dest_commitment_bytes E dest = Inr bytes" "CheckpointQueue_config st = Inr cp_config"
    "SignatorySet_output_script E (cp_sigset cp) bytes (cc_sigset_threshold cp_config) =
       Inr (txo_script_pubkey (btx_output btc_tx ! vout))"
    "\<not> OutpointSet_contains E st prevout" "cp_deposits_enabled cp"
    "timeout = ss_create_time (cp_sigset cp) + bc_max_deposit_age config"
    "st0 = OutpointSet_insert E st prevout timeout"
    "timeout < env_seconds env \<Longrightarrow> \<exists>args. RecoveryTxs_create_recovery_tx E st0 args = Inr st'"
    "\<not> timeout < env_seconds env \<Longrightarrow> \<exists>input size cfg fee st1 building tx index.
       Input_new E prevout (cp_sigset cp) bytes (txo_value (btx_output btc_tx ! vout)) (cc_sigset_threshold cp_config) = Inr input \<and>
       Input_est_vsize input = Inr size \<and> st_config st0 = Some cfg \<and>
       Bitcoin_calc_minimum_deposit_fees st0 size (cp_fee_rate cp) = Inr fee \<and>
       fee \<le> txo_value (btx_output btc_tx ! vout) * bc_units_per_sat config \<and>
       txo_value (btx_output btc_tx ! vout) * bc_units_per_sat config < 2 ^ 64 \<and>
       Bitcoin_give_miner_fee E st0 fee = Inr st1 \<and> CheckpointQueue_building E st1 = Inr building \<and>
       first_tx building = Inr tx \<and> CheckpointQueue_index st1 = Inr index \<and>
       CheckpointQueue_set E st1 index (BuildingCheckpoint_insert_pending
         (set_first_tx building (tx\<lparr>bt_input := bt_input tx @ [input]\<rparr>)) dest
         \<lparr>coin_denom = get_full_btc_denom (cf_token_factory_addr cfg),
          coin_amount = txo_value (btx_output btc_tx ! vout) * bc_units_per_sat config - fee\<rparr>) = Inr st'"
proof -
  from assms(1) show thesis
    unfolding Bitcoin_relay_deposit_def deposit_checks_def prevout_def [symmetric] Let_def Bitcoin_config_def
    apply (simp add: ok_simps not_le)
    apply clarify
    apply (rule that)
    apply (assumption | rule refl)+
    subgoal by (auto simp: ok_simps)
    subgoal by (simp add: ok_simps calc_deposit_fee_def) blast
    done
qed


text \<open>A relayed output was not known before and is known afterwards.\<close>

lemma relay_deposit_contains:
  assumes "Bitcoin_relay_deposit E env st btc_tx btc_height proof vout sigset_index dest = Inr st'"
  shows "\<not> OutpointSet_contains E st \<lparr>op_txid = tx_txid E btc_tx, op_vout = vout\<rparr> \<and>
    OutpointSet_contains E st' \<lparr>op_txid = tx_txid E btc_tx, op_vout = vout\<rparr>"
  using assms
proof (rule relay_deposit_Inr, goal_cases)
  case (1 config cp cp_config bytes timeout st0)
  have "st_outpoints st' = st_outpoints st0"
  proof (cases "timeout < env_seconds env")
    case True
    then show ?thesis using 1(12) recovery_frame [of E st0 _ st'] by fastforce
  next
    case False
    then obtain fee st1 index b where "Bitcoin_give_miner_fee E st0 fee = Inr st1" "CheckpointQueue_set E st1 index b = Inr st'"
      using 1(13) by blast
    then show ?thesis using give_miner_fee_frame [of E st0 fee st1] set_frame [of E st1 index b st']
      by fastforce
  qed
  then have "OutpointSet_contains E st' \<lparr>op_txid = tx_txid E btc_tx, op_vout = vout\<rparr>"
    by (simp add: 1(11) OutpointSet_contains_def OutpointSet_insert_def Let_def)
  then show ?case using 1(8) by blast
qed


context contract_deques
begin

text \<open>On an unpruned queue, the miner fee goes to the pool and to the checkpoint being built.\<close>

lemma give_miner_fee_unpruned:
  assumes inv: "unpruned st i" and fee: "Bitcoin_give_miner_fee E st n = Inr st'" and cfg: "st_bitcoin_config st = Some config"
  defines "b \<equiv> last (queue st)"
  shows "queue st \<noteq> []" and "unpruned st' i" and "length (queue st) = i + 1"
    and "queue st' = (queue st)[i := b\<lparr>cp_fees_collected := cp_fees_collected b + as_u64 n div bc_units_per_sat config\<rparr>]"
    and "st_fee_pool st' = Some (Bitcoin_fee_pool st + as_i64 (as_u64 n))"
    and "CheckpointQueue_building E st' =
      Ok (b\<lparr>cp_fees_collected := cp_fees_collected b + as_u64 n div bc_units_per_sat config\<rparr>)"
    and "CheckpointQueue_index st' = Ok i"
proof -
  let ?p = "Some (Bitcoin_fee_pool st + as_i64 (as_u64 n))"
  obtain cp index where cp: "CheckpointQueue_building E (st\<lparr>st_fee_pool := ?p\<rparr>) = Inr cp"
      and index: "CheckpointQueue_index st = Inr index"
      and set: "CheckpointQueue_set E (st\<lparr>st_fee_pool := ?p\<rparr>) index
       (cp\<lparr>cp_fees_collected := cp_fees_collected cp + as_u64 n div bc_units_per_sat config\<rparr>) = Inr st'"
    using fee cfg by (auto elim: give_miner_fee_set)
  have inv': "unpruned (st\<lparr>st_fee_pool := ?p\<rparr>) i" using inv by simp
  show ne: "queue st \<noteq> []"
    using cp unfolding building_unpruned [OF inv'] by (auto split: if_splits)
  then have b: "cp = b" using cp unfolding building_unpruned [OF inv'] by (simp add: b_def)
  have i: "index = i" using index index_unpruned [OF inv] by simp
  show inv2: "unpruned st' i" and q: "queue st' = (queue st)[i := b\<lparr>cp_fees_collected :=
      cp_fees_collected b + as_u64 n div bc_units_per_sat config\<rparr>]"
    using set_unpruned_Inr(1,2) [OF inv' set] by (simp_all add: i b)
  show "length (queue st) = i + 1" by (rule length_unpruned [OF inv ne])
  then show "CheckpointQueue_building E st' =
      Ok (b\<lparr>cp_fees_collected := cp_fees_collected b + as_u64 n div bc_units_per_sat config\<rparr>)"
    using ne unfolding building_unpruned [OF inv2] q by (simp add: last_list_update)
  show "st_fee_pool st' = ?p" using set_frame [OF set] by auto
  show "CheckpointQueue_index st' = Ok i" by (rule index_unpruned [OF inv2])
qed

lemma set_building_unpruned:
  assumes "unpruned st i" and "queue st \<noteq> []" and "CheckpointQueue_set E st i cp = Inr st'"
  shows "unpruned st' i" and "queue st' = butlast (queue st) @ [cp]"
  using set_unpruned_Inr(1,2) [OF assms(1,3)] length_unpruned [OF assms(1,2)] assms(2)
  by (simp_all add: butlast_conv_take upd_conv_take_nth_drop)

end

lemma first_tx_fees [simp]: "first_tx (b\<lparr>cp_fees_collected := n\<rparr>) = first_tx b" "first_tx (b\<lparr>cp_pending := p\<rparr>) = first_tx b"
  by (simp_all add: first_tx_def)

text \<open>
  C4: A deposit is accounted for, as long as nothing was pruned from the checkpoint queue. On such a
  queue, relaying a deposit in time appends to the transaction of the checkpoint being built one
  input that spends exactly the deposited output, and to its pending
  transfers one for the destination; the amount of the transfer and the miner fee are together the
  value of the output in token units, the fee goes to the fee pool and to the fees of the checkpoint,
  and no other checkpoint changes.
\<close>

theorem deposit_accounting:
  assumes "contract_deques E" and "unpruned st i" and "st_bitcoin_config st = Some config"
    and "Bitcoin_relay_deposit E env st btc_tx btc_height proof vout sigset_index dest = Ok st'"
    and "CheckpointQueue_get E st sigset_index = Ok cp"
    and "env_seconds env \<le> ss_create_time (cp_sigset cp) + bc_max_deposit_age config"
  shows "\<exists>b tx input coin fee. queue st' = butlast (queue st) @ [b] \<and>
    first_tx (last (queue st)) = Ok tx \<and> first_tx b = Ok (tx\<lparr>bt_input := bt_input tx @ [input]\<rparr>) \<and>
    in_prevout input = \<lparr>op_txid = tx_txid E btc_tx, op_vout = vout\<rparr> \<and>
    in_amount input = txo_value (btx_output btc_tx ! vout) \<and>
    in_script_pubkey input = txo_script_pubkey (btx_output btc_tx ! vout) \<and>
    cp_pending b = cp_pending (last (queue st)) @ [(dest, coin)] \<and>
    coin_amount coin + fee = txo_value (btx_output btc_tx ! vout) * bc_units_per_sat config \<and>
    cp_fees_collected b = cp_fees_collected (last (queue st)) + fee div bc_units_per_sat config \<and>
    st_fee_pool st' = Some (Bitcoin_fee_pool st + as_i64 fee)"
  using assms(4)
proof (rule relay_deposit_Inr, goal_cases)
  case (1 config' cp' cp_config bytes timeout st0)
  define amt where "amt = txo_value (btx_output btc_tx ! vout)"
  define b0 where "b0 = last (queue st)"
  have [simp]: "config' = config" "cp' = cp" using 1(1,4) assms(3,5) by simp_all
  have nt: "\<not> timeout < env_seconds env" using assms(6) 1(10) by simp
  obtain input cfg fee st1 building tx index where
      input: "Input_new E \<lparr>op_txid = tx_txid E btc_tx, op_vout = vout\<rparr> (cp_sigset cp) bytes amt (cc_sigset_threshold cp_config) = Inr input"
      and fee: "fee \<le> amt * bc_units_per_sat config" "amt * bc_units_per_sat config < 2 ^ 64"
      and give: "Bitcoin_give_miner_fee E st0 fee = Inr st1" and b: "CheckpointQueue_building E st1 = Inr building"
      and tx: "first_tx building = Inr tx" and ix: "CheckpointQueue_index st1 = Inr index"
      and "st_config st0 = Some cfg"
      and set0: "CheckpointQueue_set E st1 index (BuildingCheckpoint_insert_pending
         (set_first_tx building (tx\<lparr>bt_input := bt_input tx @ [input]\<rparr>)) dest
         \<lparr>coin_denom = get_full_btc_denom (cf_token_factory_addr cfg), coin_amount = amt * bc_units_per_sat config - fee\<rparr>) = Inr st'"
    using 1(13) [OF nt, unfolded \<open>config' = config\<close> \<open>cp' = cp\<close>, folded amt_def] by (elim exE conjE) (rule that)
  define coin where "coin = \<lparr>coin_denom = get_full_btc_denom (cf_token_factory_addr cfg),
    coin_amount = amt * bc_units_per_sat config - fee\<rparr>"
  have coin: "coin_amount coin = amt * bc_units_per_sat config - fee" by (simp add: coin_def)
  note set = set0 [folded coin_def]
  have inv0: "unpruned st0 i" "queue st0 = queue st" "Bitcoin_fee_pool st0 = Bitcoin_fee_pool st" "st_bitcoin_config st0 = Some config"
    using assms(2,3) by (simp_all add: 1(11) OutpointSet_insert_def Let_def Bitcoin_fee_pool_def)
  note G = contract_deques.give_miner_fee_unpruned [OF assms(1) inv0(1) give inv0(4), unfolded inv0(2,3)]
  have f64: "as_u64 fee = fee" using fee by (simp add: as_u64_def)
  have bd: "building = b0\<lparr>cp_fees_collected := cp_fees_collected b0 + fee div bc_units_per_sat config\<rparr>"
    using b G(6) by (simp add: f64 b0_def)
  have ne: "queue st1 \<noteq> []" using G(1,4) by simp
  have "butlast (queue st1) = butlast (queue st)"
    using G(3,4) by (simp add: butlast_list_update)
  then have q: "queue st' = butlast (queue st) @ [BuildingCheckpoint_insert_pending
         (set_first_tx building (tx\<lparr>bt_input := bt_input tx @ [input]\<rparr>)) dest coin]"
    using contract_deques.set_building_unpruned(2) [OF assms(1) G(2) ne] set ix G(7) by simp
  have "st_fee_pool st' = st_fee_pool st1" using set_frame [OF set] by auto
  moreover have "first_tx b0 = Ok tx" using tx by (simp add: bd)
  moreover have "in_script_pubkey input = txo_script_pubkey (btx_output btc_tx ! vout) \<and> in_amount input = amt \<and>
      in_prevout input = \<lparr>op_txid = tx_txid E btc_tx, op_vout = vout\<rparr>"
    using input 1(7) by (auto simp: Input_new_def ok_simps)
  ultimately show ?case
    using q G(5) fee(1) coin first_tx_set_first_tx [OF tx]
    by (intro exI [of _ "BuildingCheckpoint_insert_pending (set_first_tx building (tx\<lparr>bt_input := bt_input tx @ [input]\<rparr>)) dest coin"]
        exI [of _ tx] exI [of _ input] exI [of _ coin] exI [of _ fee])
      (simp add: BuildingCheckpoint_insert_pending_def bd b0_def amt_def f64 set_first_tx_def Let_def)
qed


text \<open>What an accepted withdrawal does.\<close>

lemma add_withdrawal_Inr:
  assumes "Bitcoin_add_withdrawal E st script_pubkey amount = Inr st'"
  obtains config fee st1 building tx index b0 where
    "st_bitcoin_config st = Some config" "fee \<le> amount" "Bitcoin_give_miner_fee E st fee = Inr st1"
    "dust_value E script_pubkey < as_u64 (amount - fee) div bc_units_per_sat config"
    "length script_pubkey \<le> bc_max_withdrawal_script_length config"
    "CheckpointQueue_building E st1 = Inr building" "first_tx building = Inr tx" "CheckpointQueue_index st1 = Inr index"
    "CheckpointQueue_set E st1 index (set_first_tx building (tx\<lparr>bt_output := bt_output tx @
       [\<lparr>txo_value = as_u64 (amount - fee) div bc_units_per_sat config, txo_script_pubkey = script_pubkey\<rparr>]\<rparr>)) = Inr st'"
    "CheckpointQueue_building E st = Inr b0"
    "Bitcoin_calc_minimum_withdrawal_fees st (length script_pubkey) (cp_fee_rate b0) = Inr fee"
  using assms unfolding Bitcoin_add_withdrawal_def Bitcoin_config_def
  by (auto simp: ok_simps not_less not_le Let_def)

lemma calc_minimum_withdrawal_fees_u64:
  "Bitcoin_calc_minimum_withdrawal_fees st n rate = Inr fee \<Longrightarrow> fee < 2 ^ 64"
  by (auto simp: Bitcoin_calc_minimum_withdrawal_fees_def ok_simps)

text \<open>
  C16: A withdrawal is accounted for, as long as nothing was pruned from the checkpoint queue. On
  such a queue an accepted withdrawal appends to the transaction of the checkpoint being built one
  output to the script of the user, above the dust limit; the miner fee is the one that
  \<^verbatim>\<open>calc_minimum_withdrawal_fees\<close> asks at the fee rate of that checkpoint, it is not above the
  burned amount and goes to the fee pool and to the fees of the checkpoint; no other checkpoint
  changes. The value of the output is what is left of the amount after the fee, taken modulo
  \<open>2 ^ 64\<close> and converted to satoshis rounding down: the truncation loses nothing below
  \<open>2 ^ 64\<close> token units, and at or above it the rest of the burned amount is paid to nobody.
\<close>

theorem withdrawal_accounting:
  assumes "contract_deques E" and "unpruned st i" and "st_bitcoin_config st = Some config"
    and "Bitcoin_add_withdrawal E st script_pubkey amount = Ok st'"
  shows "\<exists>b tx fee value. queue st' = butlast (queue st) @ [b] \<and> fee \<le> amount \<and>
    Bitcoin_calc_minimum_withdrawal_fees st (length script_pubkey) (cp_fee_rate (last (queue st))) = Ok fee \<and>
    value = (amount - fee) mod 2 ^ 64 div bc_units_per_sat config \<and>
    (amount < 2 ^ 64 \<longrightarrow> value = (amount - fee) div bc_units_per_sat config) \<and>
    first_tx (last (queue st)) = Ok tx \<and>
    first_tx b = Ok (tx\<lparr>bt_output := bt_output tx @ [\<lparr>txo_value = value, txo_script_pubkey = script_pubkey\<rparr>]\<rparr>) \<and>
    dust_value E script_pubkey < value \<and>
    length script_pubkey \<le> bc_max_withdrawal_script_length config \<and>
    cp_pending b = cp_pending (last (queue st)) \<and>
    cp_fees_collected b = cp_fees_collected (last (queue st)) + fee div bc_units_per_sat config \<and>
    st_fee_pool st' = Some (Bitcoin_fee_pool st + as_i64 fee)"
proof -
  define b0 where "b0 = last (queue st)"
  obtain fee st1 building tx index b1 where
      fee: "fee \<le> amount" and give: "Bitcoin_give_miner_fee E st fee = Inr st1"
      and dust: "dust_value E script_pubkey < as_u64 (amount - fee) div bc_units_per_sat config"
      and len: "length script_pubkey \<le> bc_max_withdrawal_script_length config"
      and b: "CheckpointQueue_building E st1 = Inr building" and tx: "first_tx building = Inr tx"
      and ix: "CheckpointQueue_index st1 = Inr index"
      and set: "CheckpointQueue_set E st1 index (set_first_tx building (tx\<lparr>bt_output := bt_output tx @
        [\<lparr>txo_value = as_u64 (amount - fee) div bc_units_per_sat config, txo_script_pubkey = script_pubkey\<rparr>]\<rparr>)) = Inr st'"
      and b1: "CheckpointQueue_building E st = Inr b1"
      and calc: "Bitcoin_calc_minimum_withdrawal_fees st (length script_pubkey) (cp_fee_rate b1) = Inr fee"
    by (rule add_withdrawal_Inr [OF assms(4)]) (use assms(3) in auto)
  note G = contract_deques.give_miner_fee_unpruned [OF assms(1,2) give assms(3)]
  have f64: "as_u64 fee = fee" using calc_minimum_withdrawal_fees_u64 [OF calc] by (simp add: as_u64_def)
  define v where "v = (amount - fee) mod 2 ^ 64 div bc_units_per_sat config"
  have v: "as_u64 (amount - fee) div bc_units_per_sat config = v" by (simp add: v_def as_u64_def)
  define tx' where "tx' = tx\<lparr>bt_output := bt_output tx @ [\<lparr>txo_value = v, txo_script_pubkey = script_pubkey\<rparr>]\<rparr>"
  have bd: "building = b0\<lparr>cp_fees_collected := cp_fees_collected b0 + fee div bc_units_per_sat config\<rparr>"
    using b G(6) by (simp add: f64 b0_def)
  have b1': "b1 = b0" using b1 G(1) contract_deques.building_unpruned [OF assms(1,2)] by (simp add: b0_def)
  have ne: "queue st1 \<noteq> []" using G(1,4) by simp
  have "butlast (queue st1) = butlast (queue st)" using G(3,4) by (simp add: butlast_list_update)
  then have q: "queue st' = butlast (queue st) @ [set_first_tx building tx']"
    using contract_deques.set_building_unpruned(2) [OF assms(1) G(2) ne] set ix G(7) by (simp add: v tx'_def)
  have v_eq: "v = (amount - fee) mod 18446744073709551616 div bc_units_per_sat config" by (simp add: v_def)
  have small: "amount < 2 ^ 64 \<Longrightarrow> v = (amount - fee) div bc_units_per_sat config" by (simp add: v_def)
  have "st_fee_pool st' = st_fee_pool st1" using set_frame [OF set] by auto
  moreover have "first_tx b0 = Ok tx" using tx by (simp add: bd)
  ultimately show ?thesis
    using q G(5) fee dust len first_tx_set_first_tx [OF tx, of tx'] calc small
    by - (rule exI [of _ "set_first_tx building tx'"], rule exI [of _ tx], rule exI [of _ fee], rule exI [of _ v],
      simp add: bd b0_def [symmetric] b1' f64 tx'_def set_first_tx_def Let_def v v_eq [symmetric])
qed

lemma verify_inclusion_Inr:
  "verify_inclusion E st h proof m = Inr txid \<longleftrightarrow>
     (\<exists>header root. HeaderQueue_get_by_height E st h None = Inr (Some header) \<and> h + m \<le> HeaderQueue_height E st \<and>
        extract_matches E proof = Some (root, [txid]) \<and> root = WorkHeader_merkle_root header \<and> h \<le> HeaderQueue_height E st)"
  by (auto simp: verify_inclusion_def ok_simps length_Suc_conv)

text \<open>
  C21: A checkpoint is confirmed by a proof. The relayed checkpoint becomes the confirmed one only if
  it comes after the checkpoint that is confirmed so far, and if the header queue holds a block, deep
  enough, whose Merkle root the proof commits to with the transaction of the checkpoint as its only
  match.
\<close>

theorem checkpoint_confirmation:
  assumes "Bitcoin_relay_checkpoint E st btc_height proof cp_index = Ok st'"
  shows "st' = st\<lparr>st_confirmed_index := Some cp_index\<rparr> \<and>
    (\<forall>j. st_confirmed_index st = Some j \<longrightarrow> j < cp_index) \<and>
    (\<exists>config header cp tx. st_bitcoin_config st = Some config \<and>
       HeaderQueue_get_by_height E st btc_height None = Ok (Some header) \<and>
       btc_height + bc_min_checkpoint_confirmations config \<le> HeaderQueue_height E st \<and>
       CheckpointQueue_get E st cp_index = Ok cp \<and> Checkpoint_checkpoint_tx E cp = Ok tx \<and>
       extract_matches E proof = Some (WorkHeader_merkle_root header, [tx_txid E tx]))"
  using assms
  by (auto simp: Bitcoin_relay_checkpoint_def Bitcoin_config_def CheckpointQueue_confirmed_index_def ok_simps
      verify_inclusion_Inr not_le split: option.splits)


section \<open>Pending transfers\<close>

text \<open>The queue with the pending transfers of a range of checkpoints taken out.\<close>

definition clear_pending :: "checkpoint \<Rightarrow> checkpoint" where
  "clear_pending cp = cp\<lparr>cp_pending := []\<rparr>"

definition clear_range :: "nat set \<Rightarrow> checkpoint list \<Rightarrow> checkpoint list" where
  "clear_range S q = map (\<lambda>j. if j \<in> S then clear_pending (q ! j) else q ! j) [0..<length q]"

lemma length_clear_range [simp]: "length (clear_range S q) = length q"
  by (simp add: clear_range_def)

lemma nth_clear_range: "j < length q \<Longrightarrow> clear_range S q ! j = (if j \<in> S then clear_pending (q ! j) else q ! j)"
  by (simp add: clear_range_def)

lemma clear_range_frame:
  "map cp_status (clear_range S q) = map cp_status q"
  by (rule nth_equalityI) (simp_all add: nth_clear_range clear_pending_def)

context contract_deques
begin

lemma take_pending_unpruned:
  assumes "unpruned st i" and "take_pending E st is = Inr (ds, st')" and "distinct is"
  shows "unpruned st' i \<and> queue st' = clear_range (set is) (queue st) \<and> set is \<subseteq> {..<length (queue st)} \<and>
    ds = map (\<lambda>j. cp_pending (queue st ! j)) is \<and> (\<exists>d. st' = st\<lparr>st_checkpoints := d\<rparr>)"
  using assms
proof (induction "is" arbitrary: st ds)
  case Nil
  then show ?case by (auto simp: clear_range_def map_nth intro!: exI [of _ "st_checkpoints st"])
next
  case (Cons j "is")
  from Cons.prems(2) obtain cp st1 ds1 where get: "CheckpointQueue_get E st j = Inr cp"
      and set: "CheckpointQueue_set E st j (cp\<lparr>cp_pending := []\<rparr>) = Inr st1"
      and rest: "take_pending E st1 is = Inr (ds1, st')" and ds: "ds = cp_pending cp # ds1"
    by (auto simp: bnd_Inr_iff)
  have j: "j < length (queue st)" "cp = queue st ! j"
    using get unfolding get_unpruned [OF Cons.prems(1)] by (auto split: if_splits)
  note S = set_unpruned_Inr(1,2) [OF Cons.prems(1) set]
  have IH: "unpruned st' i \<and> queue st' = clear_range (set is) (queue st1) \<and> set is \<subseteq> {..<length (queue st1)} \<and>
    ds1 = map (\<lambda>j. cp_pending (queue st1 ! j)) is \<and> (\<exists>d. st' = st1\<lparr>st_checkpoints := d\<rparr>)"
    by (rule Cons.IH) (use S rest Cons.prems(3) in simp_all)
  have "clear_range (set is) (queue st1) = clear_range (set (j # is)) (queue st)"
    using Cons.prems(3) j(1) unfolding S(2) j(2)
    by (intro nth_equalityI) (auto simp: nth_clear_range nth_list_update clear_pending_def)
  moreover have "map (\<lambda>j. cp_pending (queue st1 ! j)) is = map (\<lambda>j. cp_pending (queue st ! j)) is"
    using Cons.prems(3) j(1) unfolding S(2) by (auto simp: nth_list_update)
  moreover have "\<exists>d. st' = st\<lparr>st_checkpoints := d\<rparr>" using IH set_frame [OF set] by auto
  ultimately show ?case using IH j S(2) ds by simp
qed

lemma take_pending_ok:
  assumes "unpruned st i" and "set is \<subseteq> {..<length (queue st)}"
  shows "\<exists>r. take_pending E st is = Inr r"
  using assms
proof (induction "is" arbitrary: st)
  case (Cons j "is")
  then have get: "CheckpointQueue_get E st j = Inr (queue st ! j)" by (simp add: get_unpruned [OF Cons.prems(1)])
  have "\<exists>st1. CheckpointQueue_set E st j ((queue st ! j)\<lparr>cp_pending := []\<rparr>) = Inr st1"
    using Cons.prems by (simp add: set_unpruned [OF Cons.prems(1)])
  then obtain st1 where set: "CheckpointQueue_set E st j ((queue st ! j)\<lparr>cp_pending := []\<rparr>) = Inr st1" by blast
  note S = set_unpruned_Inr(1,2) [OF Cons.prems(1) set]
  obtain r where "take_pending E st1 is = Inr r"
    using Cons.IH [OF S(1)] Cons.prems(2) S(2) by auto
  then show ?case using get set by (cases r) simp
qed simp

text \<open>Only the statuses of the checkpoints decide which ones are taken.\<close>

lemma take_complete_cong:
  assumes "unpruned st i" and "unpruned st' i" and "map cp_status (queue st') = map cp_status (queue st)"
  shows "bnd (take_complete E st' is) (\<lambda>cps. Ok (map fst cps)) = bnd (take_complete E st is) (\<lambda>cps. Ok (map fst cps))"
proof (induction "is")
  case (Cons j "is")
  have len: "length (queue st') = length (queue st)" using arg_cong [OF assms(3), of length] by simp
  have status: "cp_status (queue st' ! j) = cp_status (queue st ! j)" if "j < length (queue st)"
    using arg_cong [OF assms(3), of "\<lambda>l. l ! j"] that len by simp
  show ?case
    using Cons status
    by (cases "take_complete E st is"; cases "take_complete E st' is")
      (auto simp: get_unpruned [OF assms(1)] get_unpruned [OF assms(2)] len bnd_assoc)
qed simp

lemma take_complete_first:
  assumes "unpruned st i" and "take_complete E st [a..<b] = Inr cps"
  shows "\<exists>n. map fst cps = [a..<n] \<and> a \<le> n \<and> (a \<le> b \<longrightarrow> n \<le> b) \<and>
    (n < b \<longrightarrow> n < length (queue st) \<and> cp_status (queue st ! n) \<noteq> Complete)"
  using assms(2)
proof (induction "b - a" arbitrary: a cps)
  case 0
  then show ?case by (intro exI [of _ a]) simp
next
  case (Suc k)
  then have ab: "[a..<b] = a # [Suc a..<b]" by (simp add: upt_conv_Cons)
  have a: "a < length (queue st)" "CheckpointQueue_get E st a = Ok (queue st ! a)"
    using Suc.prems unfolding ab get_unpruned [OF assms(1)] take_complete.simps by (auto simp: get_unpruned [OF assms(1)] split: if_splits)
  show ?case
  proof (cases "cp_status (queue st ! a) = Complete")
    case False
    then have "cps = []" using Suc.prems a(2) unfolding ab by simp
    then show ?thesis using False a(1) by (intro exI [of _ a]) simp
  next
    case True
    then obtain cps1 where r: "take_complete E st [Suc a..<b] = Inr cps1" "cps = (a, queue st ! a) # cps1"
      using Suc.prems a(2) unfolding ab by (auto simp: bnd_Inr_iff)
    have "k = b - Suc a" using Suc.hyps(2) by simp
    from Suc.hyps(1) [OF this r(1)] obtain n where "map fst cps1 = [Suc a..<n]" "Suc a \<le> n" "Suc a \<le> b \<longrightarrow> n \<le> b"
        "n < b \<longrightarrow> n < length (queue st) \<and> cp_status (queue st ! n) \<noteq> Complete" by blast
    then show ?thesis using r(2) Suc.hyps(2) by (intro exI [of _ n]) (simp add: upt_conv_Cons)
  qed
qed


lemma last_completed_cong:
  assumes "unpruned st i" and "unpruned st' i" and "map cp_status (queue st') = map cp_status (queue st)"
  shows "CheckpointQueue_last_completed_index E st' = CheckpointQueue_last_completed_index E st"
proof -
  have len: "length (queue st') = length (queue st)" using arg_cong [OF assms(3), of length] by simp
  have "cp_status (queue st' ! (length (queue st) - 2)) = cp_status (queue st ! (length (queue st) - 2))"
    if "2 \<le> length (queue st)"
    using arg_cong [OF assms(3), of "\<lambda>l. l ! (length (queue st) - 2)"] that len by simp
  then show ?thesis
    by (auto simp: CheckpointQueue_last_completed_index_def signing_unpruned [OF assms(1)] signing_unpruned [OF assms(2)]
        index_unpruned [OF assms(1)] index_unpruned [OF assms(2)] len)
qed

lemma unhandled_cong:
  assumes "unpruned st i" and "unpruned st' i" and "map cp_status (queue st') = map cp_status (queue st)"
    and "st_confirmed_index st' = st_confirmed_index st"
    and "st_first_unhandled_confirmed_index st' = st_first_unhandled_confirmed_index st"
  shows "CheckpointQueue_unhandled_confirmed E st' = CheckpointQueue_unhandled_confirmed E st"
  using take_complete_cong [OF assms(1-3)]
  by (simp add: CheckpointQueue_unhandled_confirmed_def CheckpointQueue_confirmed_index_def
      CheckpointQueue_first_unhandled_confirmed_index_def assms(4,5) split: option.splits)

lemma unhandled_range:
  assumes "unpruned st i" and "CheckpointQueue_unhandled_confirmed E st = Inr js"
  shows "\<exists>a n. js = [a..<n]"
proof (cases "st_confirmed_index st")
  case None
  then have "js = [0..<0]"
    using assms(2) by (simp add: CheckpointQueue_unhandled_confirmed_def CheckpointQueue_confirmed_index_def)
  then show ?thesis by blast
next
  case (Some c)
  then obtain a cps where "take_complete E st [a..<Suc c] = Inr cps" "js = map fst cps"
    using assms(2) by (auto simp: CheckpointQueue_unhandled_confirmed_def CheckpointQueue_confirmed_index_def ok_simps
        simp del: upt_Suc)
  then show ?thesis using take_complete_first [OF assms(1)] by blast
qed

text \<open>Once the index is behind the handled checkpoints, none is left to handle.\<close>

lemma unhandled_none_left:
  assumes inv: "unpruned st i" and js: "CheckpointQueue_unhandled_confirmed E st = Inr js" "js \<noteq> []"
    and first: "st_first_unhandled_confirmed_index st' = Some (last js + 1)"
    and inv': "unpruned st' i" and same: "map cp_status (queue st') = map cp_status (queue st)"
      "st_confirmed_index st' = st_confirmed_index st"
  shows "CheckpointQueue_unhandled_confirmed E st' = Ok []"
proof -
  obtain c a cps where c: "st_confirmed_index st = Some c"
      and cps: "take_complete E st [a..<Suc c] = Inr cps" "js = map fst cps"
    using js by (auto simp: CheckpointQueue_unhandled_confirmed_def CheckpointQueue_confirmed_index_def ok_simps
        split: option.splits)
  obtain n where n: "js = [a..<n]" "n < Suc c \<Longrightarrow> n < length (queue st) \<and> cp_status (queue st ! n) \<noteq> Complete"
    using take_complete_first [OF inv cps(1)] cps(2) by metis
  have l: "last js + 1 = n" using js(2) n(1) by (cases n) auto
  have len: "length (queue st') = length (queue st)" using arg_cong [OF same(1), of length] by simp
  have "take_complete E st' [n..<Suc c] = Ok []"
  proof (cases "n < Suc c")
    case True
    then have "cp_status (queue st' ! n) \<noteq> Complete"
      using n(2) arg_cong [OF same(1), of "\<lambda>l. l ! n"] len by simp
    then show ?thesis using True n(2) len by (simp add: upt_conv_Cons get_unpruned [OF inv'] del: upt_Suc)
  qed simp
  then show ?thesis
    using first same(2) c l by (simp add: CheckpointQueue_unhandled_confirmed_def CheckpointQueue_confirmed_index_def
        CheckpointQueue_first_unhandled_confirmed_index_def del: upt_Suc)
qed

end

lemma clear_range_empty [simp]: "clear_range {} q = q"
  by (simp add: clear_range_def map_nth)

lemma take_pending_confirmed_none:
  "CheckpointQueue_unhandled_confirmed E st = Ok [] \<Longrightarrow> Bitcoin_take_pending_confirmed E st = Ok ([], st)"
  by (simp add: Bitcoin_take_pending_confirmed_def)

context contract_deques
begin

text \<open>
  What the first half of \<^verbatim>\<open>take_pending_completed\<close> does, and that after it no confirmed
  checkpoint is left to handle.
\<close>

lemma take_pending_confirmed_Inr:
  assumes inv: "unpruned st i" and ok: "Bitcoin_take_pending_confirmed E st = Inr (ds, st')"
  shows "unpruned st' i" and "\<exists>S. queue st' = clear_range S (queue st)"
    and "st_confirmed_index st' = st_confirmed_index st"
    and "CheckpointQueue_unhandled_confirmed E st' \<in> {Ok []} \<union> Inl ` range Fail"
proof -
  have "unpruned st' i \<and> (\<exists>S. queue st' = clear_range S (queue st)) \<and> st_confirmed_index st' = st_confirmed_index st \<and>
    CheckpointQueue_unhandled_confirmed E st' \<in> {Ok []} \<union> Inl ` range Fail"
  proof (cases "CheckpointQueue_unhandled_confirmed E st")
    case (Inl e)
    then have "st' = st" "e \<in> range Fail"
      using ok by (auto simp: Bitcoin_take_pending_confirmed_def split: failure.splits)
    then show ?thesis using inv Inl by (auto intro!: exI [of _ "{}"])
  next
    case (Inr js)
    obtain st1 where take: "take_pending E st js = Inr (ds, st1)"
        and st': "st' = (case vec_last js of None \<Rightarrow> st1 | Some l \<Rightarrow> st1\<lparr>st_first_unhandled_confirmed_index := Some (l + 1)\<rparr>)"
      using ok Inr by (cases "vec_last js") (auto simp: Bitcoin_take_pending_confirmed_def ok_simps)
    have "distinct js" using unhandled_range [OF inv Inr] by auto
    note T = take_pending_unpruned [OF inv take this]
    show ?thesis
    proof (cases "js = []")
      case True
      then have "st' = st" using take st' by simp
      then show ?thesis using inv Inr True by (auto intro!: exI [of _ "{}"])
    next
      case False
      then have st'': "st' = st1\<lparr>st_first_unhandled_confirmed_index := Some (last js + 1)\<rparr>"
        using st' by (simp add: vec_last_def)
      obtain d where "st1 = st\<lparr>st_checkpoints := d\<rparr>" using T by blast
      then have ci: "st_confirmed_index st' = st_confirmed_index st" by (simp add: st'')
      have u: "unpruned st' i" and q: "queue st' = clear_range (set js) (queue st)" using T by (simp_all add: st'')
      have same: "map cp_status (queue st') = map cp_status (queue st)" by (simp only: q clear_range_frame)
      have "CheckpointQueue_unhandled_confirmed E st' = Ok []"
        by (rule unhandled_none_left [OF inv Inr False _ u same ci]) (simp add: st'')
      then show ?thesis using u q ci by blast
    qed
  qed
  then show "unpruned st' i" and "\<exists>S. queue st' = clear_range S (queue st)"
    and "st_confirmed_index st' = st_confirmed_index st"
    and "CheckpointQueue_unhandled_confirmed E st' \<in> {Ok []} \<union> Inl ` range Fail"
    by blast+
qed

lemma take_pending_confirmed_idle:
  "CheckpointQueue_unhandled_confirmed E st \<in> {Ok []} \<union> Inl ` range Fail \<Longrightarrow>
     Bitcoin_take_pending_confirmed E st = Ok ([], st)"
  by (auto simp: Bitcoin_take_pending_confirmed_def)


text \<open>What a call of \<^verbatim>\<open>take_pending_completed\<close> leaves behind.\<close>

lemma take_pending_completed_Inr:
  assumes inv: "unpruned st i" and ok: "Bitcoin_take_pending_completed E st = Inr (ds, st')"
  shows "unpruned st' i \<and> Bitcoin_take_pending_confirmed E st' = Ok ([], st') \<and>
    map cp_status (queue st') = map cp_status (queue st) \<and>
    (\<forall>e. CheckpointQueue_last_completed_index E st' = Inl e \<longrightarrow> e = Fail (App ''No completed checkpoints yet'')) \<and>
    (\<forall>l. CheckpointQueue_last_completed_index E st' = Inr l \<longrightarrow>
       (\<forall>j \<in> {(case st_confirmed_index st' of Some c \<Rightarrow> c | None \<Rightarrow> 0)..l}.
          j < length (queue st') \<and> cp_pending (queue st' ! j) = []))"
proof -
  obtain ds1 st1 where 1: "Bitcoin_take_pending_confirmed E st = Inr (ds1, st1)"
    using ok by (auto simp: Bitcoin_take_pending_completed_def ok_simps)
  note C = take_pending_confirmed_Inr [OF inv 1]
  note idle = take_pending_confirmed_idle [OF C(4)]
  have s1: "map cp_status (queue st1) = map cp_status (queue st)" using C(2) clear_range_frame by metis
  show ?thesis
  proof (cases "CheckpointQueue_last_completed_index E st1")
    case (Inl e)
    then have "st' = st1" "e = Fail (App ''No completed checkpoints yet'')"
      using ok 1 by (auto simp: Bitcoin_take_pending_completed_def split: if_splits)
    then show ?thesis using C(1) idle s1 Inl by simp
  next
    case (Inr l)
    define a where "a = (case st_confirmed_index st1 of Some c \<Rightarrow> c | None \<Rightarrow> 0)"
    obtain ds2 where take: "take_pending E st1 [a..<Suc l] = Inr (ds2, st')"
      using ok 1 Inr by (auto simp: Bitcoin_take_pending_completed_def CheckpointQueue_confirmed_index_def ok_simps a_def
          simp del: upt_Suc)
    note T = take_pending_unpruned [OF C(1) take distinct_upt]
    have u: "unpruned st' i" and q: "queue st' = clear_range {a..<Suc l} (queue st1)"
      using T by (simp_all del: upt_Suc)
    have sub: "{a..<Suc l} \<subseteq> {..<length (queue st1)}" using T by (simp del: upt_Suc)
    obtain d where d: "st' = st1\<lparr>st_checkpoints := d\<rparr>" using T by blast
    have s2: "map cp_status (queue st') = map cp_status (queue st1)" by (simp add: q clear_range_frame)
    have "CheckpointQueue_unhandled_confirmed E st' = CheckpointQueue_unhandled_confirmed E st1"
      by (rule unhandled_cong [OF C(1) u s2]) (simp_all add: d)
    then have "Bitcoin_take_pending_confirmed E st' = Ok ([], st')"
      using C(4) by (intro take_pending_confirmed_idle) simp
    moreover have "CheckpointQueue_last_completed_index E st' = Inr l"
      using last_completed_cong [OF C(1) u s2] Inr by simp
    moreover have "j < length (queue st') \<and> cp_pending (queue st' ! j) = []" if "j \<in> {a..l}" for j
    proof -
      have "j \<in> {a..<Suc l}" using that by auto
      then have "j < length (queue st1)" using sub by auto
      then show ?thesis using \<open>j \<in> {a..<Suc l}\<close> by (simp add: q nth_clear_range clear_pending_def)
    qed
    moreover have "st_confirmed_index st' = st_confirmed_index st1" by (simp add: d)
    ultimately show ?thesis using u s1 s2 unfolding a_def by auto
  qed
qed

end

text \<open>
  Pending transfers are paid once. If a call of \<^verbatim>\<open>take_pending_completed\<close> on a queue from which
  nothing was pruned returns the transfers of a block, the next call, in the state it leaves, succeeds and
  returns none.
\<close>

lemma pending_paid_once:
  assumes "contract_deques E" and "unpruned st i" and "Bitcoin_take_pending_completed E st = Ok (ds, st')"
  shows "\<exists>ds' st''. Bitcoin_take_pending_completed E st' = Ok (ds', st'') \<and> concat ds' = []"
proof -
  note C = contract_deques.take_pending_completed_Inr [OF assms]
  let ?a = "case st_confirmed_index st' of Some c \<Rightarrow> c | None \<Rightarrow> 0"
  show ?thesis
  proof (cases "CheckpointQueue_last_completed_index E st'")
    case (Inl e)
    then show ?thesis using C by (simp add: Bitcoin_take_pending_completed_def)
  next
    case (Inr l)
    have idle: "Bitcoin_take_pending_confirmed E st' = Ok ([], st')" and inv: "unpruned st' i"
      and empty: "\<And>j. j \<in> {?a..l} \<Longrightarrow> j < length (queue st') \<and> cp_pending (queue st' ! j) = []"
      using C Inr by blast+
    have sub: "set [?a..<Suc l] \<subseteq> {..<length (queue st')}" using empty by (auto simp: less_Suc_eq_le simp del: upt_Suc)
    obtain ds2 st'' where take: "take_pending E st' [?a..<Suc l] = Ok (ds2, st'')"
      using contract_deques.take_pending_ok [OF assms(1) inv sub] by fastforce
    have "ds2 = map (\<lambda>j. cp_pending (queue st' ! j)) [?a..<Suc l]"
      using contract_deques.take_pending_unpruned [OF assms(1) inv take distinct_upt] by blast
    then have "concat ds2 = []" using empty by (auto simp: less_Suc_eq_le simp del: upt_Suc)
    moreover have "Bitcoin_take_pending_completed E st' = Ok (ds2, st'')"
      using idle Inr take by (simp add: Bitcoin_take_pending_completed_def CheckpointQueue_confirmed_index_def del: upt_Suc)
    ultimately show ?thesis by blast
  qed
qed

text \<open>
  C27: After pruning, pending transfers are paid again. Once a checkpoint was pruned, taking the
  pending transfers of any checkpoint returns them and leaves them in place, because the write that
  should clear them goes to another cell of the deque: the next call returns the same transfers.
\<close>

theorem pending_paid_again_after_prune:
  assumes "contract_deques E" and "queue_ok st i" and "dq_head (st_checkpoints st) = start" and "0 < start"
    and "start + length (queue st) = i + 1" and "start \<le> j" and "j \<le> i"
  shows "\<exists>cp st' st''. CheckpointQueue_get E st j = Ok cp \<and>
    take_pending E st [j] = Ok ([cp_pending cp], st') \<and> take_pending E st' [j] = Ok ([cp_pending cp], st'')"
proof -
  obtain cp where get: "CheckpointQueue_get E st j = Ok cp"
    using contract_deques.get_eq [OF assms(1,2), of j] assms(5-7) by (auto split: if_splits)
  obtain st' where st': "CheckpointQueue_set E st j (cp\<lparr>cp_pending := []\<rparr>) = Ok st'"
      and get': "CheckpointQueue_get E st' j = Ok cp"
    using contract_deques.set_pruned [OF assms(1-3,5,4,6,7), of "cp\<lparr>cp_pending := []\<rparr>"] get by auto
  have "\<exists>st''. CheckpointQueue_set E st' j (cp\<lparr>cp_pending := []\<rparr>) = Ok st''"
    using get' by (auto simp: CheckpointQueue_get_def CheckpointQueue_set_def bnd_Inr_iff)
  then show ?thesis using get st' get' by auto
qed

end
