(* ===== verification/Entrypoints.thy ===== *)
theory Entrypoints
  imports App
begin

text \<open>
  \<^verbatim>\<open>contract.rs\<close>, \<^verbatim>\<open>entrypoints/execute.rs\<close> and \<^verbatim>\<open>entrypoints/sudo.rs\<close>: what a message to
  the contract does. A handler returns the messages it sends and the new store; the attributes
  of a response, which nothing reads, are left out.
\<close>

section \<open>Messages\<close>

record message_info =
  mi_sender :: addr
  mi_funds :: "coin list"

record instantiate_msg =
  im_token_factory_addr :: addr
  im_relayer_fee_token :: asset_info
  im_relayer_fee :: u128
  im_token_fee_receiver :: addr
  im_relayer_fee_receiver :: addr
  im_swap_router_contract :: "addr option"
  im_osor_entry_point_contract :: "addr option"

record config_update =
  cu_relayer_fee_token :: "asset_info option"
  cu_token_fee_receiver :: "addr option"
  cu_relayer_fee_receiver :: "addr option"
  cu_relayer_fee :: "u128 option"
  cu_swap_router_contract :: "addr option"
  cu_token_fee :: "ratio option"
  cu_token_factory_addr :: "addr option"
  cu_owner :: "addr option"

datatype execute_msg =
    UpdateConfig config_update
  | UpdateBitcoinConfig bitcoin_config
  | UpdateCheckpointConfig checkpoint_config
  | UpdateHeaderConfig header_config
  | RelayHeaders "wrapped_header list"
  | RelayDeposit transaction u32 bytes u32 u32 dest
  | RelayCheckpoint u32 bytes u32
  | WithdrawToBitcoin string
  | SubmitCheckpointSignature xpub "signature list" u32 u32
  | SubmitRecoverySignature xpub "signature list"
  | SetSignatoryKey xpub
  | AddValidators "string list" "u64 list" "consensus_key list"
  | RegisterDenom string "token_metadata option"
  | ChangeBtcDenomOwner string
  | TriggerBeginBlock bytes

type_synonym response = "(cosmos_msg list \<times> store) result"

section \<open>Administration\<close>

text \<open>\<^verbatim>\<open>assert_eq!(info.sender, CONFIG.load(store)?.owner)\<close>; the result is the configuration.\<close>

definition assert_owner :: "store \<Rightarrow> message_info \<Rightarrow> config result" where
  "assert_owner st info =
     bnd (load (st_config st)) (\<lambda>config.
     bnd (assert_r (mi_sender info = cf_owner config)) (\<lambda>_. Ok config))"

definition update_config :: "store \<Rightarrow> message_info \<Rightarrow> config_update \<Rightarrow> response" where
  "update_config st info u =
     bnd (assert_owner st info) (\<lambda>config.
     let upd = (\<lambda>new old. case new of Some x \<Rightarrow> x | None \<Rightarrow> old);
         config = config\<lparr>
           cf_relayer_fee_token := (case cu_relayer_fee_token u of Some x \<Rightarrow> x | None \<Rightarrow> cf_relayer_fee_token config),
           cf_token_fee_receiver := upd (cu_token_fee_receiver u) (cf_token_fee_receiver config),
           cf_relayer_fee_receiver := upd (cu_relayer_fee_receiver u) (cf_relayer_fee_receiver config),
           cf_relayer_fee := (case cu_relayer_fee u of Some x \<Rightarrow> x | None \<Rightarrow> cf_relayer_fee config),
           cf_swap_router_contract := (case cu_swap_router_contract u of
               Some x \<Rightarrow> Some x | None \<Rightarrow> cf_swap_router_contract config),
           cf_token_factory_addr := upd (cu_token_factory_addr u) (cf_token_factory_addr config),
           cf_owner := upd (cu_owner u) (cf_owner config)\<rparr>
     in Ok ([], st\<lparr>st_token_fee_ratio := (case cu_token_fee u of
                     Some x \<Rightarrow> Some x | None \<Rightarrow> st_token_fee_ratio st),
                   st_config := Some config\<rparr>))"

definition update_checkpoint_config :: "store \<Rightarrow> message_info \<Rightarrow> checkpoint_config \<Rightarrow> response" where
  "update_checkpoint_config st info config =
     bnd (assert_owner st info) (\<lambda>_. Ok ([], st\<lparr>st_checkpoint_config := Some config\<rparr>))"

definition update_bitcoin_config :: "store \<Rightarrow> message_info \<Rightarrow> bitcoin_config \<Rightarrow> response" where
  "update_bitcoin_config st info config =
     bnd (assert_owner st info) (\<lambda>_. Ok ([], st\<lparr>st_bitcoin_config := Some config\<rparr>))"

definition update_header_config ::
  "'x contract_ext_scheme \<Rightarrow> store \<Rightarrow> message_info \<Rightarrow> header_config \<Rightarrow> response"
where
  "update_header_config E st info config =
     bnd (assert_owner st info) (\<lambda>_. Ok ([], HeaderQueue_configure E st config))"

fun add_validators_loop ::
  "(string \<times> u64 \<times> consensus_key) list \<Rightarrow> store \<Rightarrow> store"
where
  "add_validators_loop [] st = st"
| "add_validators_loop ((addr, voting_power, cons_key) # rest) st =
     add_validators_loop rest
       (st\<lparr>st_signers := (st_signers st)(addr \<mapsto> cons_key),
           st_validators := omap_save cons_key (voting_power, addr) (st_validators st)\<rparr>)"

definition add_validators ::
  "store \<Rightarrow> message_info \<Rightarrow> string list \<Rightarrow> u64 list \<Rightarrow> consensus_key list \<Rightarrow> response"
where
  "add_validators st info addrs voting_powers consensus_keys =
     bnd (assert_owner st info) (\<lambda>_.
     bnd (assert_r (length addrs = length voting_powers)) (\<lambda>_.
     bnd (assert_r (length addrs = length consensus_keys)) (\<lambda>_.
     Ok ([], add_validators_loop (zip addrs (zip voting_powers consensus_keys)) st))))"

definition register_denom ::
  "store \<Rightarrow> message_info \<Rightarrow> string \<Rightarrow> token_metadata option \<Rightarrow> response"
where
  "register_denom st info subdenom metadata =
     bnd (assert_owner st info) (\<lambda>config.
     Ok ([CreateDenom (cf_token_factory_addr config) subdenom metadata (mi_funds info)], st))"

definition change_btc_denom_owner :: "store \<Rightarrow> message_info \<Rightarrow> string \<Rightarrow> response" where
  "change_btc_denom_owner st info new_owner =
     bnd (assert_owner st info) (\<lambda>config.
     let denom = get_full_btc_denom (cf_token_factory_addr config)
     in Ok ([ChangeDenomOwner (cf_token_factory_addr config) denom new_owner (mi_funds info)], st))"

section \<open>The bridge\<close>

definition relay_headers :: "'x contract_ext_scheme \<Rightarrow> store \<Rightarrow> wrapped_header list \<Rightarrow> response" where
  "relay_headers E st headers = bnd (HeaderQueue_add E st headers) (\<lambda>st. Ok ([], st))"

definition relay_deposit ::
  "'x contract_ext_scheme \<Rightarrow> env \<Rightarrow> store \<Rightarrow> transaction \<Rightarrow> u32 \<Rightarrow> bytes \<Rightarrow> u32 \<Rightarrow> u32 \<Rightarrow> dest \<Rightarrow> response"
where
  "relay_deposit E env st btc_tx btc_height btc_proof btc_vout sigset_index dest =
     bnd (Bitcoin_relay_deposit E env st btc_tx btc_height btc_proof btc_vout sigset_index dest) (\<lambda>st. Ok ([], st))"

definition relay_checkpoint :: "'x contract_ext_scheme \<Rightarrow> store \<Rightarrow> u32 \<Rightarrow> bytes \<Rightarrow> u32 \<Rightarrow> response" where
  "relay_checkpoint E st btc_height btc_proof cp_index =
     bnd (Bitcoin_relay_checkpoint E st btc_height btc_proof cp_index) (\<lambda>st. Ok ([], st))"

text \<open>The loop over the funds sent with a withdrawal.\<close>

fun withdraw_funds ::
  "'x contract_ext_scheme \<Rightarrow> env \<Rightarrow> addr \<Rightarrow> string \<Rightarrow> script \<Rightarrow> coin list \<Rightarrow> store \<Rightarrow> response"
where
  "withdraw_funds E env token_factory denom script_pubkey [] st = Ok ([], st)"
| "withdraw_funds E env token_factory denom script_pubkey (fund # funds) st =
     (if coin_denom fund = denom
      then bnd (Bitcoin_add_withdrawal E st script_pubkey (coin_amount fund)) (\<lambda>st.
           bnd (withdraw_funds E env token_factory denom script_pubkey funds st) (\<lambda>(msgs, st).
           Ok (BurnTokens token_factory (coin_denom fund) (coin_amount fund) (env_contract env) # msgs, st)))
      else withdraw_funds E env token_factory denom script_pubkey funds st)"

definition withdraw_to_bitcoin ::
  "'x contract_ext_scheme \<Rightarrow> env \<Rightarrow> store \<Rightarrow> message_info \<Rightarrow> string \<Rightarrow> response"
where
  "withdraw_to_bitcoin E env st info btc_address =
     bnd (load (st_config st)) (\<lambda>config.
     case address_script E btc_address of
       Inl err \<Rightarrow> Err (App err)
     | Inr script_pubkey \<Rightarrow>
         withdraw_funds E env (cf_token_factory_addr config)
           (get_full_btc_denom (cf_token_factory_addr config)) script_pubkey (mi_funds info) st)"

definition submit_checkpoint_signature ::
  "'x contract_ext_scheme \<Rightarrow> store \<Rightarrow> xpub \<Rightarrow> signature list \<Rightarrow> u32 \<Rightarrow> u32 \<Rightarrow> response"
where
  "submit_checkpoint_signature E st xpub sigs cp_index btc_height =
     bnd (CheckpointQueue_sign E st xpub sigs cp_index btc_height) (\<lambda>st. Ok ([], st))"

definition submit_recovery_signature ::
  "'x contract_ext_scheme \<Rightarrow> store \<Rightarrow> xpub \<Rightarrow> signature list \<Rightarrow> response"
where
  "submit_recovery_signature E st xpub sigs = bnd (RecoveryTxs_sign E st xpub sigs) (\<lambda>st. Ok ([], st))"

definition set_signatory_key :: "'x contract_ext_scheme \<Rightarrow> store \<Rightarrow> message_info \<Rightarrow> xpub \<Rightarrow> response" where
  "set_signatory_key E st info xpub =
     bnd (Bitcoin_set_signatory_key E st (mi_sender info) xpub) (\<lambda>st. Ok ([], st))"

section \<open>The end of a block\<close>

text \<open>The messages that pay out one transfer, with the fees taken from it.\<close>

definition payout_msgs ::
  "'x contract_ext_scheme \<Rightarrow> env \<Rightarrow> store \<Rightarrow> config \<Rightarrow> dest \<times> coin \<Rightarrow> cosmos_msg list \<Rightarrow> cosmos_msg list result"
where
  "payout_msgs E env st config transfer msgs =
     (case transfer of (dest, coin) \<Rightarrow>
        bnd (process_deduct_fee E st coin) (\<lambda>fee_data.
        let token_factory = cf_token_factory_addr config;
            denom = coin_denom coin;
            msgs = Dest_build_cosmos_msg E dest env msgs
              \<lparr>coin_denom = denom, coin_amount = fd_deducted_amount fee_data\<rparr>
              (env_contract env) token_factory (cf_osor_entry_point_contract config);
            msgs = (if coin_amount (fd_relayer_fee fee_data) > 0
                    then msgs @ [MintTokens token_factory denom (coin_amount (fd_relayer_fee fee_data))
                                   (cf_relayer_fee_receiver config)] else msgs);
            msgs = (if coin_amount (fd_token_fee fee_data) > 0
                    then msgs @ [MintTokens token_factory denom (coin_amount (fd_token_fee fee_data))
                                   (cf_token_fee_receiver config)] else msgs)
        in Ok msgs))"

definition punish_step :: "'x contract_ext_scheme \<Rightarrow> consensus_key \<Rightarrow> store \<Rightarrow> store result" where
  "punish_step E cons_key st =
     bnd (load (map_of (st_validators st) cons_key)) (\<lambda>(_, address).
     Ok (Bitcoin_punish_validator E st cons_key address))"

definition clock_end_block :: "'x contract_ext_scheme \<Rightarrow> env \<Rightarrow> store \<Rightarrow> bytes \<Rightarrow> response" where
  "clock_end_block E env st hash =
     bnd (throw_if (hash \<in> st_block_hashes st) (App ''Blockhash already exists'')) (\<lambda>_.
     bnd (Bitcoin_take_pending_completed E st) (\<lambda>(pending_nbtc_transfers, st).
     bnd (load (st_config st)) (\<lambda>config.
     bnd (fold_r (payout_msgs E env st config) (concat pending_nbtc_transfers) []) (\<lambda>msgs.
     bnd (Bitcoin_begin_block_step E env st hash) (\<lambda>(offline_signers, st).
     bnd (fold_r (punish_step E) offline_signers st) (\<lambda>st.
     Ok (msgs, st\<lparr>st_block_hashes := insert hash (st_block_hashes st)\<rparr>)))))))"

section \<open>Entry points\<close>

definition instantiate ::
  "'x contract_ext_scheme \<Rightarrow> store \<Rightarrow> message_info \<Rightarrow> instantiate_msg \<Rightarrow> response"
where
  "instantiate E st info msg =
     (let st = st\<lparr>st_config := Some
            \<lparr>cf_token_factory_addr = im_token_factory_addr msg, cf_owner = mi_sender info,
             cf_relayer_fee_token = im_relayer_fee_token msg, cf_relayer_fee = im_relayer_fee msg,
             cf_token_fee_receiver = im_token_fee_receiver msg,
             cf_relayer_fee_receiver = im_relayer_fee_receiver msg,
             cf_swap_router_contract = im_swap_router_contract msg,
             cf_osor_entry_point_contract = im_osor_entry_point_contract msg\<rparr>\<rparr>;
          st = HeaderQueue_configure E st HeaderConfig_mainnet
      in bnd BitcoinConfig_default (\<lambda>bitcoin_config.
         Ok ([], st\<lparr>st_checkpoint_config := Some CheckpointConfig_default,
                    st_bitcoin_config := Some bitcoin_config,
                    st_fee_pool := Some 0,
                    st_building_index := Some 0,
                    st_first_unhandled_confirmed_index := Some 0\<rparr>)))"

definition execute ::
  "'x contract_ext_scheme \<Rightarrow> env \<Rightarrow> store \<Rightarrow> message_info \<Rightarrow> execute_msg \<Rightarrow> response"
where
  "execute E env st info msg =
     (case msg of
        UpdateConfig u \<Rightarrow> update_config st info u
      | UpdateBitcoinConfig config \<Rightarrow> update_bitcoin_config st info config
      | UpdateCheckpointConfig config \<Rightarrow> update_checkpoint_config st info config
      | UpdateHeaderConfig config \<Rightarrow> update_header_config E st info config
      | RelayHeaders headers \<Rightarrow> relay_headers E st headers
      | RelayDeposit btc_tx btc_height btc_proof btc_vout sigset_index dest \<Rightarrow>
          relay_deposit E env st btc_tx btc_height btc_proof btc_vout sigset_index dest
      | RelayCheckpoint btc_height btc_proof cp_index \<Rightarrow> relay_checkpoint E st btc_height btc_proof cp_index
      | WithdrawToBitcoin btc_address \<Rightarrow> withdraw_to_bitcoin E env st info btc_address
      | SubmitCheckpointSignature xpub sigs cp_index btc_height \<Rightarrow>
          submit_checkpoint_signature E st xpub sigs cp_index btc_height
      | SubmitRecoverySignature xpub sigs \<Rightarrow> submit_recovery_signature E st xpub sigs
      | SetSignatoryKey xpub \<Rightarrow> set_signatory_key E st info xpub
      | AddValidators addrs voting_powers consensus_keys \<Rightarrow>
          add_validators st info addrs voting_powers consensus_keys
      | RegisterDenom subdenom metadata \<Rightarrow> register_denom st info subdenom metadata
      | ChangeBtcDenomOwner new_owner \<Rightarrow> change_btc_denom_owner st info new_owner
      | TriggerBeginBlock hash \<Rightarrow> clock_end_block E env st hash)"

datatype sudo_msg = ClockEndBlock bytes

definition sudo :: "'x contract_ext_scheme \<Rightarrow> env \<Rightarrow> store \<Rightarrow> sudo_msg \<Rightarrow> response" where
  "sudo E env st msg = (case msg of ClockEndBlock hash \<Rightarrow> clock_end_block E env st hash)"

section \<open>Migration\<close>

definition CONTRACT_NAME :: string where
  "CONTRACT_NAME = ''crates.io:cw_bitcoin''"

text \<open>
  \<^verbatim>\<open>cw2::ensure_from_older_version\<close> compares the version that \<^verbatim>\<open>cw2\<close> keeps in a part \<open>'w\<close> of the storage of its own with the one of
  the code, and updates it; it is an argument, as is the version, which the build provides. The other parts of the storage are
  left alone. The result has the attributes of the response.
\<close>

definition migrate ::
  "(string \<Rightarrow> string \<Rightarrow> 'w \<Rightarrow> (string \<times> 'w) result) \<Rightarrow> string \<Rightarrow> 'w \<Rightarrow> store \<Rightarrow> ((string \<times> string) list \<times> 'w \<times> store) result"
where
  "migrate ensure_from_older_version CONTRACT_VERSION w st =
     bnd (ensure_from_older_version CONTRACT_NAME CONTRACT_VERSION w) (\<lambda>(original_version, w).
     Ok ([(''new_version'', original_version)], w, st))"

lemma migrate_keeps_store: "migrate ensure version w st = Inr (attrs, w', st') \<Longrightarrow> st' = st"
  by (auto simp: migrate_def ok_simps)

end
