(* ===== verification/Instance.thy ===== *)
theory Instance
  imports Entrypoints
begin

text \<open>
  A concrete library: functions for the record of the crates and of the storage, for which the
  contracts the development relies on are proved. The storage is the reference deque, the script
  encoding is the one of Bitcoin Script; the cryptography is replaced by the simplest functions of its
  types. The interpretations below show that no theorem of the development rests on a contract that
  cannot be kept, and the witnesses of the theorems run on this library.
\<close>

section \<open>A library that keeps the contracts\<close>

text \<open>Push opcodes, small integers and opcodes as Bitcoin Script encodes them.\<close>

definition encode_push :: "bytes \<Rightarrow> bytes" where
  "encode_push b = length b # b"

definition encode_item :: "script_item \<Rightarrow> bytes" where
  "encode_item item =
     (case item of
        SBytes b \<Rightarrow> encode_push b
      | SInt n \<Rightarrow> (if 1 \<le> n \<and> n \<le> 16 then [nat (0x50 + n)] else encode_push (scriptnum_encode (nat n)))
      | SOp opc \<Rightarrow> [opc])"

function decode_script :: "bytes \<Rightarrow> instruction option list" where
  "decode_script [] = []"
| "decode_script (b # rest) =
     (if b \<le> 75
      then (if b \<le> length rest then Some (PushBytes (take b rest)) # decode_script (drop b rest) else [None])
      else Some (Op b) # decode_script rest)"
  by pat_completeness auto
termination
  by (relation "measure length") auto

lemma decode_item:
  assumes "item_ok item"
  shows "decode_script (encode_item item @ s) = Some (item_instr item) # decode_script s"
proof (cases item)
  case (SInt n)
  show ?thesis
  proof (cases "1 \<le> n \<and> n \<le> 16")
    case False
    have "length (scriptnum_tail (nat n)) \<le> Suc 3"
      using assms SInt by (intro scriptnum_tail_length) (auto simp: item_ok_def)
    then have "length (scriptnum_encode (nat n)) \<le> 75" by (simp add: scriptnum_encode_def)
    moreover have "encode_item item = encode_push (scriptnum_encode (nat n))"
      and "item_instr item = PushBytes (scriptnum_encode (nat n))"
      using False unfolding SInt encode_item_def item_instr_def by auto
    ultimately show ?thesis by (simp add: encode_push_def)
  qed (auto simp: SInt encode_item_def item_instr_def)
qed (use assms in \<open>auto simp: encode_item_def item_instr_def item_ok_def encode_push_def\<close>)

lemma decode_items:
  "list_all item_ok items \<Longrightarrow>
     decode_script (concat (map encode_item items) @ s) = map (Some \<circ> item_instr) items @ decode_script s"
  by (induction items) (simp_all add: decode_item)

text \<open>Outpoints as strings: every number in unary, ended by a comma.\<close>

fun unary_encode :: "nat list \<Rightarrow> string" where
  "unary_encode [] = []"
| "unary_encode (n # ns) = replicate n CHR ''1'' @ CHR '','' # unary_encode ns"

fun unary_decode :: "nat \<Rightarrow> string \<Rightarrow> nat list" where
  "unary_decode n [] = []"
| "unary_decode n (c # cs) = (if c = CHR ''1'' then unary_decode (Suc n) cs else n # unary_decode 0 cs)"

lemma unary_decode_ones: "unary_decode m (replicate n CHR ''1'' @ cs) = unary_decode (m + n) cs"
  by (induction n arbitrary: m) simp_all

lemma unary_roundtrip: "unary_decode 0 (unary_encode ns) = ns"
  by (induction ns) (simp_all add: unary_decode_ones)

definition std_outpoint_from_str :: "string \<Rightarrow> outpoint result" where
  "std_outpoint_from_str s =
     (case unary_decode 0 s of [] \<Rightarrow> Err (ParseOutPoint ''invalid outpoint'')
      | vout # txid \<Rightarrow> Ok \<lparr>op_txid = txid, op_vout = vout\<rparr>)"

text \<open>
  The other functions are the simplest ones of their types: a signature of a message by a key is the
  message followed by the key, the key of an extended key is its public key, a block hash is the
  nonce, a proof is the transaction id and at the same time the Merkle root it commits to.
\<close>

text \<open>A JSON writer for the fields of a structure, for texts without characters to escape.\<close>

fun write_value :: "json_value \<Rightarrow> string" where
  "write_value (JsonString s) = CHR 0x22 # s @ [CHR 0x22]"
| "write_value (JsonU64 n) = nat_to_string n"

fun write_fields :: "(string \<times> json_value) list \<Rightarrow> string" where
  "write_fields [] = []"
| "write_fields [(k, v)] = write_value (JsonString k) @ '':'' @ write_value v"
| "write_fields ((k, v) # fs) = write_value (JsonString k) @ '':'' @ write_value v @ '','' @ write_fields fs"

definition write_json :: "(string \<times> json_value) list \<Rightarrow> bytes" where
  "write_json fs = as_bytes (''{'' @ write_fields fs @ ''}'')"

definition std_ext :: contract_ext where
  "std_ext =
     \<lparr>secp256k1_verify = (\<lambda>m sig k. Ok (sig = m @ k)),
      signature_der = Ok,
      public_key_from_slice = Inr,
      from_normal_idx = Ok,
      ckd_pub_tweak = (\<lambda>xpub i. Ok (xp_public_key xpub)),
      xpub_encode = (\<lambda>xpub. xp_depth xpub # xp_public_key xpub),
      field_set_b32 = (\<lambda>b. Some (case b of [] \<Rightarrow> 0 | x # _ \<Rightarrow> x)),
      affine_set_xo = (\<lambda>x odd. (x, 0)),
      scalar_set_b32 = (\<lambda>b. Some 0),
      ecmult_add = (\<lambda>a k. a),
      fill_b32 = replicate 32,
      build_script = (\<lambda>items. concat (map encode_item items)),
      script_instructions = decode_script,
      read_scriptint = (\<lambda>b. map_option int (scriptnum_decode b)),
      opcode_debug = (\<lambda>n. nat_to_string n),
      to_v0_p2wsh = (\<lambda>s. 0 # s),
      new_op_return = (\<lambda>b. 0x6a # b),
      dust_value = (\<lambda>s. 330),
      tx_txid = (\<lambda>tx. [length (btx_input tx), length (btx_output tx)]),
      tx_vsize = (\<lambda>tx. 100),
      segwit_signature_hash = (\<lambda>tx i script amount. Ok [i]),
      block_hash = (\<lambda>h. [bh_nonce h]),
      u256_from_compact_target = (\<lambda>b. b),
      compact_target_from_u256 = (\<lambda>t. t),
      header_work = (\<lambda>h. 1),
      header_validate_pow = (\<lambda>h t. if bh_bits h = t then Ok [bh_nonce h] else Err (Bitcoin ''bad target'')),
      extract_matches = (\<lambda>b. Some (b, [b])),
      outpoint_to_string = (\<lambda>op. unary_encode (op_vout op # op_txid op)),
      outpoint_from_str = std_outpoint_from_str,
      address_script = (\<lambda>s. Inr (as_bytes s)),
      mul_ratio = (\<lambda>a n d. Ok (a * n div d)),
      addr_validate = (\<lambda>s. None),
      simulate_swap = (\<lambda>r a ops. Some a),
      sha256 = (\<lambda>b. b),
      to_json_vec = (\<lambda>fs. Ok (write_json fs)),
      encode_memo = me_receiver,
      headers_dq = std_deque,
      checkpoints_dq = std_deque,
      recovery_dq = std_deque\<rparr>"

text \<open>The functions of the library, one by one.\<close>

lemma std_sels:
  "signature_der std_ext = Ok"
  "public_key_from_slice std_ext = Inr"
  "from_normal_idx std_ext = Ok"
  "ckd_pub_tweak std_ext = (\<lambda>xpub i. Ok (xp_public_key xpub))"
  "xpub_encode std_ext = (\<lambda>xpub. xp_depth xpub # xp_public_key xpub)"
  "field_set_b32 std_ext = (\<lambda>b. Some (case b of [] \<Rightarrow> 0 | x # _ \<Rightarrow> x))"
  "affine_set_xo std_ext = (\<lambda>x odd. (x, 0))"
  "scalar_set_b32 std_ext = (\<lambda>b. Some 0)"
  "ecmult_add std_ext = (\<lambda>a k. a)"
  "fill_b32 std_ext = (replicate 32)"
  "build_script std_ext = (\<lambda>items. concat (map encode_item items))"
  "script_instructions std_ext = decode_script"
  "read_scriptint std_ext = (\<lambda>b. map_option int (scriptnum_decode b))"
  "opcode_debug std_ext = (\<lambda>n. nat_to_string n)"
  "to_v0_p2wsh std_ext = (\<lambda>s. 0 # s)"
  "new_op_return std_ext = (\<lambda>b. 0x6a # b)"
  "dust_value std_ext = (\<lambda>s. 330)"
  "tx_txid std_ext = (\<lambda>tx. [length (btx_input tx), length (btx_output tx)])"
  "tx_vsize std_ext = (\<lambda>tx. 100)"
  "segwit_signature_hash std_ext = (\<lambda>tx i script amount. Ok [i])"
  "block_hash std_ext = (\<lambda>h. [bh_nonce h])"
  "u256_from_compact_target std_ext = (\<lambda>b. b)"
  "compact_target_from_u256 std_ext = (\<lambda>t. t)"
  "header_work std_ext = (\<lambda>h. 1)"
  "header_validate_pow std_ext = (\<lambda>h t. if bh_bits h = t then Ok [bh_nonce h] else Err (Bitcoin ''bad target''))"
  "extract_matches std_ext = (\<lambda>b. Some (b, [b]))"
  "outpoint_to_string std_ext = (\<lambda>op. unary_encode (op_vout op # op_txid op))"
  "outpoint_from_str std_ext = std_outpoint_from_str"
  "address_script std_ext = (\<lambda>s. Inr (as_bytes s))"
  "mul_ratio std_ext = (\<lambda>a n d. Ok (a * n div d))"
  "addr_validate std_ext = (\<lambda>s. None)"
  "simulate_swap std_ext = (\<lambda>r a ops. Some a)"
  "sha256 std_ext = (\<lambda>b. b)"
  "to_json_vec std_ext = (\<lambda>fs. Ok (write_json fs))"
  "encode_memo std_ext = me_receiver"
  "headers_dq std_ext = std_deque"
  "checkpoints_dq std_ext = std_deque"
  "recovery_dq std_ext = std_deque"
  by (simp_all add: std_ext_def)

interpretation std: contract_deques std_ext
  by (rule contract_deques.intro) (simp_all add: std_ext_def std_dq.deque_laws_axioms)

interpretation std_script: script_laws std_ext
  by unfold_locales (simp_all add: std_ext_def decode_items scriptnum_decode_encode)

interpretation std_keys: xpub_encoding std_ext
  by unfold_locales (simp add: std_sels normalized_def)

interpretation std_outpoints: outpoint_strings std_ext
  by unfold_locales (simp add: std_ext_def std_outpoint_from_str_def unary_roundtrip del: unary_encode.simps)

end
