(* ===== verification/Contract.thy ===== *)
theory Contract
  imports Entrypoints
begin

text \<open>
  The contract as a whole: which parts of the store a message can change, the runs of the
  contract as a step relation over the entry points, and what holds along every run. The locales
  \<open>quiet_frame\<close> and \<open>store_frame\<close> are the contract the handlers share (a relation that
  every write of theirs respects); the latter is interpreted by the relation that keeps the owner's settings and by the one
  that forgets neither outpoints nor block hashes.
\<close>

text \<open>The messages that are reserved for the owner of the contract.\<close>

fun owner_msg :: "execute_msg \<Rightarrow> bool" where
  "owner_msg (UpdateConfig u) \<longleftrightarrow> True"
| "owner_msg (UpdateBitcoinConfig c) \<longleftrightarrow> True"
| "owner_msg (UpdateCheckpointConfig c) \<longleftrightarrow> True"
| "owner_msg (UpdateHeaderConfig c) \<longleftrightarrow> True"
| "owner_msg (AddValidators a v k) \<longleftrightarrow> True"
| "owner_msg (RegisterDenom d m) \<longleftrightarrow> True"
| "owner_msg (ChangeBtcDenomOwner d) \<longleftrightarrow> True"
| "owner_msg msg \<longleftrightarrow> False"

text \<open>The parts of a block end that succeeds.\<close>

lemma clock_end_block_Inr:
  assumes "clock_end_block E env st hash = Inr (msgs, st')"
  obtains ds st1 config ks st2 st3 where "hash \<notin> st_block_hashes st"
    "Bitcoin_take_pending_completed E st = Inr (ds, st1)" "st_config st1 = Some config"
    "fold_r (payout_msgs E env st1 config) (concat ds) [] = Inr msgs"
    "Bitcoin_begin_block_step E env st1 hash = Inr (ks, st2)" "fold_r (punish_step E) ks st2 = Inr st3"
    "st' = st3\<lparr>st_block_hashes := insert hash (st_block_hashes st3)\<rparr>"
  using assms by (auto simp: clock_end_block_def ok_simps)

section \<open>Frames\<close>

text \<open>
  What a registration and a punishment write: the keys, the set of taken keys, the signers, and no
  validator that was not one.
\<close>

lemma set_signatory_key_frame:
  "Bitcoin_set_signatory_key E st signer xpub = Inr st' \<Longrightarrow>
     st' = st\<lparr>st_sig_keys := st_sig_keys st', st_xpubs := st_xpubs st'\<rparr>"
  by (auto simp: Bitcoin_set_signatory_key_def ok_simps keys_insert_Inr_iff)

lemma punish_frame:
  "Bitcoin_punish_validator E st k addr = st\<lparr>st_validators := omap_remove k (st_validators st),
     st_signers := (st_signers st)(addr := None),
     st_xpubs := st_xpubs (Bitcoin_punish_validator E st k addr),
     st_sig_keys := st_sig_keys (Bitcoin_punish_validator E st k addr)\<rparr>"
  by (simp add: Bitcoin_punish_validator_def Let_def split: option.split)

text \<open>
  A relation between stores that the writes to the parts of the store around the checkpoint queue
  respect, whatever the values written; for the keys of the validators and their registration,
  that the two operations which write them respect.
\<close>

locale quiet_frame =
  fixes E :: "'x contract_ext_scheme" and R :: "store \<Rightarrow> store \<Rightarrow> bool"
  assumes refl: "R st st"
    and trans: "R st st' \<Longrightarrow> R st' st'' \<Longrightarrow> R st st''"
    and write_confirmed_index: "R st (st\<lparr>st_confirmed_index := i\<rparr>)"
    and write_headers: "R st (st\<lparr>st_headers := h\<rparr>)"
    and write_current_work: "R st (st\<lparr>st_current_work := w\<rparr>)"
    and write_recovery_txs: "R st (st\<lparr>st_recovery_txs := r\<rparr>)"
    and set_signatory_key_R: "Bitcoin_set_signatory_key E st signer xpub = Inr st' \<Longrightarrow> R st st'"
    and punish_R: "R st (Bitcoin_punish_validator E st k addr)"
    and write_expiration_queue: "R st (st\<lparr>st_expiration_queue := q\<rparr>)"
    and grow_outpoints: "st_outpoints st \<subseteq> ops \<Longrightarrow> R st (st\<lparr>st_outpoints := ops\<rparr>)"
    and grow_block_hashes: "st_block_hashes st \<subseteq> b \<Longrightarrow> R st (st\<lparr>st_block_hashes := b\<rparr>)"
begin

lemma outpoint_insert_R: "R st (OutpointSet_insert E st op t)"
proof -
  let ?s = "st\<lparr>st_outpoints := insert (outpoint_to_string E op) (st_outpoints st)\<rparr>"
  have "R st ?s" by (rule grow_outpoints) auto
  then show ?thesis
    using trans write_expiration_queue [of ?s] by (auto simp: OutpointSet_insert_def Let_def)
qed

lemma create_recovery_R: "RecoveryTxs_create_recovery_tx E st args = Inr st' \<Longrightarrow> R st st'"
  using recovery_frame write_recovery_txs by metis

lemma relay_checkpoint_R: "Bitcoin_relay_checkpoint E st h proof i = Inr st' \<Longrightarrow> R st st'"
  by (auto simp: Bitcoin_relay_checkpoint_def ok_simps intro: write_confirmed_index)

lemma sign_recovery_txs_R:
  "sign_recovery_txs E xpub sigs is n st = Inr (m, st') \<Longrightarrow> R st st'"
proof (induction "is" arbitrary: n st)
  case (Cons i "is")
  then show ?case by (auto simp: ok_simps Let_def intro: trans [OF write_recovery_txs])
qed (simp add: refl)

lemma recovery_sign_R: "RecoveryTxs_sign E st xpub sigs = Inr st' \<Longrightarrow> R st st'"
  by (auto simp: RecoveryTxs_sign_def ok_simps dest: sign_recovery_txs_R)

lemma add_header_step_R: "add_header_step E pair (st, w, cache) = Inr (st', w', cache') \<Longrightarrow> R st st'"
  by (cases pair)
    (auto simp: add_header_step_def Let_def ok_simps intro: trans [OF write_headers write_current_work])

lemma verify_and_add_headers_R:
  assumes "HeaderQueue_verify_and_add_headers E st hs = Inr (w, st')"
  shows "R st st'"
proof -
  obtain pairs cache where "fold_r (add_header_step E) pairs (st, 0, \<lambda>_. None) = Inr (st', w, cache)"
    using assms by (auto simp: HeaderQueue_verify_and_add_headers_def ok_simps)
  from fold_r_invariant [OF this, of "\<lambda>(s, _). R st s"] show ?thesis
    using refl trans add_header_step_R by fastforce
qed

lemma pop_back_to_loop_R: "pop_back_to_loop E n h w st = Inr (w', st') \<Longrightarrow> R st st'"
proof (induction n arbitrary: w st)
  case (Suc n)
  then show ?case
    by (auto simp: refl split: if_splits prod.splits option.splits intro: trans [OF write_headers])
qed simp

lemma pop_back_to_R: "HeaderQueue_pop_back_to E st h = Inr (w, st') \<Longrightarrow> R st st'"
  unfolding HeaderQueue_pop_back_to_def by (rule pop_back_to_loop_R)

lemma headers_add_R:
  assumes "HeaderQueue_add E st hs = Inr st'"
  shows "R st st'"
proof -
  obtain st1 st2 k h w u v where 1: "st1 = st \<or> HeaderQueue_pop_back_to E st k = Inr (u, st1)"
      and 2: "HeaderQueue_verify_and_add_headers E st1 hs = Inr (v, st2)"
      and st': "st' = st2\<lparr>st_headers := h, st_current_work := w\<rparr>"
    using assms
    by (fastforce simp: HeaderQueue_add_def HeaderQueue_add_into_iter_def Let_def split_beta ok_simps split: if_splits)
  have "R st st1" "R st1 st2" using 1 2 refl pop_back_to_R verify_and_add_headers_R by blast+
  moreover
  have "R st2 st'" unfolding st' by (rule trans [OF write_headers write_current_work])
  ultimately show ?thesis using trans by blast
qed

text \<open>What a block end does after the step of the queue: the offline signers are punished and the hash is recorded.\<close>

lemma end_block_R:
  assumes "fold_r (punish_step E) ks st = Inr st'"
  shows "R st (st'\<lparr>st_block_hashes := insert hash (st_block_hashes st')\<rparr>)"
proof (rule trans)
  show "R st st'"
    by (rule fold_r_invariant [OF assms]) (auto simp: punish_step_def ok_simps refl intro: trans [OF _ punish_R])
  show "R st' (st'\<lparr>st_block_hashes := insert hash (st_block_hashes st')\<rparr>)" by (rule grow_block_hashes) auto
qed

end

text \<open>
  A relation that also the writes to the checkpoint queue, its indexes and the fee pool respect: every
  write of the bridge's own handlers. The writes of the handlers reserved for the owner (the
  configurations, new validators) are not among them.
\<close>

locale store_frame = quiet_frame +
  assumes write_checkpoints: "R st (st\<lparr>st_checkpoints := d\<rparr>)"
    and write_fee_pool: "R st (st\<lparr>st_fee_pool := p\<rparr>)"
    and write_building_index: "R st (st\<lparr>st_building_index := i\<rparr>)"
    and write_first_unhandled: "R st (st\<lparr>st_first_unhandled_confirmed_index := i\<rparr>)"
begin

lemma set_R: "CheckpointQueue_set E st j cp = Inr st' \<Longrightarrow> R st st'"
  using set_frame write_checkpoints by metis

lemma give_miner_fee_R: "Bitcoin_give_miner_fee E st n = Inr st' \<Longrightarrow> R st st'"
  using give_miner_fee_frame write_fee_pool write_checkpoints trans by metis

lemma relay_deposit_R:
  assumes "Bitcoin_relay_deposit E env st btc_tx h proof vout i dest = Inr st'"
  shows "R st st'"
proof (rule relay_deposit_Inr [OF assms], goal_cases)
  case (1 config cp cp_config bytes timeout st0)
  have "R st0 st'"
  proof (cases "timeout < env_seconds env")
    case True
    then show ?thesis using 1(12) create_recovery_R by blast
  next
    case False
    then show ?thesis using 1(13) give_miner_fee_R set_R trans by meson
  qed
  then show ?case using outpoint_insert_R trans unfolding 1(11) by blast
qed

lemma add_withdrawal_R: "Bitcoin_add_withdrawal E st script n = Inr st' \<Longrightarrow> R st st'"
  by (auto simp: Bitcoin_add_withdrawal_def Let_def ok_simps intro: trans dest!: give_miner_fee_R set_R)

lemma queue_sign_R: "CheckpointQueue_sign E st xpub sigs i h = Inr st' \<Longrightarrow> R st st'"
  by (auto simp: CheckpointQueue_sign_def Let_def ok_simps dest: set_R)

lemma take_pending_R: "take_pending E st is = Inr (ds, st') \<Longrightarrow> R st st'"
proof (induction "is" arbitrary: st ds)
  case (Cons i "is")
  then show ?case by (auto simp: ok_simps intro: trans dest!: set_R)
qed (simp add: refl)

lemma take_pending_confirmed_R: "Bitcoin_take_pending_confirmed E st = Inr (ds, st') \<Longrightarrow> R st st'"
  by (auto simp: Bitcoin_take_pending_confirmed_def refl ok_simps intro: trans [OF _ write_first_unhandled]
      split: sum.splits failure.splits option.splits dest!: take_pending_R)

lemma take_pending_completed_R:
  assumes "Bitcoin_take_pending_completed E st = Inr (ds, st')"
  shows "R st st'"
proof -
  obtain ds1 st1 where 1: "Bitcoin_take_pending_confirmed E st = Inr (ds1, st1)"
    using assms by (auto simp: Bitcoin_take_pending_completed_def ok_simps)
  then have "R st1 st'"
    using assms
    by (cases "CheckpointQueue_last_completed_index E st1")
      (auto simp: Bitcoin_take_pending_completed_def Let_def ok_simps refl simp del: upt_Suc
        split: if_splits dest: take_pending_R)
  then show ?thesis using take_pending_confirmed_R [OF 1] trans by blast
qed

lemma maybe_push_R:
  assumes "CheckpointQueue_maybe_push E env st de = Inr (b, st')"
  shows "R st st'"
proof -
  obtain i st1 where st1: "st1 = st \<or> st1 = st\<lparr>st_building_index := Some i\<rparr>"
      and rest: "st' = st1 \<or> (\<exists>d b. CheckpointQueue_set E (st1\<lparr>st_checkpoints := d\<rparr>) i b = Inr st')"
    using assms unfolding CheckpointQueue_maybe_push_def Let_def
    by (auto simp: ok_simps split: if_splits)
  have "R st st1" using st1 refl write_building_index by auto
  moreover have "R st1 st'" using rest refl write_checkpoints set_R trans by meson
  ultimately show ?thesis by (rule trans)
qed

lemma prune_R: "CheckpointQueue_prune E st = Inr st' \<Longrightarrow> R st st'"
  by (auto simp: CheckpointQueue_prune_def ok_simps intro: write_checkpoints)

lemma step_advance_R:
  assumes "step_advance E st i h tc pc = Inr st'"
  shows "R st st'"
proof -
  obtain st1 cp1 p cp2 where 1: "CheckpointQueue_set E st (i - 1) cp1 = Inr st1"
      "CheckpointQueue_set E (st1\<lparr>st_fee_pool := p\<rparr>) i cp2 = Inr st'"
    using assms unfolding step_advance_def Let_def by (auto simp: ok_simps)
  then show ?thesis using set_R write_fee_pool trans by meson
qed

lemma maybe_step_R: "CheckpointQueue_maybe_step E env st h de tc pc = Inr (b, st') \<Longrightarrow> R st st'"
  by (auto simp: CheckpointQueue_maybe_step_def refl ok_simps intro: trans split: if_splits
      dest!: maybe_push_R prune_R step_advance_R)

lemma begin_block_step_R: "Bitcoin_begin_block_step E env st tc = Inr (ks, st') \<Longrightarrow> R st st'"
  by (auto simp: Bitcoin_begin_block_step_def Let_def ok_simps split: if_splits dest!: maybe_step_R)

lemma clock_end_block_R:
  assumes "clock_end_block E env st hash = Inr (msgs, st')"
  shows "R st st'"
  using assms
proof (rule clock_end_block_Inr)
  fix ds st1 ks st2 st3
  assume "Bitcoin_take_pending_completed E st = Inr (ds, st1)" "Bitcoin_begin_block_step E env st1 hash = Inr (ks, st2)"
  then have "R st st2" using take_pending_completed_R begin_block_step_R trans by blast
  moreover assume "fold_r (punish_step E) ks st2 = Inr st3" and "st' = st3\<lparr>st_block_hashes := insert hash (st_block_hashes st3)\<rparr>"
  ultimately show "R st st'" using end_block_R trans by blast
qed

lemma withdraw_funds_R:
  "withdraw_funds E env tf denom script funds st = Inr (msgs, st') \<Longrightarrow> R st st'"
proof (induction funds arbitrary: st msgs)
  case (Cons fund funds)
  then show ?case by (auto simp: ok_simps intro: trans split: if_splits dest!: add_withdrawal_R)
qed (simp add: refl)

lemma withdraw_to_bitcoin_R: "withdraw_to_bitcoin E env st info a = Inr (msgs, st') \<Longrightarrow> R st st'"
  by (cases "address_script E a") (auto simp: withdraw_to_bitcoin_def ok_simps dest: withdraw_funds_R)

lemmas handlers_R = headers_add_R relay_deposit_R relay_checkpoint_R withdraw_to_bitcoin_R queue_sign_R
  recovery_sign_R set_signatory_key_R clock_end_block_R

text \<open>Every handler that is not reserved for the owner respects the relation.\<close>

lemma open_msg_R:
  assumes "execute E env st info msg = Inr (msgs, st')" and "\<not> owner_msg msg"
  shows "R st st'"
  using assms
  by (cases msg)
    (auto simp: execute_def relay_headers_def relay_deposit_def relay_checkpoint_def submit_checkpoint_signature_def
      submit_recovery_signature_def set_signatory_key_def ok_simps dest: handlers_R)

end

section \<open>The configuration belongs to the owner\<close>

text \<open>What the owner alone decides: the configurations and who is a validator.\<close>

definition settings_kept :: "store \<Rightarrow> store \<Rightarrow> bool" where
  "settings_kept st st' \<longleftrightarrow> st_config st' = st_config st \<and> st_bitcoin_config st' = st_bitcoin_config st \<and>
     st_checkpoint_config st' = st_checkpoint_config st \<and> st_header_config st' = st_header_config st \<and>
     st_token_fee_ratio st' = st_token_fee_ratio st \<and> set (st_validators st') \<subseteq> set (st_validators st)"

interpretation settings: store_frame E settings_kept for E :: "'x contract_ext_scheme"
proof unfold_locales
  show "settings_kept st st'" if "Bitcoin_set_signatory_key E st signer xpub = Inr st'" for st st' signer xpub
    by (subst set_signatory_key_frame [OF that]) (simp add: settings_kept_def)
  show "settings_kept st (Bitcoin_punish_validator E st k addr)" for st k addr
    by (subst punish_frame) (auto simp: settings_kept_def omap_remove_def)
qed (auto simp: settings_kept_def)

lemma owner_msg_panics:
  assumes "owner_msg msg" and "st_config st = Some config" and "mi_sender info \<noteq> cf_owner config"
  shows "execute E env st info msg = panic"
  using assms
  by (cases msg)
    (auto simp: execute_def update_config_def update_bitcoin_config_def update_checkpoint_config_def
      update_header_config_def add_validators_def register_denom_def change_btc_denom_owner_def
      assert_owner_def assert_r_def)

text \<open>
  C14: Only the owner changes the settings. A message of anybody else that succeeds is none of those
  reserved for the owner; it leaves the four configurations and the token fee alone, and no
  validator is added or changed.
\<close>

theorem settings_of_owner:
  assumes "st_config st = Some config" and "mi_sender info \<noteq> cf_owner config"
    and "execute E env st info msg = Ok (msgs, st')"
  shows "\<not> owner_msg msg \<and> settings_kept st st'"
proof
  show "\<not> owner_msg msg"
    using owner_msg_panics [OF _ assms(1,2), of msg E env] assms(3) by auto
  then show "settings_kept st st'" using settings.open_msg_R [OF assms(3)] by blast
qed

section \<open>What the contract never forgets\<close>

definition remembers :: "store \<Rightarrow> store \<Rightarrow> bool" where
  "remembers st st' \<longleftrightarrow> st_outpoints st \<subseteq> st_outpoints st' \<and> st_block_hashes st \<subseteq> st_block_hashes st'"

interpretation memory: store_frame E remembers for E :: "'x contract_ext_scheme"
proof unfold_locales
  show "remembers st st'" if "Bitcoin_set_signatory_key E st signer xpub = Inr st'" for st st' signer xpub
    by (subst set_signatory_key_frame [OF that]) (simp add: remembers_def)
  show "remembers st (Bitcoin_punish_validator E st k addr)" for st k addr
    by (subst punish_frame) (simp add: remembers_def)
qed (auto simp: remembers_def)

lemma owner_msg_remembers:
  assumes "owner_msg msg" and "execute E env st info msg = Inr (msgs, st')"
  shows "remembers st st'"
proof -
  have frame: "add_validators_loop vs st = st\<lparr>st_signers := st_signers (add_validators_loop vs st),
      st_validators := st_validators (add_validators_loop vs st)\<rparr>" for vs st
    by (induction vs st rule: add_validators_loop.induct) auto
  have "remembers st (add_validators_loop vs st)" for vs st
    by (subst frame) (simp add: remembers_def)
  then show ?thesis
    using assms
    by (cases msg)
      (auto simp: execute_def update_config_def update_bitcoin_config_def update_checkpoint_config_def
        update_header_config_def HeaderQueue_configure_def add_validators_def register_denom_def
        change_btc_denom_owner_def remembers_def Let_def ok_simps)
qed

text \<open>A transaction of the contract that succeeds, and the runs made of them.\<close>

inductive contract_step :: "'x contract_ext_scheme \<Rightarrow> store \<Rightarrow> store \<Rightarrow> bool" for E where
  by_execute: "execute E env st info msg = Ok (msgs, st') \<Longrightarrow> contract_step E st st'"
| by_sudo: "sudo E env st smsg = Ok (msgs, st') \<Longrightarrow> contract_step E st st'"

abbreviation contract_run :: "'x contract_ext_scheme \<Rightarrow> store \<Rightarrow> store \<Rightarrow> bool" where
  "contract_run E \<equiv> (contract_step E)\<^sup>*\<^sup>*"

inductive_cases contract_stepE [elim]: "contract_step E st st'"

lemma step_remembers: "contract_step E st st' \<Longrightarrow> remembers st st'"
  by (erule contract_stepE)
    (auto simp: sudo_def split: sudo_msg.splits
      intro: owner_msg_remembers memory.open_msg_R dest: memory.clock_end_block_R)

lemma run_remembers: "contract_run E st st' \<Longrightarrow> remembers st st'"
  by (induction rule: rtranclp_induct) (auto intro: memory.refl memory.trans step_remembers)

text \<open>
  C2: A deposit is credited at most once. An output that was relayed was not known before, and
  after any run of the contract, whatever messages it consists of, relaying it again is refused,
  with any proof, height, signatory set, destination, sender and time.
\<close>

theorem deposit_once:
  assumes "Bitcoin_relay_deposit E env st btc_tx h proof vout i dest = Ok st1" and "contract_run E st1 st2"
  shows "\<not> OutpointSet_contains E st \<lparr>op_txid = tx_txid E btc_tx, op_vout = vout\<rparr> \<and>
    (\<forall>env' info h' proof' i' dest' r.
       execute E env' st2 info (RelayDeposit btc_tx h' proof' vout i' dest') \<noteq> Ok r)"
proof -
  let ?op = "\<lparr>op_txid = tx_txid E btc_tx, op_vout = vout\<rparr>"
  have "\<not> OutpointSet_contains E st ?op" "OutpointSet_contains E st1 ?op"
    using relay_deposit_contains [OF assms(1)] by blast+
  moreover from this have "OutpointSet_contains E st2 ?op"
    using run_remembers [OF assms(2)] by (auto simp: OutpointSet_contains_def remembers_def)
  then have "Bitcoin_relay_deposit E env' st2 btc_tx h' proof' vout i' dest' \<noteq> Ok st3" for env' h' proof' i' dest' st3
    using relay_deposit_contains by blast
  ultimately show ?thesis by (auto simp: execute_def relay_deposit_def ok_simps)
qed

text \<open>
  A block is ended once. The hash of a block that was ended was not known before, and after any
  run of the contract, ending the block again is refused.
\<close>

lemma block_ends_once:
  assumes "clock_end_block E env st hash = Ok (msgs, st1)" and "contract_run E st1 st2"
  shows "hash \<notin> st_block_hashes st \<and>
    clock_end_block E env' st2 hash = Err (App ''Blockhash already exists'')"
proof -
  have "hash \<notin> st_block_hashes st" "hash \<in> st_block_hashes st1"
    using assms(1) by (auto simp: clock_end_block_def ok_simps)
  then show ?thesis
    using run_remembers [OF assms(2)] by (auto simp: clock_end_block_def remembers_def throw_if_def)
qed

section \<open>The keys of the signatories\<close>

text \<open>
  That the registered keys are distinct is kept by every step: the handlers reach the keys only
  through a registration and a punishment, the owner's messages not at all.
\<close>

definition keys_kept :: "'x contract_ext_scheme \<Rightarrow> store \<Rightarrow> store \<Rightarrow> bool" where
  "keys_kept E st st' \<longleftrightarrow> (keys_inv E st \<longrightarrow> keys_inv E st')"

lemma keys_inv_cong: "st_sig_keys st' = st_sig_keys st \<Longrightarrow> st_xpubs st' = st_xpubs st \<Longrightarrow> keys_inv E st' = keys_inv E st"
  by (simp add: keys_inv_def SignatoryKeys_get_def)

lemma set_signatory_key_Inr:
  assumes "Bitcoin_set_signatory_key E st signer x = Inr st'"
  obtains k where "st_signers st signer = Some k" and "SignatoryKeys_insert E st k x = Inr st'"
  using assms by (auto simp: Bitcoin_set_signatory_key_def ok_simps)

context xpub_encoding
begin

lemma keys_inv_punish:
  assumes "keys_inv E st"
  shows "keys_inv E (Bitcoin_punish_validator E st k addr)"
proof (cases "SignatoryKeys_get st k")
  case None
  then show ?thesis
    using assms keys_inv_cong [of "Bitcoin_punish_validator E st k addr" st E]
    by (simp add: Bitcoin_punish_validator_def Let_def SignatoryKeys_get_def)
next
  case (Some x)
  let ?st = "st\<lparr>st_xpubs := st_xpubs st - {xpub_encode E x}, st_sig_keys := omap_remove k (st_sig_keys st)\<rparr>"
  have "keys_inv E ?st" by (rule keys_inv_remove [OF assms Some])
  then show ?thesis
    using Some keys_inv_cong [of "Bitcoin_punish_validator E st k addr" ?st E]
    by (simp add: Bitcoin_punish_validator_def Let_def SignatoryKeys_get_def)
qed

end

sublocale xpub_encoding \<subseteq> keys: store_frame E "keys_kept E"
proof unfold_locales
  show "keys_kept E st st'" if "Bitcoin_set_signatory_key E st signer xpub = Inr st'" for st st' signer xpub
    using that by (rule set_signatory_key_Inr) (auto simp: keys_kept_def intro: keys_inv_insert(1))
  show "keys_kept E st (Bitcoin_punish_validator E st k addr)" for st k addr
    by (simp add: keys_kept_def keys_inv_punish)
qed (auto simp: keys_kept_def intro: keys_inv_cong [THEN iffD2])

lemma owner_msg_keys:
  assumes "owner_msg msg" and "execute E env st info msg = Inr (msgs, st')"
  shows "st_sig_keys st' = st_sig_keys st \<and> st_xpubs st' = st_xpubs st"
proof -
  have "st_sig_keys (add_validators_loop vs st) = st_sig_keys st \<and> st_xpubs (add_validators_loop vs st) = st_xpubs st" for vs st
    by (induction vs st rule: add_validators_loop.induct) auto
  then show ?thesis
    using assms
    by (cases msg)
      (auto simp: execute_def update_config_def update_bitcoin_config_def update_checkpoint_config_def
        update_header_config_def HeaderQueue_configure_def add_validators_def register_denom_def
        change_btc_denom_owner_def Let_def ok_simps)
qed

context xpub_encoding
begin

lemma step_keys:
  assumes "contract_step E st st'" and "keys_inv E st"
  shows "keys_inv E st'"
  using assms(1)
proof cases
  case (by_execute env info msg msgs)
  then show ?thesis
    using assms(2) owner_msg_keys [of msg E env st info msgs st'] keys.open_msg_R [of env st info msg msgs st'] keys_inv_cong
    by (cases "owner_msg msg") (auto simp: keys_kept_def)
next
  case (by_sudo env smsg msgs)
  then show ?thesis
    using assms(2) by (auto simp: sudo_def keys_kept_def split: sudo_msg.splits dest: keys.clock_end_block_R)
qed

lemma run_keys: "contract_run E st st' \<Longrightarrow> keys_inv E st \<Longrightarrow> keys_inv E st'"
  by (induction rule: rtranclp_induct) (auto intro: step_keys)

end

lemma instantiate_keys: "instantiate E empty_store info imsg = Inr (msgs, st) \<Longrightarrow> keys_inv E st"
  by (auto simp: instantiate_def HeaderQueue_configure_def empty_store_def Let_def ok_simps keys_inv_def SignatoryKeys_get_def)

text \<open>
  C36: No two validators ever hold the same signatory key. In every state that any run of the
  contract reaches from its instantiation, punishments and pruned checkpoints included, the keys
  registered under two different consensus keys have different normalized encodings; no message
  registers a key whose normalized encoding is that of a key that is registered at that moment; and a
  registration that is accepted stores the key under the sender's consensus key and changes no
  other. (A key that was removed with its punished validator is not registered any more.) The
  hypothesis on the encoding is that keys with equal encodings stay equal when normalized.
\<close>

theorem signatory_keys_distinct:
  assumes "xpub_encoding E" and "instantiate E empty_store info imsg = Ok (imsgs, st0)" and "contract_run E st0 st"
  shows "(\<forall>k k' x x'. SignatoryKeys_get st k = Some x \<and> SignatoryKeys_get st k' = Some x' \<and>
       xpub_encode E (normalized x) = xpub_encode E (normalized x') \<longrightarrow> k = k') \<and>
    (\<forall>k x y env info r. SignatoryKeys_get st k = Some x \<and> xpub_encode E (normalized y) = xpub_encode E (normalized x) \<longrightarrow>
       execute E env st info (SetSignatoryKey y) \<noteq> Ok r) \<and>
    (\<forall>env info y msgs st'. execute E env st info (SetSignatoryKey y) = Ok (msgs, st') \<longrightarrow>
       (\<exists>k. st_signers st (mi_sender info) = Some k \<and>
          (\<forall>k'. SignatoryKeys_get st' k' = (if k' = k then Some y else SignatoryKeys_get st k'))))"
proof (intro conjI)
  have inv: "keys_inv E st"
    using xpub_encoding.run_keys [OF assms(1,3)] instantiate_keys [OF assms(2)] by blast
  show "\<forall>k k' x x'. SignatoryKeys_get st k = Some x \<and> SignatoryKeys_get st k' = Some x' \<and>
       xpub_encode E (normalized x) = xpub_encode E (normalized x') \<longrightarrow> k = k'"
    using inv unfolding keys_inv_def by blast
  have reg: "\<exists>k. st_signers st (mi_sender info) = Some k \<and> SignatoryKeys_insert E st k y = Inr st'"
    if "execute E env st info (SetSignatoryKey y) = Ok (msgs, st')" for env info y msgs st'
    using that by (auto simp: execute_def set_signatory_key_def ok_simps elim: set_signatory_key_Inr)
  then show "\<forall>env info y msgs st'. execute E env st info (SetSignatoryKey y) = Ok (msgs, st') \<longrightarrow>
       (\<exists>k. st_signers st (mi_sender info) = Some k \<and>
          (\<forall>k'. SignatoryKeys_get st' k' = (if k' = k then Some y else SignatoryKeys_get st k')))"
    using keys_inv_insert(2) [OF inv] by blast
  show "\<forall>k x y env info r. SignatoryKeys_get st k = Some x \<and> xpub_encode E (normalized y) = xpub_encode E (normalized x) \<longrightarrow>
       execute E env st info (SetSignatoryKey y) \<noteq> Ok r"
  proof (intro allI impI notI)
    fix k x y env info and r :: "cosmos_msg list \<times> store"
    assume x: "SignatoryKeys_get st k = Some x \<and> xpub_encode E (normalized y) = xpub_encode E (normalized x)"
      and r: "execute E env st info (SetSignatoryKey y) = Ok r"
    obtain msgs st' where "r = (msgs, st')" by (cases r)
    with r reg obtain k' where "SignatoryKeys_insert E st k' y = Inr st'" by blast
    then show False using inv x unfolding keys_insert_Inr_iff keys_inv_def by metis
  qed
qed

section \<open>Payouts\<close>

text \<open>The tokens of a denomination that a list of messages mints.\<close>

fun minted :: "string \<Rightarrow> cosmos_msg list \<Rightarrow> nat" where
  "minted denom [] = 0"
| "minted denom (MintTokens tf d n receiver # msgs) = (if d = denom then n else 0) + minted denom msgs"
| "minted denom (_ # msgs) = minted denom msgs"

lemma minted_append [simp]: "minted denom (ms @ ms') = minted denom ms + minted denom ms'"
  by (induction denom ms rule: minted.induct) auto

text \<open>The transfers of a denomination.\<close>

definition owed :: "string \<Rightarrow> (dest \<times> coin) list \<Rightarrow> nat" where
  "owed denom ds = sum_list (map (coin_amount \<circ> snd) (filter (\<lambda>d. coin_denom (snd d) = denom) ds))"

text \<open>Destinations that get a message: all but a live IBC transfer over another port.\<close>

definition payable :: "env \<Rightarrow> config \<Rightarrow> dest \<Rightarrow> bool" where
  "payable env config d = (case d of
     Dest_Address a \<Rightarrow> True
   | Dest_Ibc i \<Rightarrow> cf_osor_entry_point_contract config = None \<or> ib_timeout_timestamp i < env_nanos env \<or>
       ib_source_port i = ''transfer'')"

lemma minted_build:
  "minted denom (Dest_build_cosmos_msg E d env msgs c bridge tf (cf_osor_entry_point_contract config)) =
     minted denom msgs + (if payable env config d \<and> coin_denom c = denom then coin_amount c else 0)"
  by (auto simp: Dest_build_cosmos_msg_def payable_def Let_def split: dest.splits option.splits)

lemma minted_payout:
  assumes "payout_msgs E env st config (d, c) msgs = Inr msgs'"
  shows "minted denom msgs' \<le> minted denom msgs + owed denom [(d, c)]"
    and "payable env config d \<Longrightarrow> minted denom msgs' = minted denom msgs + owed denom [(d, c)]"
proof -
  obtain fd where fd: "process_deduct_fee E st c = Inr fd"
    using assms by (auto simp: payout_msgs_def ok_simps)
  note sum = process_deduct_fee_sum [OF fd]
  have "minted denom msgs' = minted denom msgs +
      (if payable env config d \<and> coin_denom c = denom then fd_deducted_amount fd else 0) +
      (if coin_denom c = denom then coin_amount (fd_relayer_fee fd) + coin_amount (fd_token_fee fd) else 0)"
    using assms fd by (auto simp: payout_msgs_def Let_def minted_build)
  then show "minted denom msgs' \<le> minted denom msgs + owed denom [(d, c)]"
    and "payable env config d \<Longrightarrow> minted denom msgs' = minted denom msgs + owed denom [(d, c)]"
    using sum(1) by (auto simp: owed_def)
qed

lemma minted_payouts:
  assumes "fold_r (payout_msgs E env st config) ds msgs = Inr msgs'"
  shows "minted denom msgs' \<le> minted denom msgs + owed denom ds \<and>
    (list_all (payable env config \<circ> fst) ds \<longrightarrow> minted denom msgs' = minted denom msgs + owed denom ds)"
  using assms
proof (induction ds arbitrary: msgs)
  case (Cons t ds)
  obtain d c where t: "t = (d, c)" by (cases t)
  obtain msgs1 where 1: "payout_msgs E env st config (d, c) msgs = Inr msgs1"
      and 2: "fold_r (payout_msgs E env st config) ds msgs1 = Inr msgs'"
    using Cons.prems by (auto simp: t ok_simps)
  have "owed denom ((d, c) # ds) = owed denom [(d, c)] + owed denom ds" by (simp add: owed_def)
  then show ?case using minted_payout [OF 1, of denom] Cons.IH [OF 2] by (auto simp: t)
qed (simp add: owed_def)

text \<open>
  C15: The end of a block pays what is owed. The messages of a block mint, in every denomination, at
  most the amounts of the pending transfers it takes, fees included, and exactly these amounts if none of the
  transfers is a live IBC transfer over a port other than \<^verbatim>\<open>transfer\<close>.
\<close>

theorem block_mints_transfers:
  assumes "clock_end_block E env st hash = Ok (msgs, st')"
  shows "\<exists>ds st1 config. Bitcoin_take_pending_completed E st = Ok (ds, st1) \<and> st_config st = Some config \<and>
    minted denom msgs \<le> owed denom (concat ds) \<and>
    (list_all (payable env config \<circ> fst) (concat ds) \<longrightarrow> minted denom msgs = owed denom (concat ds))"
proof -
  from assms obtain ds st1 config where 1: "Bitcoin_take_pending_completed E st = Ok (ds, st1)" "st_config st1 = Some config"
      and 2: "fold_r (payout_msgs E env st1 config) (concat ds) [] = Inr msgs"
    by (rule clock_end_block_Inr)
  have "st_config st = Some config"
    using settings.take_pending_completed_R [OF 1(1)] 1(2) by (simp add: settings_kept_def)
  then show ?thesis using 1(1) minted_payouts [OF 2, of denom] by auto
qed

end
