(* ===== verification/Runs.thy ===== *)
theory Runs
  imports Contract
begin

text \<open>
  The runs of an instantiated contract, and how a property of checkpoints is carried along them: the locale
  \<open>checkpoint_invariant\<close> lists what the contract does to a checkpoint, and shows once that a property kept by
  each of these operations holds for every checkpoint of every live state.
\<close>

section \<open>Runs of the contract\<close>

text \<open>
  Numbers of a message or of the block that are stored in the checkpoint queue have the widths of their
  types; that is what the decoding of a message guarantees.
\<close>

definition env_typed :: "env \<Rightarrow> bool" where
  "env_typed env \<longleftrightarrow> env_seconds env < 2 ^ 64"

definition checkpoint_config_typed :: "checkpoint_config \<Rightarrow> bool" where
  "checkpoint_config_typed c \<longleftrightarrow>
     cc_min_checkpoint_interval c < 2 ^ 64 \<and> cc_max_checkpoint_interval c < 2 ^ 64 \<and>
     cc_max_inputs c < 2 ^ 64 \<and> cc_max_outputs c < 2 ^ 64 \<and> cc_fee_rate c < 2 ^ 64 \<and> cc_max_age c < 2 ^ 64 \<and>
     cc_target_checkpoint_inclusion c < 2 ^ 32 \<and> cc_min_fee_rate c < 2 ^ 64 \<and> cc_max_fee_rate c < 2 ^ 64 \<and>
     cc_user_fee_factor c < 2 ^ 64 \<and> fst (cc_sigset_threshold c) < 2 ^ 64 \<and> snd (cc_sigset_threshold c) < 2 ^ 64 \<and>
     cc_max_unconfirmed_checkpoints c < 2 ^ 32"

fun msg_typed :: "execute_msg \<Rightarrow> bool" where
  "msg_typed (UpdateCheckpointConfig config) \<longleftrightarrow> checkpoint_config_typed config"
| "msg_typed (RelayDeposit btc_tx btc_height btc_proof btc_vout sigset_index dest) \<longleftrightarrow>
     list_all (\<lambda>out. txo_value out < 2 ^ 64) (btx_output btc_tx) \<and> btc_vout < 2 ^ 32"
| "msg_typed (SubmitCheckpointSignature xpub sigs cp_index btc_height) \<longleftrightarrow> btc_height < 2 ^ 32"
| "msg_typed msg \<longleftrightarrow> True"

text \<open>
  The states of a contract from its instantiation on, as long as nothing was pruned from the checkpoint
  queue (afterwards its writes miss, see the theorem on pruned queues) and the indexes fit.
\<close>

definition in_service :: "store \<Rightarrow> bool" where
  "in_service st \<longleftrightarrow> dq_head (st_checkpoints st) = 0 \<and> length (queue st) + 2 < 2 ^ 32"

inductive live :: "'x contract_ext_scheme \<Rightarrow> store \<Rightarrow> bool" for E where
  instantiated: "instantiate E empty_store info imsg = Ok (msgs, st) \<Longrightarrow> live E st"
| executed: "live E st \<Longrightarrow> execute E env st info msg = Ok (msgs, st') \<Longrightarrow> env_typed env \<Longrightarrow> msg_typed msg \<Longrightarrow>
    in_service st' \<Longrightarrow> live E st'"
| block_ended: "live E st \<Longrightarrow> sudo E env st smsg = Ok (msgs, st') \<Longrightarrow> env_typed env \<Longrightarrow>
    in_service st' \<Longrightarrow> live E st'"

section \<open>What every write to the queue keeps\<close>

text \<open>The handlers that leave the queue, its index, the fee pool and its configuration alone.\<close>

definition queue_kept :: "store \<Rightarrow> store \<Rightarrow> bool" where
  "queue_kept st st' \<longleftrightarrow> st_checkpoints st' = st_checkpoints st \<and> st_building_index st' = st_building_index st \<and>
     st_fee_pool st' = st_fee_pool st \<and> st_checkpoint_config st' = st_checkpoint_config st"

interpretation quiet: quiet_frame E queue_kept for E :: "'x contract_ext_scheme"
proof unfold_locales
  show "queue_kept st st'" if "Bitcoin_set_signatory_key E st signer xpub = Inr st'" for st st' signer xpub
    by (subst set_signatory_key_frame [OF that]) (simp add: queue_kept_def)
  show "queue_kept st (Bitcoin_punish_validator E st k addr)" for st k addr
    by (subst punish_frame) (simp add: queue_kept_def)
qed (auto simp: queue_kept_def)

text \<open>A store whose queue has the right shape and whose checkpoints all have a property.\<close>

definition bridge_inv :: "(checkpoint \<Rightarrow> bool) \<Rightarrow> store \<Rightarrow> bool" where
  "bridge_inv P st \<longleftrightarrow> queue_inv st \<and> list_all P (queue st) \<and>
     (\<forall>p. st_fee_pool st = Some p \<longrightarrow> in_i64 p) \<and>
     (\<forall>c. st_checkpoint_config st = Some c \<longrightarrow> checkpoint_config_typed c)"

lemma queue_keptD: "queue_kept st st' \<Longrightarrow> queue st' = queue st"
  by (simp add: queue_kept_def queue_def)

lemma bridge_inv_kept: "bridge_inv P st \<Longrightarrow> queue_kept st st' \<Longrightarrow> bridge_inv P st'"
proof -
  assume inv: "bridge_inv P st" and kept: "queue_kept st st'"
  have "unpruned st' i = unpruned st i" for i
    using kept by (intro unpruned_cong) (simp_all add: queue_kept_def)
  then show ?thesis
    using inv queue_keptD [OF kept] kept by (simp add: bridge_inv_def queue_inv_def queue_kept_def)
qed

lemma bridge_inv_pool: "bridge_inv P st \<Longrightarrow> in_i64 p \<Longrightarrow> bridge_inv P (st\<lparr>st_fee_pool := Some p\<rparr>)"
  by (simp add: bridge_inv_def queue_inv_def)

lemma bridge_inv_first_unhandled:
  "bridge_inv P (st\<lparr>st_first_unhandled_confirmed_index := n\<rparr>) = bridge_inv P st"
  by (simp add: bridge_inv_def queue_inv_def)

lemma default_config_typed: "checkpoint_config_typed CheckpointConfig_default"
  by (simp add: checkpoint_config_typed_def CheckpointConfig_default_def MAX_CHECKPOINT_INTERVAL_def
      MAX_CHECKPOINT_AGE_def MIN_FEE_RATE_def MAX_FEE_RATE_def USER_FEE_FACTOR_def SIGSET_THRESHOLD_def)

lemma bridge_inv_start:
  assumes "instantiate E empty_store info msg = Inr (msgs, st)"
  shows "bridge_inv P st" and "in_service st"
proof -
  have st: "st_checkpoints st = dq_empty" "st_building_index st = Some 0" "st_fee_pool st = Some 0"
      "st_checkpoint_config st = Some CheckpointConfig_default"
    using assms by (auto simp: instantiate_def HeaderQueue_configure_def empty_store_def Let_def ok_simps)
  then have q: "queue st = []" by (simp add: queue_def)
  have "dq_head (dq_empty :: checkpoint dq) = 0" by (simp add: dq_empty_def)
  then have "unpruned st 0" using q st by (simp add: unpruned_def queue_ok_def)
  then show "bridge_inv P st"
    using q st default_config_typed by (auto simp: bridge_inv_def queue_inv_def status_ok_def in_i64_def)
  show "in_service st" using q st(1) by (simp add: in_service_def dq_empty_def)
qed


text \<open>
  A property of checkpoints that every write of the contract to the queue keeps: a new checkpoint, fees,
  a deposit, a withdrawal, taking the pending transfers, freezing, what moves to the next checkpoint, and
  a signature.
\<close>

locale checkpoint_invariant = contract_deques E for E :: "'x contract_ext_scheme" +
  fixes P :: "checkpoint \<Rightarrow> bool"
  assumes fresh: "Checkpoint_new sigset = Ok cp \<Longrightarrow> next_sigset E st env i = Ok sigset \<Longrightarrow> env_typed env \<Longrightarrow>
      i < 2 ^ 32 \<Longrightarrow> P (cp\<lparr>cp_deposits_enabled := de\<rparr>)"
    and fees: "P cp \<Longrightarrow> n < 2 ^ 64 \<Longrightarrow> P (cp\<lparr>cp_fees_collected := n\<rparr>)"
    and taken: "P cp \<Longrightarrow> P (cp\<lparr>cp_pending := []\<rparr>)"
    and deposited: "P cp \<Longrightarrow> cp_status cp = Building \<Longrightarrow> first_tx cp = Ok tx \<Longrightarrow> P old \<Longrightarrow>
      Input_new E prevout (cp_sigset old) dest amount threshold = Ok input \<Longrightarrow> op_vout prevout < 2 ^ 32 \<Longrightarrow>
      amount < 2 ^ 64 \<Longrightarrow> coin_amount coin < 2 ^ 128 \<Longrightarrow>
      P (BuildingCheckpoint_insert_pending (set_first_tx cp (tx\<lparr>bt_input := bt_input tx @ [input]\<rparr>)) d coin)"
    and withdrawn: "P cp \<Longrightarrow> cp_status cp = Building \<Longrightarrow> first_tx cp = Ok tx \<Longrightarrow> txo_value out < 2 ^ 64 \<Longrightarrow>
      P (set_first_tx cp (tx\<lparr>bt_output := bt_output tx @ [out]\<rparr>))"
    and frozen: "P cp \<Longrightarrow> cp_status cp = Building \<Longrightarrow>
      BuildingCheckpoint_advance E cp tc f config = Ok (cp', op, rv, paid, xi, xo) \<Longrightarrow> P cp'"
    and carried: "P prev \<Longrightarrow> cp_status prev = Building \<Longrightarrow>
      BuildingCheckpoint_advance E prev tc f config = Ok (prev', op, rv, paid, xi, xo) \<Longrightarrow>
      P cp \<Longrightarrow> cp_status cp = Building \<Longrightarrow> first_tx cp = Ok tx \<Longrightarrow> fr < 2 ^ 64 \<or> fr = cp_fee_rate prev \<Longrightarrow>
      Input_new E op (cp_sigset prev) [0] rv threshold = Ok input \<Longrightarrow> map_r carry_input xi = Ok ins \<Longrightarrow>
      P (set_first_tx (cp\<lparr>cp_fee_rate := fr\<rparr>)
           (tx\<lparr>bt_input := bt_input tx @ [input] @ ins, bt_output := bt_output tx @ xo\<rparr>))"
    and signed: "P cp \<Longrightarrow> cp_status cp \<noteq> Building \<Longrightarrow> Checkpoint_sign E cp xpub sigs h = Ok cp' \<Longrightarrow> h < 2 ^ 32 \<Longrightarrow>
      P (if cp_status cp = Signing \<and> Checkpoint_signed cp' then (Checkpoint_advance cp')\<lparr>cp_status := Complete\<rparr> else cp')"
begin

lemma get_inv:
  assumes "bridge_inv P st" and "CheckpointQueue_get E st j = Inr cp"
  shows "P cp"
  using assms by (auto simp: bridge_inv_def queue_inv_def list_all_length get_unpruned split: if_splits)

lemma building_inv:
  assumes "bridge_inv P st" and "CheckpointQueue_building E st = Inr cp" and "CheckpointQueue_index st = Inr i"
  shows "P cp" and "cp_status cp = Building" and "CheckpointQueue_get E st i = Inr cp"
proof -
  show get: "CheckpointQueue_get E st i = Inr cp"
    using assms(2,3) by (simp add: CheckpointQueue_building_def)
  show "P cp" using assms(1) get by (rule get_inv)
  obtain k where k: "unpruned st k" and ss: "status_ok (map cp_status (queue st))"
    using assms(1) by (auto simp: bridge_inv_def queue_inv_def)
  have "queue st \<noteq> []" "cp = last (queue st)"
    using assms(2) unfolding building_unpruned [OF k] by (auto split: if_splits)
  then show "cp_status cp = Building"
    using status_okD(1) [OF ss, of "length (queue st) - 1"] by (simp add: last_conv_nth)
qed

lemma write_inv:
  assumes inv: "bridge_inv P st" and P: "P cp'" and set: "CheckpointQueue_set E st j cp' = Inr st'" and q: "queue_inv st'"
  shows "bridge_inv P st'"
proof -
  obtain i where i: "unpruned st i" using inv by (auto simp: bridge_inv_def queue_inv_def)
  have "list_all P (queue st')"
    using inv P by (simp add: set_unpruned_Inr(2) [OF i set] bridge_inv_def list_all_update)
  moreover obtain d where "st' = st\<lparr>st_checkpoints := d\<rparr>" using set_frame [OF set] by blast
  ultimately show ?thesis using inv q by (simp add: bridge_inv_def)
qed

lemma set_inv:
  assumes inv: "bridge_inv P st" and get: "CheckpointQueue_get E st j = Inr cp"
    and status: "cp_status cp' = cp_status cp" and P: "P cp'" and set: "CheckpointQueue_set E st j cp' = Inr st'"
  shows "bridge_inv P st'"
  using inv set_same_status_inv(1) [OF _ get status set] by (intro write_inv [OF inv P set]) (simp add: bridge_inv_def)

lemma set_building_inv:
  assumes "bridge_inv P st" and "CheckpointQueue_building E st = Inr cp" and "CheckpointQueue_index st = Inr i"
    and "cp_status cp' = cp_status cp" and "P cp'" and "CheckpointQueue_set E st i cp' = Inr st'"
  shows "bridge_inv P st'"
  using assms(1) building_inv(3) [OF assms(1-3)] assms(4-6) by (rule set_inv)

lemma give_miner_fee_inv:
  assumes "bridge_inv P st" and "Bitcoin_give_miner_fee E st n = Inr st'"
  shows "bridge_inv P st'"
  using assms(2)
proof (rule give_miner_fee_set, goal_cases)
  case (1 config cp index)
  note inv = bridge_inv_pool [OF assms(1) 1(6)]
  have index: "CheckpointQueue_index (st\<lparr>st_fee_pool := q\<rparr>) = Inr index" for q
    using 1(4) by (simp add: CheckpointQueue_index_def)
  show ?case
    by (rule set_building_inv [OF inv 1(3) index _ _ 1(5)])
      (use fees [OF building_inv(1) [OF inv 1(3) index] 1(7)] in simp_all)
qed

lemma relay_deposit_inv:
  assumes inv: "bridge_inv P st" and typed: "list_all (\<lambda>out. txo_value out < 2 ^ 64) (btx_output btc_tx)" "vout < 2 ^ 32"
    and ok: "Bitcoin_relay_deposit E env st btc_tx h proof vout i dest = Inr st'"
  shows "bridge_inv P st'"
  using ok
proof (rule relay_deposit_Inr, goal_cases)
  case (1 config cp cp_config bytes timeout st0)
  have inv0: "bridge_inv P st0" using bridge_inv_kept [OF inv quiet.outpoint_insert_R] by (simp add: 1(11))
  have old: "P cp" using inv 1(4) by (rule get_inv)
  have amount: "txo_value (btx_output btc_tx ! vout) < 2 ^ 64" using typed(1) 1(3) by (simp add: list_all_length)
  show ?case
  proof (cases "timeout < env_seconds env")
    case True
    then show ?thesis using bridge_inv_kept [OF inv0] 1(12) quiet.create_recovery_R by blast
  next
    case False
    from 1(13) [OF False] show ?thesis
    proof (elim exE conjE, goal_cases)
      case (1 input size cfg fee st1 building tx index)
      note inv1 = give_miner_fee_inv [OF inv0 1(7)]
      have "coin_amount \<lparr>coin_denom = get_full_btc_denom (cf_token_factory_addr cfg),
          coin_amount = txo_value (btx_output btc_tx ! vout) * bc_units_per_sat config - fee\<rparr> < 2 ^ 128"
        using 1(6) by simp
      note P = deposited [OF building_inv(1,2) [OF inv1 1(8,10)] 1(9) old 1(1) _ amount this, of dest]
      show ?case
        by (rule set_building_inv [OF inv1 1(8,10) _ P 1(11)])
          (use typed(2) in \<open>simp_all add: BuildingCheckpoint_insert_pending_def\<close>)
    qed
  qed
qed

lemma add_withdrawal_inv:
  assumes inv: "bridge_inv P st" and ok: "Bitcoin_add_withdrawal E st script n = Inr st'"
  shows "bridge_inv P st'"
  using ok
proof (rule add_withdrawal_Inr, goal_cases)
  case (1 config fee st1 building tx index)
  note inv1 = give_miner_fee_inv [OF inv 1(3)]
  have "as_u64 (n - fee) div bc_units_per_sat config < 2 ^ 64"
    by (rule le_less_trans [OF div_le_dividend]) (simp add: as_u64_def)
  then have "P (set_first_tx building (tx\<lparr>bt_output := bt_output tx @
      [\<lparr>txo_value = as_u64 (n - fee) div bc_units_per_sat config, txo_script_pubkey = script\<rparr>]\<rparr>))"
    by (intro withdrawn [OF building_inv(1,2) [OF inv1 1(6,8)] 1(7)]) simp
  then show ?case by (intro set_building_inv [OF inv1 1(6,8) _ _ 1(9)]) simp_all
qed

lemma withdraw_funds_inv:
  "withdraw_funds E env tf denom script funds st = Inr (msgs, st') \<Longrightarrow> bridge_inv P st \<Longrightarrow> bridge_inv P st'"
proof (induction funds arbitrary: st msgs)
  case (Cons fund funds)
  then show ?case by (auto simp: ok_simps split: if_splits dest: add_withdrawal_inv)
qed simp

lemma queue_sign_bridge:
  assumes inv: "bridge_inv P st" and h: "h < 2 ^ 32" and sign: "CheckpointQueue_sign E st xpub sigs j h = Inr st'"
  shows "bridge_inv P st'"
proof -
  have q: "queue_inv st" using inv by (simp add: bridge_inv_def)
  obtain cp cp1 where get: "CheckpointQueue_get E st j = Inr cp" and nb: "cp_status cp \<noteq> Building"
      and cp1: "Checkpoint_sign E cp xpub sigs h = Inr cp1"
      and set: "CheckpointQueue_set E st j (if cp_status cp = Signing \<and> Checkpoint_signed cp1
                          then (Checkpoint_advance cp1)\<lparr>cp_status := Complete\<rparr> else cp1) = Inr st'"
    using sign by (auto simp: CheckpointQueue_sign_def Let_def ok_simps)
  have "P (if cp_status cp = Signing \<and> Checkpoint_signed cp1
      then (Checkpoint_advance cp1)\<lparr>cp_status := Complete\<rparr> else cp1)"
    using signed [OF get_inv [OF inv get] nb cp1 h] .
  then show ?thesis using write_inv [OF inv _ set] queue_sign_inv(1) [OF q sign] by blast
qed

lemma take_pending_inv:
  "take_pending E st is = Inr (ds, st') \<Longrightarrow> bridge_inv P st \<Longrightarrow> bridge_inv P st' \<and> length (queue st') = length (queue st)"
proof (induction "is" arbitrary: st ds)
  case (Cons j "is")
  from Cons.prems(1) obtain cp st1 ds1 where get: "CheckpointQueue_get E st j = Inr cp"
      and set: "CheckpointQueue_set E st j (cp\<lparr>cp_pending := []\<rparr>) = Inr st1"
      and rest: "take_pending E st1 is = Inr (ds1, st')"
    by (auto simp: bnd_Inr_iff)
  have "bridge_inv P st1"
    by (rule set_inv [OF Cons.prems(2) get _ _ set]) (simp_all add: taken [OF get_inv [OF Cons.prems(2) get]])
  moreover have "length (queue st1) = length (queue st)"
    using set_same_status_inv(2) [OF _ get _ set] Cons.prems(2) by (simp add: bridge_inv_def)
  ultimately show ?case using Cons.IH [OF rest] by simp
qed simp

lemma take_pending_completed_inv:
  assumes inv: "bridge_inv P st" and ok: "Bitcoin_take_pending_completed E st = Inr (ds, st')"
  shows "bridge_inv P st' \<and> length (queue st') = length (queue st)"
proof -
  obtain ds1 st1 where 1: "Bitcoin_take_pending_confirmed E st = Inr (ds1, st1)"
    using ok by (auto simp: Bitcoin_take_pending_completed_def ok_simps)
  have "bridge_inv P st1 \<and> length (queue st1) = length (queue st)"
    using 1 inv by (auto simp: Bitcoin_take_pending_confirmed_def bridge_inv_first_unhandled ok_simps
        dest!: take_pending_inv split: sum.splits failure.splits option.splits)
  moreover have "st' = st1 \<or> (\<exists>is ds2. take_pending E st1 is = Inr (ds2, st'))"
    using ok 1
    by (cases "CheckpointQueue_last_completed_index E st1")
      (auto simp: Bitcoin_take_pending_completed_def Let_def ok_simps simp del: upt_Suc split: if_splits)
  ultimately show ?thesis using take_pending_inv by auto
qed

lemma push_inv:
  assumes inv: "bridge_inv P st" and i: "unpruned st i" and short: "length (queue st) + 2 < 2 ^ 32" and env: "env_typed env"
    and push: "CheckpointQueue_maybe_push E env st de = Inr (Some b, st')"
  shows "P b" and "list_all P (queue st')"
proof -
  note M = maybe_push_Inr [OF i short push]
  have index: "(if queue st = [] then i else i + 1) < 2 ^ 32"
    using i short by (auto simp: unpruned_def)
  show "P b" using M(8) fresh [OF _ M(6) env index] by auto
  then show "list_all P (queue st')" using inv by (simp add: M(2) bridge_inv_def)
qed

lemma advance_inv:
  assumes i: "unpruned st i" and "0 < i" and q: "list_all P (queue st)" and len: "length (queue st) = i + 1"
    and building: "cp_status (queue st ! (i - 1)) = Building" "cp_status (queue st ! i) = Building"
    and cfg: "\<forall>c. st_checkpoint_config st = Some c \<longrightarrow> checkpoint_config_typed c"
    and step: "step_advance E st i h tc pc = Inr st'"
  shows "list_all P (queue st')" and "\<forall>p. st_fee_pool st' = Some p \<longrightarrow> in_i64 p"
    and "st_checkpoint_config st' = st_checkpoint_config st"
proof -
  from i assms(2) step
  have "list_all P (queue st') \<and> (\<exists>p. st_fee_pool st' = Some p \<and> in_i64 p) \<and>
    st_checkpoint_config st' = st_checkpoint_config st"
  proof (rule step_advance_Inr, goal_cases)
    case (1 config cp_fees prev' op rv paid xi xo fr tx input ins)
    have P: "P (queue st ! (i - 1))" "P (queue st ! i)" using q len by (simp_all add: list_all_length)
    have "cc_max_fee_rate config < 2 ^ 64"
      using cfg 1(1) by (auto simp: CheckpointQueue_config_def ok_simps checkpoint_config_typed_def)
    then have "fr < 2 ^ 64 \<or> fr = cp_fee_rate (queue st ! (i - 1))" using 1(10) by auto
    from carried [OF P(1) building(1) 1(3) P(2) building(2) 1(4) this 1(5,6)] frozen [OF P(1) building(1) 1(3)]
    have "list_all P (queue st')" unfolding 1(8) using q by (intro list_all_update)
    then show ?case using 1(11) arg_cong [OF 1(9), of st_checkpoint_config] by auto
  qed
  then show "list_all P (queue st')" "\<forall>p. st_fee_pool st' = Some p \<longrightarrow> in_i64 p"
      "st_checkpoint_config st' = st_checkpoint_config st" by auto
qed

lemma maybe_step_bridge:
  assumes inv: "bridge_inv P st" and short: "length (queue st) + 2 < 2 ^ 32" and env: "env_typed env"
    and step: "CheckpointQueue_maybe_step E env st h de tc pc = Inr (pushed, st')"
    and head: "dq_head (st_checkpoints st') = 0"
  shows "bridge_inv P st'"
proof -
  have q: "queue_inv st" using inv by (simp add: bridge_inv_def)
  then obtain i where i: "unpruned st i" and ss: "status_ok (map cp_status (queue st))" by (auto simp: queue_inv_def)
  have q': "queue_inv st'" by (rule maybe_step_inv [OF q short step head])
  from i short step head show ?thesis
  proof (cases rule: maybe_step_Inr)
    case none
    then show ?thesis using inv by simp
  next
    case (first b)
    note M = maybe_push_Inr [OF i short first(2)]
    show ?thesis
      using inv q' push_inv(2) [OF inv i short env first(2)] arg_cong [OF M(7), of st_fee_pool]
        arg_cong [OF M(7), of st_checkpoint_config] by (simp add: bridge_inv_def)
  next
    case (advance b st1)
    note M = maybe_push_Inr [OF i short advance(2)]
    have len: "length (queue st) = i + 1" using length_unpruned [OF i advance(3)] .
    have i1: "unpruned st1 (i + 1)" using M(1) advance(3) by simp
    have q1: "queue st1 = queue st @ [b]" by (rule M(2))
    have "cp_status (queue st ! i) = Building" using status_okD(1) [OF ss, of i] len by simp
    then have b: "cp_status (queue st1 ! (i + 1 - 1)) = Building" "cp_status (queue st1 ! (i + 1)) = Building"
      using M(3) len by (simp_all add: q1 nth_append)
    have cfg: "st_checkpoint_config st1 = st_checkpoint_config st"
      using arg_cong [OF M(7), of st_checkpoint_config] by simp
    note A = advance_inv [OF i1 _ push_inv(2) [OF inv i short env advance(2)] _ b _ advance(4)]
    show ?thesis using A q' len q1 cfg inv by (simp add: bridge_inv_def)
  qed
qed

lemma clock_end_block_inv:
  assumes inv: "bridge_inv P st" and serv: "in_service st" and env: "env_typed env"
    and ok: "clock_end_block E env st hash = Inr (msgs, st')" and serv': "in_service st'"
  shows "bridge_inv P st'"
proof -
  from ok obtain ds st1 ks st2 st3 where 1: "Bitcoin_take_pending_completed E st = Inr (ds, st1)"
      and 2: "Bitcoin_begin_block_step E env st1 hash = Inr (ks, st2)"
      and 3: "fold_r (punish_step E) ks st2 = Inr st3"
      and st': "st' = st3\<lparr>st_block_hashes := insert hash (st_block_hashes st3)\<rparr>"
    by (rule clock_end_block_Inr)
  have kept: "queue_kept st2 st'" unfolding st' by (rule quiet.end_block_R [OF 3])
  then have head: "dq_head (st_checkpoints st2) = 0" using serv' by (simp add: in_service_def queue_kept_def)
  obtain h de pc pushed where step: "CheckpointQueue_maybe_step E env st1 h de hash pc = Inr (pushed, st2)"
    using 2 by (auto simp: Bitcoin_begin_block_step_def Let_def ok_simps split: if_splits)
  have inv1: "bridge_inv P st1" "length (queue st1) + 2 < 2 ^ 32"
    using take_pending_completed_inv [OF inv 1] serv by (simp_all add: in_service_def)
  show ?thesis using bridge_inv_kept [OF maybe_step_bridge [OF inv1 env step head] kept] .
qed

end

lemma add_validators_kept: "queue_kept st (add_validators_loop vs st)"
  by (induction vs st rule: add_validators_loop.induct) (auto simp: queue_kept_def)

lemma owner_msg_inv:
  assumes "owner_msg msg" and "execute E env st info msg = Inr (msgs, st')" and "bridge_inv P st" and "msg_typed msg"
  shows "bridge_inv P st'"
proof (cases "\<exists>c. msg = UpdateCheckpointConfig c")
  case True
  then obtain c where c: "msg = UpdateCheckpointConfig c" by blast
  then have "st' = st\<lparr>st_checkpoint_config := Some c\<rparr>"
    using assms(2) by (auto simp: execute_def update_checkpoint_config_def ok_simps)
  then show ?thesis using assms(3,4) c by (auto simp: bridge_inv_def queue_inv_def queue_def unpruned_def queue_ok_def)
next
  case False
  then have "queue_kept st st'"
    using assms(1,2) add_validators_kept
    by (cases msg)
      (auto simp: execute_def update_config_def update_bitcoin_config_def update_header_config_def HeaderQueue_configure_def
        add_validators_def register_denom_def change_btc_denom_owner_def Let_def ok_simps queue_kept_def)
  then show ?thesis by (rule bridge_inv_kept [OF assms(3)])
qed

context checkpoint_invariant
begin

lemma execute_inv:
  assumes inv: "bridge_inv P st" and serv: "in_service st" and env: "env_typed env" and typed: "msg_typed msg"
    and ok: "execute E env st info msg = Inr (msgs, st')" and serv': "in_service st'"
  shows "bridge_inv P st'"
proof (cases "owner_msg msg")
  case True
  then show ?thesis using ok inv typed by (rule owner_msg_inv)
next
  case False
  note quiet_inv = bridge_inv_kept [OF inv quiet.headers_add_R] bridge_inv_kept [OF inv quiet.relay_checkpoint_R]
    bridge_inv_kept [OF inv quiet.recovery_sign_R] bridge_inv_kept [OF inv quiet.set_signatory_key_R]
  note own_inv = relay_deposit_inv [OF inv] queue_sign_bridge [OF inv] clock_end_block_inv [OF inv serv env _ serv']
  show ?thesis
  proof (cases msg)
    case (WithdrawToBitcoin a)
    then show ?thesis
      using ok withdraw_funds_inv [OF _ inv]
      by (cases "address_script E a") (auto simp: execute_def withdraw_to_bitcoin_def ok_simps)
  qed (use False ok typed quiet_inv own_inv in
      \<open>auto simp: execute_def relay_headers_def relay_deposit_def relay_checkpoint_def submit_checkpoint_signature_def
        submit_recovery_signature_def set_signatory_key_def ok_simps\<close>)
qed

text \<open>Every state of a live contract has the property.\<close>

lemma live_inv: "live E st \<Longrightarrow> bridge_inv P st \<and> in_service st"
proof (induction rule: live.induct)
  case (instantiated info imsg msgs st)
  then show ?case using bridge_inv_start by blast
next
  case (executed st env info msg msgs st')
  then show ?case using execute_inv by blast
next
  case (block_ended st env smsg msgs st')
  then show ?case using clock_end_block_inv by (auto simp: sudo_def split: sudo_msg.splits)
qed

end

end
