(* ===== verification/Safety.thy ===== *)
theory Safety
  imports Runs
begin

text \<open>
  Two invariants of the checkpoints of a live contract, as interpretations of \<open>checkpoint_invariant\<close>: what a
  checkpoint goes through from its first deposit to its last signature, and the widths of the numbers it holds.
\<close>

section \<open>What a checkpoint goes through\<close>

text \<open>The transaction that is signed: the one of the checkpoint, without witnesses.\<close>

definition unsigned_txin :: "input \<Rightarrow> txin" where
  "unsigned_txin i = \<lparr>txi_previous_output = in_prevout i, txi_script_sig = [], txi_sequence = 2 ^ 32 - 1, txi_witness = []\<rparr>"

definition unsigned_tx :: "bitcoin_tx \<Rightarrow> transaction" where
  "unsigned_tx tx = \<lparr>btx_version = 1, btx_lock_time = bt_lock_time tx, btx_input = map unsigned_txin (bt_input tx),
     btx_output = bt_output tx\<rparr>"

text \<open>An input as \<^verbatim>\<open>Input::new\<close> made it, and one that is being signed.\<close>

definition input_fresh :: "'x ext_scheme \<Rightarrow> input \<Rightarrow> bool" where
  "input_fresh E i \<longleftrightarrow> (\<exists>ss threshold. sigset_ok ss \<and>
     Input_new E (in_prevout i) ss (in_dest i) (in_amount i) threshold = Ok i)"

definition input_signing :: "'x ext_scheme \<Rightarrow> input \<Rightarrow> bool" where
  "input_signing E i \<longleftrightarrow> (\<exists>ss threshold. sigset_ok ss \<and> in_sigset_index i = ss_index ss \<and>
     SignatorySet_redeem_script E ss (in_dest i) threshold = Ok (in_redeem_script i) \<and>
     SignatorySet_output_script E ss (in_dest i) threshold = Ok (in_script_pubkey i) \<and>
     ts_reachable E ss (in_signatures i))"

text \<open>
  A frozen transaction: the message of every input is its sighash in the transaction without
  witnesses, and the outputs are covered by the inputs.
\<close>

definition tx_frozen :: "'x ext_scheme \<Rightarrow> bitcoin_tx \<Rightarrow> bool" where
  "tx_frozen E tx \<longleftrightarrow>
     (\<forall>j < length (bt_input tx). segwit_signature_hash E (unsigned_tx tx) j (in_redeem_script (bt_input tx ! j))
        (in_amount (bt_input tx ! j)) = Ok (ts_message (in_signatures (bt_input tx ! j)))) \<and>
     sum_list (map txo_value (bt_output tx)) \<le> sum_list (map in_amount (bt_input tx))"

definition one_tx :: "checkpoint \<Rightarrow> u16 \<Rightarrow> bitcoin_tx \<Rightarrow> bool" where
  "one_tx cp n tx \<longleftrightarrow> cp_batches cp = [\<lparr>ba_signed_txs = n, ba_batch = [tx]\<rparr>]"

definition cp_sound :: "'x ext_scheme \<Rightarrow> checkpoint \<Rightarrow> bool" where
  "cp_sound E cp \<longleftrightarrow> sigset_ok (cp_sigset cp) \<and>
     (\<exists>n tx. one_tx cp n tx \<and> bt_signed_inputs tx = num_signed (bt_input tx) \<and>
        (if cp_status cp = Building then n = 0 \<and> list_all (input_fresh E) (bt_input tx)
         else list_all (input_signing E) (bt_input tx) \<and> tx_frozen E tx \<and>
           n = (if bt_input tx \<noteq> [] \<and> BitcoinTx_signed tx then 1 else 0) \<and> (cp_status cp = Complete \<longrightarrow> n = 1)))"

lemma Input_new_fresh:
  "Input_new E prevout ss dest amount threshold = Inr i \<Longrightarrow> sigset_ok ss \<Longrightarrow> input_fresh E i"
  unfolding input_fresh_def by (intro exI [of _ ss] exI [of _ threshold]) (auto simp: Input_new_def ok_simps)

lemma input_freshD:
  assumes "input_fresh E i"
  obtains ss threshold where "sigset_ok ss" "in_sigset_index i = ss_index ss"
    "SignatorySet_redeem_script E ss (in_dest i) threshold = Ok (in_redeem_script i)"
    "SignatorySet_output_script E ss (in_dest i) threshold = Ok (in_script_pubkey i)"
    "ThresholdSig_from_sigset ss = Ok (in_signatures i)"
  using assms unfolding input_fresh_def Input_new_def by (auto simp: ok_simps) (metis input.select_convs)

lemma fresh_unsigned: "input_fresh E i \<Longrightarrow> \<not> ThresholdSig_signed (in_signatures i)"
  by (erule input_freshD) (auto simp: ThresholdSig_signed_def dest: from_sigset_eq)

lemma fresh_num_signed: "list_all (input_fresh E) ins \<Longrightarrow> num_signed ins = 0"
  by (induction ins) (auto simp: fresh_unsigned)

lemma carry_fresh: "input_fresh E i \<Longrightarrow> carry_input i = Inr j \<Longrightarrow> j = i"
  by (erule input_freshD) (auto simp: carry_input_def ok_simps dest: from_shares_fresh)

lemma carry_all_fresh: "list_all (input_fresh E) is \<Longrightarrow> map_r carry_input is = Inr js \<Longrightarrow> js = is"
  by (induction "is" arbitrary: js) (auto simp: bnd_Inr_iff dest: carry_fresh)

text \<open>Setting the sighash starts the signing of a fresh input.\<close>

lemma fresh_same_input:
  assumes "input_fresh E i" and "same_input i j"
  shows "input_signing E j" and "\<not> ThresholdSig_signed (in_signatures j)" and "unsigned_txin j = unsigned_txin i"
proof -
  obtain m where j: "j = i\<lparr>in_signatures := ThresholdSig_set_message (in_signatures i) m\<rparr>"
    using assms(2) by (auto simp: same_input_def)
  show "input_signing E j"
    using assms(1) by (rule input_freshD) (auto simp: input_signing_def j intro: ts_reachable.start)
  show "\<not> ThresholdSig_signed (in_signatures j)"
    using fresh_unsigned [OF assms(1)] by (simp add: j ThresholdSig_set_message_def ThresholdSig_signed_def)
  show "unsigned_txin j = unsigned_txin i" by (simp add: j unsigned_txin_def)
qed

lemma fresh_same_inputs:
  assumes "list_all2 same_input is js" and "list_all (input_fresh E) is"
  shows "list_all (input_signing E) js \<and> num_signed js = 0"
  using assms by (induction rule: list_all2_induct) (auto dest: fresh_same_input(1,2))

lemma unsigned_to_txin: "\<not> ThresholdSig_signed (in_signatures i) \<Longrightarrow> Input_to_txin E i = Ok (unsigned_txin i)"
  by (simp add: Input_to_txin_def ThresholdSig_to_witness_def unsigned_txin_def)

lemma unsigned_to_bitcoin_tx:
  assumes "num_signed (bt_input tx) = 0"
  shows "BitcoinTx_to_bitcoin_tx E tx = Ok (unsigned_tx tx)"
proof -
  have "\<not> ThresholdSig_signed (in_signatures i)" if "i \<in> set (bt_input tx)" for i
    using that assms by (auto simp: num_signed_def filter_empty_conv)
  then have "map_r (Input_to_txin E) (bt_input tx) = Ok (map unsigned_txin (bt_input tx))"
    by (intro map_r_Ok unsigned_to_txin)
  then show ?thesis by (simp add: BitcoinTx_to_bitcoin_tx_def unsigned_tx_def)
qed


text \<open>What a signature changes in an input.\<close>

lemma sign_inputs_messages:
  assumes "sign_inputs E ne xpub sigs ins si n = Inr (ins', si', n')" and "list_all (input_signing E) ins"
  shows "list_all (input_signing E) ins' \<and>
    list_all2 (\<lambda>i j. \<exists>ts. j = i\<lparr>in_signatures := ts\<rparr> \<and> ts_message ts = ts_message (in_signatures i)) ins ins'"
  using assms
proof (induction ins arbitrary: si n ins')
  case (Cons i ins)
  from Cons.prems(1) show ?case
  proof (cases rule: sign_inputs_Cons_Inr)
    case (skip k rest')
    then show ?thesis
      using Cons.IH [OF skip(3)] Cons.prems(2) by (auto intro: exI [of _ "in_signatures i"])
  next
    case (sign k ts m rest')
    have "input_signing E (i\<lparr>in_signatures := ts\<rparr>)"
      using Cons.prems(2) sign(3) by (auto simp: input_signing_def intro: ts_reachable.sign)
    then show ?thesis
      using Cons.IH [OF sign(5)] Cons.prems(2) sign(6) sign_state(1) [OF sign(3)] by auto
  qed
qed simp

lemma tx_frozen_sign:
  assumes "tx_frozen E tx"
    and "list_all2 (\<lambda>i j. \<exists>ts. j = i\<lparr>in_signatures := ts\<rparr> \<and> ts_message ts = ts_message (in_signatures i)) (bt_input tx) ins"
  shows "tx_frozen E (tx\<lparr>bt_input := ins, bt_signed_inputs := k\<rparr>)"
proof -
  have "map unsigned_txin ins = map unsigned_txin (bt_input tx)" and am: "map in_amount ins = map in_amount (bt_input tx)"
      and "map in_redeem_script ins = map in_redeem_script (bt_input tx)"
      and "map (ts_message \<circ> in_signatures) ins = map (ts_message \<circ> in_signatures) (bt_input tx)"
    using assms(2) by (induction rule: list_all2_induct) (auto simp: unsigned_txin_def)
  moreover from this have "unsigned_tx (tx\<lparr>bt_input := ins, bt_signed_inputs := k\<rparr>) = unsigned_tx tx"
    by (simp add: unsigned_tx_def)
  ultimately show ?thesis
    using assms(1) arg_cong [OF am, of sum_list] by (auto simp: tx_frozen_def map_eq_conv_all_nth)
qed

lemma one_tx_first: "one_tx cp n tx \<Longrightarrow> first_tx cp = Ok tx"
  by (simp add: one_tx_def first_tx_def index_r_def BatchType_Checkpoint_def)

lemma one_tx_set: "one_tx cp n tx \<Longrightarrow> one_tx (set_first_tx cp tx') n tx'"
  by (simp add: one_tx_def set_first_tx_def BatchType_Checkpoint_def Let_def)

lemma one_tx_frame [simp]:
  "one_tx (cp\<lparr>cp_fees_collected := a\<rparr>) = one_tx cp" "one_tx (cp\<lparr>cp_pending := b\<rparr>) = one_tx cp"
  "one_tx (cp\<lparr>cp_fee_rate := c\<rparr>) = one_tx cp" "one_tx (cp\<lparr>cp_status := s\<rparr>) = one_tx cp"
  by (auto simp: one_tx_def fun_eq_iff)

lemma cp_sound_building:
  assumes "cp_sound E cp" and "cp_status cp = Building" and "first_tx cp = Inr tx"
  shows "one_tx cp 0 tx" and "list_all (input_fresh E) (bt_input tx)" and "bt_signed_inputs tx = 0"
    and "sigset_ok (cp_sigset cp)"
  using assms by (auto simp: cp_sound_def one_tx_first fresh_num_signed)

lemma cp_sound_set:
  assumes "cp_sound E cp" and "cp_status cp = Building" and "first_tx cp = Inr tx"
    and "list_all (input_fresh E) (bt_input tx')" and "bt_signed_inputs tx' = bt_signed_inputs tx"
  shows "cp_sound E (set_first_tx cp tx')"
  using assms(2,4,5) cp_sound_building [OF assms(1-3)] one_tx_set [of cp 0 tx tx']
  by (auto simp: cp_sound_def fresh_num_signed)

lemma cp_sound_frame:
  "cp_sound E (cp\<lparr>cp_fees_collected := a\<rparr>) = cp_sound E cp" "cp_sound E (cp\<lparr>cp_pending := b\<rparr>) = cp_sound E cp"
  "cp_sound E (cp\<lparr>cp_fee_rate := c\<rparr>) = cp_sound E cp"
  by (simp_all add: cp_sound_def)

lemma cp_sound_new:
  assumes "Checkpoint_new sigset = Inr cp" and "next_sigset E st env i = Inr sigset"
  shows "cp_sound E (cp\<lparr>cp_deposits_enabled := de\<rparr>)"
proof -
  have "sigset_ok sigset" using assms(2) unfolding next_sigset_def by (rule from_validator_ctx_sigset_ok)
  then show ?thesis
    using assms(1) unfolding cp_sound_def
    by (intro conjI exI [of _ 0] exI [of _ BitcoinTx_default])
      (auto simp: one_tx_def Checkpoint_new_def BitcoinTx_default_def)
qed

lemma cp_sound_advance:
  assumes sound: "cp_sound E cp" "cp_status cp = Building"
    and adv: "BuildingCheckpoint_advance E cp tc f config = Inr (cp', op, rv, paid, xi, xo)"
  shows "cp_sound E cp'" and "list_all (input_fresh E) xi"
proof -
  from adv have "cp_sound E cp' \<and> list_all (input_fresh E) xi"
  proof (rule advance_Inr, goal_cases)
    case (1 tx outs ins btx)
    note B = cp_sound_building [OF sound 1(1)]
    define os where "os = take (cc_max_outputs config) (outs @ bt_output tx)"
    define tx' where "tx' = tx\<lparr>bt_input := ins, bt_output := os[0 := (os ! 0)\<lparr>txo_value := rv\<rparr>]\<rparr>"
    have cp': "cp' = set_first_tx (cp\<lparr>cp_status := Signing\<rparr>) tx'" and btx: "BitcoinTx_to_bitcoin_tx E tx' = Inr btx"
      using 1(10) by (simp_all add: Let_def os_def tx'_def)
    have "list_all (input_fresh E) (take (cc_max_inputs config) (bt_input tx))"
        and xi: "list_all (input_fresh E) xi"
      using B(2) by (auto simp: 1(3) list_all_iff dest: in_set_takeD in_set_dropD)
    with fresh_same_inputs [OF 1(7), of E] have ins: "list_all (input_signing E) ins" "num_signed ins = 0" by simp_all
    have "btx = unsigned_tx tx'" using unsigned_to_bitcoin_tx [of tx' E] btx ins(2) by (simp add: tx'_def)
    moreover have "sum_list (map txo_value (bt_output tx')) \<le> sum_list (map in_amount ins)"
      using 1(6) [folded os_def] same_inputs_amounts [OF 1(7)] by (cases os) (simp_all add: tx'_def)
    ultimately have "tx_frozen E tx'" using 1(8) by (simp add: tx_frozen_def tx'_def)
    moreover have "one_tx cp' 0 tx'" unfolding cp' by (rule one_tx_set [where tx = tx]) (simp add: B(1))
    moreover have "bt_signed_inputs tx' = 0" "bt_input tx' = ins" using B(3) by (simp_all add: tx'_def)
    ultimately show ?case
      using ins xi B(4) unfolding cp_sound_def
      by (intro conjI exI [of _ 0] exI [of _ tx']) (auto simp: cp' BitcoinTx_signed_def)
  qed
  then show "cp_sound E cp'" and "list_all (input_fresh E) xi" by blast+
qed


lemma sign_one_tx:
  assumes "one_tx cp n tx" and "Checkpoint_sign E cp xpub sigs h = Inr cp'"
  obtains ne ins si k where "sign_inputs E ne xpub sigs (bt_input tx) 0 (bt_signed_inputs tx) = Inr (ins, si, k)"
    "one_tx cp' (if \<not> BitcoinTx_signed tx \<and> BitcoinTx_signed (tx\<lparr>bt_input := ins, bt_signed_inputs := k\<rparr>) then n + 1 else n)
       (tx\<lparr>bt_input := ins, bt_signed_inputs := k\<rparr>)"
proof -
  obtain ne bs' where bs: "sign_batches E ne xpub sigs (cp_batches cp) 0 = Inr (bs', length sigs)"
      and cp': "cp_batches cp' = bs'"
    using assms(2) by (rule Checkpoint_sign_Inr)
  obtain txs si m where txs: "sign_txs E ne xpub sigs [tx] 0 n = Inr (txs, si, m)"
      and bs': "bs' = [\<lparr>ba_signed_txs = m, ba_batch = txs\<rparr>]"
    using bs assms(1) by (auto simp: one_tx_def Let_def ok_simps split: if_splits)
  from txs show thesis
    by (rule sign_txs_Cons_Inr) (auto intro!: that simp: one_tx_def cp' bs')
qed

lemma signing_inv: "input_signing E i \<Longrightarrow> ts_inv E (in_signatures i)"
  by (auto simp: input_signing_def dest: ts_reachable_inv)

lemma cp_sound_sign:
  assumes sound: "cp_sound E cp" "cp_status cp \<noteq> Building" and sign: "Checkpoint_sign E cp xpub sigs h = Inr cp'"
  shows "cp_sound E (if cp_status cp = Signing \<and> Checkpoint_signed cp' then (Checkpoint_advance cp')\<lparr>cp_status := Complete\<rparr> else cp')"
proof -
  obtain n tx where one: "one_tx cp n tx" and tx: "bt_signed_inputs tx = num_signed (bt_input tx)"
      "list_all (input_signing E) (bt_input tx)" "tx_frozen E tx" and n: "n = (if bt_input tx \<noteq> [] \<and> BitcoinTx_signed tx then 1 else 0)"
      "cp_status cp = Complete \<longrightarrow> n = 1"
    using sound by (auto simp: cp_sound_def)
  from one sign obtain ne ins si k where
      ins: "sign_inputs E ne xpub sigs (bt_input tx) 0 (bt_signed_inputs tx) = Inr (ins, si, k)"
      and one': "one_tx cp' (if \<not> BitcoinTx_signed tx \<and> BitcoinTx_signed (tx\<lparr>bt_input := ins, bt_signed_inputs := k\<rparr>) then n + 1 else n)
       (tx\<lparr>bt_input := ins, bt_signed_inputs := k\<rparr>)"
    by (rule sign_one_tx)
  define tx' m where "tx' = tx\<lparr>bt_input := ins, bt_signed_inputs := k\<rparr>"
    and "m = (if \<not> BitcoinTx_signed tx \<and> BitcoinTx_signed tx' then n + 1 else n)"
  have one2: "one_tx cp' m tx'" using one' by (simp add: tx'_def m_def)
  note F = sign_inputs_messages [OF ins tx(2)]
  have "tx_inv E tx" using tx(1,2) by (auto simp: tx_inv_def list_all_iff signing_inv)
  note T = tx_inv_sign [OF ins this, folded tx'_def]
  have counter: "bt_signed_inputs tx' = num_signed (bt_input tx')" using T(1) by (simp add: tx_inv_def)
  have len: "length ins = length (bt_input tx)" using F list_all2_lengthD by fastforce
  have ne: "bt_input tx \<noteq> []" if "\<not> BitcoinTx_signed tx" using that tx(1) by (auto simp: BitcoinTx_signed_def)
  have m: "m = (if bt_input tx' \<noteq> [] \<and> BitcoinTx_signed tx' then 1 else 0)"
    using n(1) T(2) len ne by (auto simp: m_def tx'_def)
  have ok: "list_all (input_signing E) (bt_input tx')" "tx_frozen E tx'"
    using F tx_frozen_sign [OF tx(3)] by (simp_all add: tx'_def)
  have signed: "Checkpoint_signed cp' \<longleftrightarrow> m = 1"
    using one2 by (simp add: all_batches_signed one_tx_def Batch_signed_def)
  have status: "cp_status cp' = cp_status cp" and set: "cp_sigset cp' = cp_sigset cp"
    using sign by (rule Checkpoint_sign_Inr, simp)+
  have mono: "cp_status cp = Complete \<longrightarrow> m = 1" using n by (auto simp: m_def)
  have "sigset_ok (cp_sigset cp)" using sound(1) by (simp add: cp_sound_def)
  then have sigset: "sigset_ok (cp_sigset cp')" by (simp add: set)
  have "cp_sound E (cp'\<lparr>cp_status := s\<rparr>)" if "s \<noteq> Building" "s = Complete \<longrightarrow> m = 1" for s
    using that one2 counter ok m sigset unfolding cp_sound_def
    by (intro conjI exI [of _ m] exI [of _ tx']) simp_all
  note S = this
  show ?thesis
  proof (cases "cp_status cp = Signing \<and> Checkpoint_signed cp'")
    case True
    then show ?thesis using S [of Complete] signed by (simp add: Checkpoint_advance_def)
  next
    case False
    have "cp'\<lparr>cp_status := cp_status cp\<rparr> = cp'" using status by (cases cp') simp
    then show ?thesis using False S [of "cp_status cp"] sound(2) mono by auto
  qed
qed

sublocale contract_deques \<subseteq> sound: checkpoint_invariant E "cp_sound E"
proof (unfold_locales, goal_cases)
  case (4 cp tx old prevout dest amount threshold input coin d)
  have "input_fresh E input" by (rule Input_new_fresh [OF 4(5)]) (use 4(4) in \<open>simp add: cp_sound_def\<close>)
  then have "cp_sound E (set_first_tx cp (tx\<lparr>bt_input := bt_input tx @ [input]\<rparr>))"
    using cp_sound_building(2) [OF 4(1-3)] by (intro cp_sound_set [OF 4(1-3)]) simp_all
  then show ?case by (simp add: BuildingCheckpoint_insert_pending_def cp_sound_frame)
next
  case (5 cp tx out)
  then show ?case using cp_sound_building(2) [OF 5(1-3)] by (intro cp_sound_set [OF 5(1-3)]) simp_all
next
  case (7 prev tc f config prev' op rv paid xi xo cp tx fr threshold input ins)
  have "input_fresh E input" by (rule Input_new_fresh [OF 7(8)]) (use 7(1) in \<open>simp add: cp_sound_def\<close>)
  moreover have "list_all (input_fresh E) xi" by (rule cp_sound_advance(2) [OF 7(1-3)])
  moreover from this have "ins = xi" using 7(9) by (rule carry_all_fresh)
  ultimately show ?case
    using cp_sound_building(2) [OF 7(4-6)] 7(4-6)
    by (intro cp_sound_set [where tx = tx]) (simp_all add: cp_sound_frame first_tx_def)
qed (simp_all add: cp_sound_new cp_sound_frame cp_sound_advance(1) cp_sound_sign)


section \<open>The widths of the stored numbers\<close>

definition sigset_typed :: "signatory_set \<Rightarrow> bool" where
  "sigset_typed ss \<longleftrightarrow> ss_create_time ss < 2 ^ 64 \<and> ss_present_vp ss < 2 ^ 64 \<and> ss_possible_vp ss < 2 ^ 64 \<and>
     ss_index ss < 2 ^ 32 \<and> list_all (\<lambda>s. sg_voting_power s < 2 ^ 64) (ss_signatories ss)"

definition ts_typed :: "threshold_sig \<Rightarrow> bool" where
  "ts_typed ts \<longleftrightarrow> ts_threshold ts < 2 ^ 64 \<and> ts_signed ts < 2 ^ 64 \<and> ts_len ts < 2 ^ 16 \<and>
     list_all (\<lambda>(k, sh). sh_power sh < 2 ^ 64) (ts_sigs ts)"

definition input_typed :: "input \<Rightarrow> bool" where
  "input_typed i \<longleftrightarrow> op_vout (in_prevout i) < 2 ^ 32 \<and> in_sigset_index i < 2 ^ 32 \<and> in_amount i < 2 ^ 64 \<and>
     in_est_witness_vsize i < 2 ^ 64 \<and> ts_typed (in_signatures i)"

definition tx_typed :: "bitcoin_tx \<Rightarrow> bool" where
  "tx_typed tx \<longleftrightarrow> bt_lock_time tx < 2 ^ 32 \<and> bt_signed_inputs tx < 2 ^ 16 \<and> list_all input_typed (bt_input tx) \<and>
     list_all (\<lambda>out. txo_value out < 2 ^ 64) (bt_output tx)"

definition batch_typed :: "batch \<Rightarrow> bool" where
  "batch_typed b \<longleftrightarrow> ba_signed_txs b < 2 ^ 16 \<and> list_all tx_typed (ba_batch b)"

definition cp_typed :: "checkpoint \<Rightarrow> bool" where
  "cp_typed cp \<longleftrightarrow> list_all (\<lambda>(d, coin). coin_amount coin < 2 ^ 128) (cp_pending cp) \<and>
     list_all batch_typed (cp_batches cp) \<and> cp_fee_rate cp < 2 ^ 64 \<and>
     (\<forall>h. cp_signed_at_btc_height cp = Some h \<longrightarrow> h < 2 ^ 32) \<and> cp_fees_collected cp < 2 ^ 64 \<and>
     sigset_typed (cp_sigset cp)"

lemma possible_vp_bound:
  assumes "SignatorySet_from_validator_ctx E vs sig_keys time index = Inr s"
  shows "ss_possible_vp s < 2 ^ 64"
proof -
  obtain s0 where f: "fold_r (from_validator_step E sig_keys index) vs
           \<lparr>ss_create_time = time, ss_present_vp = 0, ss_possible_vp = 0, ss_index = index, ss_signatories = []\<rparr> = Inr s0"
      and s: "SignatorySet_sort_and_truncate s0 = Inr s"
    using assms by (auto simp: SignatorySet_from_validator_ctx_def ok_simps)
  have "ss_possible_vp s0 < 2 ^ 64"
    by (rule fold_r_invariant [OF f])
      (auto simp: from_validator_step_def SignatorySet_insert_def Let_def ok_simps split: option.splits)
  then show ?thesis using s by (auto simp: SignatorySet_sort_and_truncate_def Let_def ok_simps split: if_splits)
qed

lemma next_sigset_typed:
  assumes "next_sigset E st env i = Inr ss" and "env_typed env" and "i < 2 ^ 32"
  shows "sigset_typed ss"
proof -
  have ctx: "SignatorySet_from_validator_ctx E (get_validators st) (map_of (st_sig_keys st)) (env_seconds env) i = Inr ss"
    using assms(1) by (simp add: next_sigset_def)
  note bound = possible_vp_bound [OF ctx]
  have ok: "ss_present_vp ss = sum_list (map sg_voting_power (ss_signatories ss))" "ss_present_vp ss \<le> ss_possible_vp ss"
    using from_validator_ctx_sigset_ok [OF ctx] by (simp_all add: sigset_ok_def)
  have "sg_voting_power g \<le> ss_present_vp ss" if "g \<in> set (ss_signatories ss)" for g
    using that unfolding ok(1) by (intro member_le_sum_list_nat) simp
  then have "list_all (\<lambda>g. sg_voting_power g < 2 ^ 64) (ss_signatories ss)"
    using ok(2) bound unfolding list_all_iff by (meson le_less_trans)
  moreover have "ss_create_time ss = env_seconds env" "ss_index ss = i"
    using from_validator_ctx_Inr [OF ctx] by auto
  ultimately show ?thesis
    using assms(2,3) ok(2) bound by (simp add: sigset_typed_def env_typed_def)
qed

lemma threshold_typed: "sigset_threshold_of n = Inr t \<Longrightarrow> t < 2 ^ 64"
  by (auto simp: sigset_threshold_of_Inr_iff)

lemma from_sigset_typed:
  assumes "ThresholdSig_from_sigset ss = Inr ts" and "sigset_typed ss"
  shows "ts_typed ts"
proof -
  obtain ts0 vp t where f: "fold_r from_sigset_step (ss_signatories ss) (ThresholdSig_new, 0) = Inr (ts0, vp)"
      and t: "sigset_threshold_of vp = Inr t" and ts: "ts = ts0\<lparr>ts_threshold := t\<rparr>"
    using assms(1) by (auto simp: ThresholdSig_from_sigset_def ok_simps)
  have "case (ts0, vp) of (ts, _) \<Rightarrow> ts_typed ts"
    by (rule fold_r_invariant [OF f]) (use assms(2) in \<open>auto simp: from_sigset_step_Inr_iff unsigned_entry_def ts_typed_def ThresholdSig_new_def sigset_typed_def list_all_iff\<close>)
  then show ?thesis using threshold_typed [OF t] by (simp add: ts ts_typed_def)
qed

lemma from_shares_typed:
  assumes "ThresholdSig_from_shares es = Inr ts" and "list_all (\<lambda>(k, sh). sh_power sh < 2 ^ 64) es"
  shows "ts_typed ts"
proof -
  obtain ts0 vp n t where f: "fold_r from_shares_step es (ThresholdSig_new, 0, 0) = Inr (ts0, vp, n)"
      and t: "sigset_threshold_of vp = Inr t" and ts: "ts = ts0\<lparr>ts_threshold := t, ts_len := n\<rparr>"
    using assms(1) by (auto simp: ThresholdSig_from_shares_def ok_simps)
  have "case (ts0, vp, n) of (ts, vp, n) \<Rightarrow> n < 2 ^ 16"
    by (rule fold_r_invariant [OF f]) (auto simp: from_shares_step_Inr_iff)
  then show ?thesis
    using from_shares_fold [OF f] assms(2) threshold_typed [OF t] by (simp add: ts ts_typed_def ThresholdSig_new_def)
qed

lemma Input_new_typed:
  assumes "Input_new E prevout ss dest amount threshold = Inr i" and "sigset_typed ss"
    and "op_vout prevout < 2 ^ 32" and "amount < 2 ^ 64"
  shows "input_typed i"
  using assms
  by (auto simp: Input_new_def SignatorySet_est_witness_vsize_def ok_simps input_typed_def
      dest: from_sigset_typed) (simp add: sigset_typed_def)

lemma carry_typed: "carry_input i = Inr j \<Longrightarrow> input_typed i \<Longrightarrow> input_typed j"
  by (auto simp: carry_input_def ok_simps input_typed_def ts_typed_def dest: from_shares_typed)

lemma carry_all_typed: "map_r carry_input is = Inr js \<Longrightarrow> list_all input_typed is \<Longrightarrow> list_all input_typed js"
  by (induction "is" arbitrary: js) (auto simp: bnd_Inr_iff dest: carry_typed)

lemma same_input_typed: "list_all2 same_input is js \<Longrightarrow> list_all input_typed is \<Longrightarrow> list_all input_typed js"
  by (induction rule: list_all2_induct)
    (auto simp: same_input_def input_typed_def ts_typed_def ThresholdSig_set_message_def)

lemma sign_ts_typed:
  assumes "ThresholdSig_sign E ts k sig = Inr ts'" and "ts_typed ts"
  shows "ts_typed ts'"
proof -
  obtain i where i: "key_position k (ts_sigs ts) = Some i"
      and sum: "ts_signed ts + sh_power (snd (ts_sigs ts ! i)) < 2 ^ 64"
      and ts': "ts' = ts\<lparr>ts_sigs := (ts_sigs ts)[i := (k, (snd (ts_sigs ts ! i))\<lparr>sh_sig := Some sig\<rparr>)],
                ts_signed := ts_signed ts + sh_power (snd (ts_sigs ts ! i))\<rparr>"
    using assms(1) by (auto simp: ThresholdSig_sign_Inr_iff)
  have "list_all (\<lambda>(k, sh). sh_power sh < 2 ^ 64) (ts_sigs ts')"
    unfolding ts' using assms(2) sum by (auto simp: ts_typed_def intro!: list_all_update)
  then show ?thesis using assms(2) sum by (simp add: ts_typed_def ts')
qed

lemma sign_inputs_typed:
  "sign_inputs E ne xpub sigs ins si n = Inr (ins', si', n') \<Longrightarrow> list_all input_typed ins \<Longrightarrow> n < 2 ^ 16 \<Longrightarrow>
     list_all input_typed ins' \<and> n' < 2 ^ 16"
proof (induction ins arbitrary: si n ins')
  case (Cons i ins)
  from Cons.prems(1) show ?case
  proof (cases rule: sign_inputs_Cons_Inr)
    case (skip k rest')
    then show ?thesis using Cons.IH [OF skip(3)] Cons.prems(2,3) by simp
  next
    case (sign k ts m rest')
    have "m < 2 ^ 16" using sign(7) Cons.prems(3) by auto
    then show ?thesis
      using Cons.IH [OF sign(5)] Cons.prems(2) sign_ts_typed [OF sign(3)] sign(6) by (simp add: input_typed_def)
  qed
qed simp

lemma sign_txs_typed:
  "sign_txs E ne xpub sigs txs si n = Inr (txs', si', n') \<Longrightarrow> list_all tx_typed txs \<Longrightarrow> n < 2 ^ 16 \<Longrightarrow>
     list_all tx_typed txs' \<and> n' < 2 ^ 16"
proof (induction txs arbitrary: si n txs')
  case (Cons tx txs)
  from Cons.prems(1) show ?case
  proof (cases rule: sign_txs_Cons_Inr)
    case (1 ins s k m rest')
    have "m < 2 ^ 16" using 1(5) Cons.prems(3) by auto
    then show ?thesis
      using Cons.IH [OF 1(3)] Cons.prems(2) sign_inputs_typed [OF 1(1)] 1(4) by (simp add: tx_typed_def)
  qed
qed simp

lemma sign_batches_typed:
  "sign_batches E ne xpub sigs bs si = Inr (bs', si') \<Longrightarrow> list_all batch_typed bs \<Longrightarrow> list_all batch_typed bs'"
proof (induction bs arbitrary: si bs')
  case (Cons b bs)
  from Cons.prems(1) obtain txs s n where 1: "sign_txs E ne xpub sigs (ba_batch b) si (ba_signed_txs b) = Inr (txs, s, n)"
    by (auto simp: bnd_Inr_iff)
  have "batch_typed (b\<lparr>ba_batch := txs, ba_signed_txs := n\<rparr>)"
    using sign_txs_typed [OF 1] Cons.prems(2) by (simp add: batch_typed_def)
  then show ?case using Cons.prems 1 Cons.IH by (cases "Batch_signed b") (auto simp: Let_def bnd_Inr_iff)
qed simp

lemma first_tx_typed: "cp_typed cp \<Longrightarrow> first_tx cp = Inr tx \<Longrightarrow> tx_typed tx"
  by (auto simp: cp_typed_def first_tx_def ok_simps list_all_length batch_typed_def)

lemma set_first_tx_typed:
  assumes "cp_typed cp" and "first_tx cp = Inr tx" and "tx_typed tx'"
  shows "cp_typed (set_first_tx cp tx')"
proof -
  define b where "b = cp_batches cp ! BatchType_Checkpoint"
  have "batch_typed b"
    using assms(1,2) by (auto simp: cp_typed_def first_tx_def ok_simps list_all_length b_def)
  then have "batch_typed (b\<lparr>ba_batch := (ba_batch b)[0 := tx']\<rparr>)"
    using assms(3) by (simp add: batch_typed_def list_all_update)
  then show ?thesis
    using assms(1) by (simp add: cp_typed_def set_first_tx_def b_def Let_def list_all_update)
qed

lemma advance_value_bound:
  "BuildingCheckpoint_advance E cp tc f config = Inr (cp', op, rv, paid, xi, xo) \<Longrightarrow> rv < 2 ^ 64"
  by (auto simp: BuildingCheckpoint_advance_def Let_def pop_excess_eq ok_simps)

lemma cp_typed_advance:
  assumes typed: "cp_typed cp" and adv: "BuildingCheckpoint_advance E cp tc f config = Inr (cp', op, rv, paid, xi, xo)"
  shows "cp_typed cp'" and "list_all input_typed xi" and "list_all (\<lambda>out. txo_value out < 2 ^ 64) xo"
    and "rv < 2 ^ 64" and "op_vout op = 0"
proof -
  from adv have "cp_typed cp' \<and> list_all input_typed xi \<and> list_all (\<lambda>out. txo_value out < 2 ^ 64) xo \<and> rv < 2 ^ 64 \<and> op_vout op = 0"
  proof (rule advance_Inr, goal_cases)
    case (1 tx outs ins btx)
    note tx = first_tx_typed [OF typed 1(1)]
    define os where "os = take (cc_max_outputs config) (outs @ bt_output tx)"
    define tx' where "tx' = tx\<lparr>bt_input := ins, bt_output := os[0 := (os ! 0)\<lparr>txo_value := rv\<rparr>]\<rparr>"
    have cp': "cp' = set_first_tx (cp\<lparr>cp_status := Signing\<rparr>) tx'" and op: "op_vout op = 0"
      using 1(10) by (simp_all add: Let_def os_def tx'_def)
    have zero: "list_all (\<lambda>out. txo_value out < 2 ^ 64) outs"
      using 1(2) by (auto simp: Checkpoint_additional_outputs_def ok_simps)
    have rv: "rv < 2 ^ 64" by (rule advance_value_bound [OF adv])
    have outs: "list_all (\<lambda>out. txo_value out < 2 ^ 64) os" "list_all (\<lambda>out. txo_value out < 2 ^ 64) xo"
      using zero tx unfolding os_def 1(4) by (auto simp: tx_typed_def list_all_iff dest: in_set_takeD in_set_dropD)
    have ins: "list_all input_typed ins" "list_all input_typed xi"
      using tx same_input_typed [OF 1(7)] unfolding 1(3)
      by (auto simp: tx_typed_def list_all_iff dest: in_set_takeD in_set_dropD)
    have "tx_typed tx'" using tx ins(1) outs(1) rv by (simp add: tx_typed_def tx'_def list_all_update)
    moreover have "cp_typed (cp\<lparr>cp_status := Signing\<rparr>)" using typed by (simp add: cp_typed_def)
    moreover have "first_tx (cp\<lparr>cp_status := Signing\<rparr>) = Inr tx" using 1(1) by (simp add: first_tx_def)
    ultimately have "cp_typed cp'" unfolding cp' by (intro set_first_tx_typed)
    then show ?case using ins(2) outs(2) rv op by blast
  qed
  then show "cp_typed cp'" "list_all input_typed xi" "list_all (\<lambda>out. txo_value out < 2 ^ 64) xo" "rv < 2 ^ 64" "op_vout op = 0"
    by blast+
qed

lemma cp_typed_sign:
  assumes "cp_typed cp" and "Checkpoint_sign E cp xpub sigs h = Inr cp'" and "h < 2 ^ 32"
  shows "cp_typed (cp'\<lparr>cp_status := s\<rparr>)"
  using assms(2)
proof (rule Checkpoint_sign_Inr, goal_cases)
  case (1 ne bs')
  have "list_all batch_typed bs'" using sign_batches_typed [OF 1(1)] assms(1) by (simp add: cp_typed_def)
  moreover have "cp_fees_collected cp' = cp_fees_collected cp"
    using assms(2) by (auto simp: Checkpoint_sign_def ok_simps Let_def)
  ultimately show ?case using assms(1,3) 1(2-7) by (auto simp: cp_typed_def split: if_splits)
qed

sublocale contract_deques \<subseteq> typed: checkpoint_invariant E cp_typed
proof (unfold_locales, goal_cases)
  case (1 sigset cp st env i de)
  then show ?case
    using next_sigset_typed [OF 1(2-4)]
    by (auto simp: Checkpoint_new_def cp_typed_def batch_typed_def tx_typed_def BitcoinTx_default_def DEFAULT_FEE_RATE_def)
next
  case (4 cp tx old prevout dest amount threshold input coin d)
  have "input_typed input" using 4(4,6,7) by (intro Input_new_typed [OF 4(5)]) (simp_all add: cp_typed_def)
  then have "cp_typed (set_first_tx cp (tx\<lparr>bt_input := bt_input tx @ [input]\<rparr>))"
    using first_tx_typed [OF 4(1,3)] by (intro set_first_tx_typed [OF 4(1,3)]) (simp add: tx_typed_def)
  then show ?case using 4(8) by (simp add: BuildingCheckpoint_insert_pending_def cp_typed_def)
next
  case (5 cp tx out)
  then show ?case using first_tx_typed [OF 5(1,3)] by (intro set_first_tx_typed [OF 5(1,3)]) (simp add: tx_typed_def)
next
  case (7 prev tc f config prev' op rv paid xi xo cp tx fr threshold input ins)
  note A = cp_typed_advance [OF 7(1,3)]
  have "input_typed input" using 7(1) A(4,5) by (intro Input_new_typed [OF 7(8)]) (simp_all add: cp_typed_def)
  moreover have "list_all input_typed ins" by (rule carry_all_typed [OF 7(9) A(2)])
  moreover have "cp_typed (cp\<lparr>cp_fee_rate := fr\<rparr>)" using 7(1,4,7) by (auto simp: cp_typed_def)
  moreover have "first_tx (cp\<lparr>cp_fee_rate := fr\<rparr>) = Inr tx" using 7(6) by (simp add: first_tx_def)
  ultimately show ?case
    using first_tx_typed [OF 7(4,6)] A(3) by (intro set_first_tx_typed [where tx = tx]) (simp_all add: tx_typed_def)
next
  case (6 cp tc f config cp' op rv paid xi xo)
  then show ?case using cp_typed_advance(1) by blast
next
  case (8 cp xpub sigs h cp')
  have "cp'\<lparr>cp_status := cp_status cp'\<rparr> = cp'" by (cases cp') simp
  then show ?case
    using cp_typed_sign [OF 8(1,3,4), of Complete] cp_typed_sign [OF 8(1,3,4), of "cp_status cp'"]
    by (simp add: Checkpoint_advance_def)
qed (simp_all add: cp_typed_def)


section \<open>Properties of every live state\<close>

context contract_deques
begin

lemma sound_live: "live E st \<Longrightarrow> bridge_inv (cp_sound E) st"
  using sound.live_inv by blast

lemma typed_live: "live E st \<Longrightarrow> bridge_inv cp_typed st"
  using typed.live_inv by blast

end

text \<open>
  C5: A completed checkpoint is signed. In every state of a live contract, a checkpoint in status
  \<^verbatim>\<open>Complete\<close> holds one transaction with at least one input, whose outputs are covered by its inputs; every
  input carries signatures of signatories of the set its redeem script was made for, each verified for the sighash of this input in
  this very transaction, with more than two thirds of the voting power of the set.
\<close>

theorem complete_checkpoint_signed:
  assumes "contract_deques E" and "live E st" and "j < length (queue st)" and "cp_status (queue st ! j) = Complete"
  shows "\<exists>tx. one_tx (queue st ! j) 1 tx \<and> bt_input tx \<noteq> [] \<and>
    sum_list (map txo_value (bt_output tx)) \<le> sum_list (map in_amount (bt_input tx)) \<and>
    (\<forall>k < length (bt_input tx). \<exists>ss threshold m.
       segwit_signature_hash E (unsigned_tx tx) k (in_redeem_script (bt_input tx ! k)) (in_amount (bt_input tx ! k)) = Ok m \<and>
       SignatorySet_redeem_script E ss (in_dest (bt_input tx ! k)) threshold = Ok (in_redeem_script (bt_input tx ! k)) \<and>
       map (\<lambda>e. Signatory (sh_power (snd e)) (fst e)) (ts_sigs (in_signatures (bt_input tx ! k))) = ss_signatories ss \<and>
       list_all (entry_valid E m) (ts_sigs (in_signatures (bt_input tx ! k))) \<and>
       3 * signed_power (ts_sigs (in_signatures (bt_input tx ! k))) > 2 * sum_list (map sg_voting_power (ss_signatories ss)))"
proof -
  have "cp_sound E (queue st ! j)"
    using contract_deques.sound_live [OF assms(1,2)] assms(3) by (simp add: bridge_inv_def list_all_length)
  then obtain tx where tx: "one_tx (queue st ! j) 1 tx" "bt_signed_inputs tx = num_signed (bt_input tx)"
      "list_all (input_signing E) (bt_input tx)" "tx_frozen E tx" "bt_input tx \<noteq> []" "BitcoinTx_signed tx"
    using assms(4) unfolding cp_sound_def by (auto split: if_splits)
  have "\<exists>ss threshold m. segwit_signature_hash E (unsigned_tx tx) k (in_redeem_script i) (in_amount i) = Ok m \<and>
       SignatorySet_redeem_script E ss (in_dest i) threshold = Ok (in_redeem_script i) \<and>
       map (\<lambda>e. Signatory (sh_power (snd e)) (fst e)) (ts_sigs (in_signatures i)) = ss_signatories ss \<and>
       list_all (entry_valid E m) (ts_sigs (in_signatures i)) \<and>
       3 * signed_power (ts_sigs (in_signatures i)) > 2 * sum_list (map sg_voting_power (ss_signatories ss))"
    if k: "k < length (bt_input tx)" and i: "i = bt_input tx ! k" for k i
  proof -
    obtain ss threshold where ss: "SignatorySet_redeem_script E ss (in_dest i) threshold = Ok (in_redeem_script i)"
        "ts_reachable E ss (in_signatures i)"
      using tx(3) k by (auto simp: i list_all_length input_signing_def)
    have "ThresholdSig_signed (in_signatures i)"
      using tx(2,6) k all_signed_nth unfolding i BitcoinTx_signed_def by metis
    then have "2 * sum_list (map sg_voting_power (ss_signatories ss)) < 3 * signed_power (ts_sigs (in_signatures i))"
      by (rule reachable_signed_power [OF ss(2)])
    then show ?thesis
      using tx(4) k ss(1) ts_reachable_inv [OF ss(2)] reachable_signatories [OF ss(2)]
      by (intro exI [of _ ss] exI [of _ threshold] exI [of _ "ts_message (in_signatures i)"])
        (simp add: tx_frozen_def i ts_inv_def)
  qed
  then show ?thesis using tx(1,4,5) by (intro exI [of _ tx]) (simp add: tx_frozen_def)
qed

text \<open>
  C12: The checkpoint queue keeps its shape. In every state of a live contract, reading a checkpoint by its
  index succeeds exactly for the indexes up to the building index, the last checkpoint is being built, the one
  before it is being signed or complete, and all earlier ones are complete.
\<close>

theorem live_queue_shape:
  assumes "contract_deques E" and "live E st"
  shows "\<exists>i. CheckpointQueue_index st = Ok i \<and> (queue st \<noteq> [] \<longrightarrow> length (queue st) = i + 1) \<and>
    (\<forall>j. CheckpointQueue_get E st j =
       (if j < length (queue st) then Ok (queue st ! j) else Err (App ''Index out of bounds''))) \<and>
    (\<forall>j < length (queue st).
       (j + 1 = length (queue st) \<longrightarrow> cp_status (queue st ! j) = Building) \<and>
       (j + 2 = length (queue st) \<longrightarrow> cp_status (queue st ! j) \<noteq> Building) \<and>
       (j + 2 < length (queue st) \<longrightarrow> cp_status (queue st ! j) = Complete))"
proof -
  have "queue_inv st" using contract_deques.sound_live [OF assms] by (simp add: bridge_inv_def)
  then obtain i where i: "unpruned st i" and ss: "status_ok (map cp_status (queue st))" by (auto simp: queue_inv_def)
  show ?thesis
    using index_unpruned [OF i] length_unpruned [OF i] contract_deques.get_unpruned [OF assms(1) i] ss
    by (intro exI [of _ i]) (auto simp: status_ok_def)
qed

text \<open>
  C13: The stored numbers fit their types. In every state of a live contract, all numbers of the checkpoint queue, down
  to the counters and powers of every signing state, lie in the ranges of the types the code declares for them,
  the fee pool is an \<^verbatim>\<open>i64\<close> and the building index an \<^verbatim>\<open>u32\<close>: no addition of the model goes beyond what the code can store.
\<close>

theorem stored_integers_typed:
  assumes "contract_deques E" and "live E st"
  shows "list_all cp_typed (queue st) \<and> (\<forall>i. st_building_index st = Some i \<longrightarrow> i < 2 ^ 32) \<and>
    (\<forall>p. st_fee_pool st = Some p \<longrightarrow> - (2 ^ 63) \<le> p \<and> p < 2 ^ 63) \<and>
    (\<forall>c. st_checkpoint_config st = Some c \<longrightarrow> checkpoint_config_typed c)"
proof -
  have inv: "bridge_inv cp_typed st" using contract_deques.typed_live [OF assms] by simp
  then obtain i where "unpruned st i" by (auto simp: bridge_inv_def queue_inv_def)
  then have "st_building_index st = Some i" "i < 2 ^ 32" by (simp_all add: unpruned_def queue_ok_def)
  then show ?thesis using inv by (auto simp: bridge_inv_def in_i64_def)
qed

end
