(* ===== verification/Query.thy ===== *)
theory Query
  imports Entrypoints
begin

text \<open>
  The read-only side: \<^verbatim>\<open>change_rates\<close> of \<^verbatim>\<open>app.rs\<close>, \<^verbatim>\<open>entrypoints/query.rs\<close> and the entry
  point \<^verbatim>\<open>query\<close> of \<^verbatim>\<open>contract.rs\<close>. An answer is a value of \<open>query_response\<close>, one constructor
  per type of payload; its JSON form is not modelled.
\<close>

section \<open>The rates of change\<close>

text \<open>
  The share of a signatory is computed in \<^verbatim>\<open>f64\<close>. The operations of IEEE arithmetic the code
  uses are the arguments of the model, and so is the order in which a \<^verbatim>\<open>HashMap\<close> is traversed.
\<close>

record 'f f64_ops =
  f64_of_u64 :: "u64 \<Rightarrow> 'f"
  f64_add :: "'f \<Rightarrow> 'f \<Rightarrow> 'f"
  f64_sub :: "'f \<Rightarrow> 'f \<Rightarrow> 'f"
  f64_mul :: "'f \<Rightarrow> 'f \<Rightarrow> 'f"
  f64_div :: "'f \<Rightarrow> 'f \<Rightarrow> 'f"
  f64_gt :: "'f \<Rightarrow> 'f \<Rightarrow> bool"
  f64_as_u16 :: "'f \<Rightarrow> u16"
  hash_order :: "(bytes \<times> 'f) list \<Rightarrow> (bytes \<times> 'f) list"

definition ChangeRates_default :: change_rates where
  "ChangeRates_default = \<lparr>cr_withdrawal = 0, cr_sigset_change = 0\<rparr>"

text \<open>\<^verbatim>\<open>rposition\<close>: the checkpoints come from the newest to the oldest.\<close>

fun last_older :: "u64 \<Rightarrow> u64 \<Rightarrow> checkpoint list \<Rightarrow> nat option result" where
  "last_older now interval [] = Ok None"
| "last_older now interval (c # rest) =
     bnd (sub_w now (Checkpoint_create_time c)) (\<lambda>age.
     if age > interval then Ok (Some (length rest)) else last_older now interval rest)"

definition vp_shares ::
  "'x contract_ext_scheme \<Rightarrow> 'f f64_ops \<Rightarrow> store \<Rightarrow> signatory_set \<Rightarrow> (bytes \<times> 'f) list result"
where
  "vp_shares E F st sigset =
     (let total_vp = f64_of_u64 F (ss_present_vp sigset);
          sigset_fractions = map_of (rev (map
            (\<lambda>v. (sg_pubkey v, f64_div F (f64_of_u64 F (sg_voting_power v)) total_vp)) (ss_signatories sigset)))
      in fold_r (\<lambda>(_, xpub) shares.
           bnd (Xpub_derive_pubkey E xpub (ss_index sigset)) (\<lambda>pubkey.
           Ok (omap_save (xpub_encode E xpub)
                (case sigset_fractions pubkey of Some f \<Rightarrow> f | None \<Rightarrow> f64_of_u64 F 0) shares)))
         (st_sig_keys st) [])"

definition sigset_change :: "'f f64_ops \<Rightarrow> (bytes \<times> 'f) list \<Rightarrow> (bytes \<times> 'f) list \<Rightarrow> u16" where
  "sigset_change F now_sigset prev_sigset =
     f64_as_u16 F (f64_mul F
       (foldl (\<lambda>acc (k, v).
          let prev_share = (case map_of prev_sigset k of Some f \<Rightarrow> f | None \<Rightarrow> f64_of_u64 F 0)
          in if f64_gt F v prev_share then f64_add F acc (f64_sub F v prev_share) else acc)
        (f64_of_u64 F 0) (hash_order F now_sigset))
       (f64_of_u64 F 10000))"

definition Bitcoin_change_rates ::
  "'x contract_ext_scheme \<Rightarrow> 'f f64_ops \<Rightarrow> store \<Rightarrow> u64 \<Rightarrow> u64 \<Rightarrow> change_rates result"
where
  "Bitcoin_change_rates E F st interval now =
     bnd (CheckpointQueue_signing E st) (\<lambda>signing.
     bnd (ok_or (App ''No checkpoint to be signed'') signing) (\<lambda>signing.
     if now > interval \<and> now - interval > Checkpoint_create_time signing then Ok ChangeRates_default
     else
       (let now = max (Checkpoint_create_time signing) now
        in bnd (CheckpointQueue_config st) (\<lambda>config.
           bnd (div_r interval (cc_min_checkpoint_interval config)) (\<lambda>n.
           bnd (add_u32 (as_u32 n) 1) (\<lambda>limit.
           bnd (CheckpointQueue_completed E st limit) (\<lambda>completed.
           if completed = [] then Ok ChangeRates_default
           else
             bnd (last_older now interval (rev completed)) (\<lambda>position.
             let prev_index = (case position of Some i \<Rightarrow> i | None \<Rightarrow> 0)
             in bnd (unwrap (vec_get completed prev_index)) (\<lambda>prev_checkpoint.
                bnd (Checkpoint_reserve_output E prev_checkpoint) (\<lambda>prev_out.
                bnd (unwrap prev_out) (\<lambda>prev_out.
                bnd (Checkpoint_reserve_output E signing) (\<lambda>now_out.
                bnd (unwrap now_out) (\<lambda>now_out.
                let amount_prev = txo_value prev_out;
                    reserve_decrease = saturating_sub amount_prev (txo_value now_out)
                in bnd (vp_shares E F st (cp_sigset signing)) (\<lambda>now_sigset.
                   bnd (vp_shares E F st (cp_sigset prev_checkpoint)) (\<lambda>prev_sigset.
                   bnd (mul_u64 reserve_decrease 10000) (\<lambda>a.
                   bnd (div_r a amount_prev) (\<lambda>rate.
                   Ok \<lparr>cr_withdrawal = as_u16 rate,
                       cr_sigset_change = sigset_change F now_sigset prev_sigset\<rparr>))))))))))))))))) "

lemma completed_while_signing:
  assumes E: "contract_deques E" and ok: "queue_ok st i" and len: "2 \<le> length (queue st)"
    and signing: "CheckpointQueue_signing E st = Inr (Some signing)"
    and completed: "CheckpointQueue_completed E st limit = Inr cps"
  shows "cps = drop (length (queue st) - 2 - min limit (length (queue st) - 2)) (take (length (queue st) - 2) (queue st))"
proof -
  let ?q = "queue st" and ?n = "length (queue st)"
  define m where "m = min limit (?n - 2)"
  have i: "?n \<le> i + 1" "CheckpointQueue_index st = Inr i"
    using ok by (simp_all add: queue_ok_def CheckpointQueue_index_def)
  have ne: "?q \<noteq> []" using len by auto
  have js: "map_r (CheckpointQueue_get E st) [i - 1 - m..<i - 1] = Inr cps"
    using completed ne unfolding CheckpointQueue_completed_def contract_deques.len_queue [OF E] signing i(2) bnd_simps Let_def
    by (auto simp: ok_simps m_def)
  have m: "m \<le> ?n - 2" by (simp add: m_def)
  have "length cps = m" using map_r_length [OF js] m i(1) len by simp
  moreover have "cps ! k = ?q ! (?n - 2 - m + k)" if k: "k < m" for k
  proof -
    have "CheckpointQueue_get E st (i - 1 - m + k) = Inr (cps ! k)"
      using map_r_Inr_nth [OF js, of k] k m i(1) len by simp
    moreover have "i - 1 - m + k + ?n - (i + 1) = ?n - 2 - m + k" using m i(1) len k by linarith
    moreover have "i + 1 \<le> i - 1 - m + k + ?n" "i - 1 - m + k \<le> i" using m i(1) len k by linarith+
    ultimately show ?thesis using contract_deques.get_eq [OF E ok, of "i - 1 - m + k"] by simp
  qed
  ultimately show ?thesis
    using m len by (intro nth_equalityI) (simp_all add: m_def [symmetric])
qed

lemma last_older_spec:
  assumes "last_older now interval (rev cps) = Inr position"
  shows "case position of
      Some k \<Rightarrow> k < length cps \<and> interval < now - Checkpoint_create_time (cps ! k) \<and>
        (\<forall>l. k < l \<and> l < length cps \<longrightarrow> now - Checkpoint_create_time (cps ! l) \<le> interval)
    | None \<Rightarrow> \<forall>l < length cps. now - Checkpoint_create_time (cps ! l) \<le> interval"
  using assms
proof (induction cps rule: rev_induct)
  case (snoc c cps)
  show ?case
  proof (cases "interval < now - Checkpoint_create_time c")
    case True
    then show ?thesis using snoc.prems by (auto simp: ok_simps)
  next
    case False
    then have "last_older now interval (rev cps) = Inr position" using snoc.prems by (auto simp: ok_simps)
    from snoc.IH [OF this] show ?thesis
      using False by (auto simp: nth_append less_Suc_eq split: option.splits)
  qed
qed simp

lemma as_u16_rate:
  assumes "d \<le> (a :: nat)" and "a \<noteq> 0"
  shows "as_u16 (d * 10000 div a) = d * 10000 div a" and "d * 10000 div a \<le> 10000"
proof -
  have "d * 10000 div a \<le> a * 10000 div a" using assms(1) by (intro div_le_mono mult_le_mono1)
  then show "d * 10000 div a \<le> 10000" using assms(2) by simp
  then show "as_u16 (d * 10000 div a) = d * 10000 div a" by (simp add: as_u16_def)
qed

text \<open>The signing checkpoint of a queue is the second from the end.\<close>

lemma signing_second:
  assumes E: "contract_deques E" and ok: "queue_ok st i" and signing: "CheckpointQueue_signing E st = Inr (Some signing)"
  shows "2 \<le> length (queue st)" and "signing = queue st ! (length (queue st) - 2)" and "cp_status signing = Signing"
proof -
  show n: "2 \<le> length (queue st)" and "cp_status signing = Signing"
    using signing contract_deques.len_queue [OF E] by (auto simp: CheckpointQueue_signing_def ok_simps split: if_splits)
  have i: "length (queue st) \<le> i + 1" "CheckpointQueue_index st = Inr i"
    using ok by (simp_all add: queue_ok_def CheckpointQueue_index_def)
  have "CheckpointQueue_get E st (i - 1) = Inr signing"
    using signing i n contract_deques.len_queue [OF E] by (auto simp: CheckpointQueue_signing_def ok_simps split: if_splits)
  moreover have "i - 1 + length (queue st) - (i + 1) = length (queue st) - 2" using i n by simp
  ultimately show "signing = queue st ! (length (queue st) - 2)"
    using contract_deques.get_eq [OF E ok, of "i - 1"] i n by (simp split: if_splits)
qed

text \<open>
  C29: The withdrawal rate compares the right checkpoints and is in basis points. On a well-formed
  checkpoint queue, pruned or not, a call of \<^verbatim>\<open>change_rates\<close> that succeeds finds the checkpoint
  second from the end in signing. If that one is older than the interval, or no checkpoint comes
  before it, the rates are the default ones. Otherwise the withdrawal rate is the share of the
  reserve of one earlier checkpoint \<open>j\<close> that is missing in the reserve of the signing one, in
  ten-thousandths rounded down: \<open>j\<close> comes before the signing checkpoint, so it is complete in a
  queue whose statuses have the shape of C12; every checkpoint between the two is within the
  interval; and \<open>j\<close> is older than the interval, or the oldest one that is looked at. The
  rate is at most 10000, so the conversion to \<^verbatim>\<open>u16\<close> never truncates it.
\<close>

theorem change_rates_withdrawal:
  assumes E: "contract_deques E" and ok: "queue_ok st i" and rates: "Bitcoin_change_rates E F st interval now = Ok r"
  shows "let q = queue st; n = length q; signing = q ! (n - 2); now' = max (Checkpoint_create_time signing) now
    in 2 \<le> n \<and> cp_status signing = Signing \<and> cr_withdrawal r \<le> 10000 \<and>
       (if interval < now \<and> Checkpoint_create_time signing < now - interval \<or> n = 2 then r = ChangeRates_default
        else \<exists>config j prev_out now_out. st_checkpoint_config st = Some config \<and> j + 2 < n \<and>
          (status_ok (map cp_status q) \<longrightarrow> cp_status (q ! j) = Complete) \<and>
          (\<forall>l. j < l \<and> l + 2 < n \<longrightarrow> now' - Checkpoint_create_time (q ! l) \<le> interval) \<and>
          (interval < now' - Checkpoint_create_time (q ! j) \<or>
           j = n - 2 - min (as_u32 (interval div cc_min_checkpoint_interval config) + 1) (n - 2)) \<and>
          Checkpoint_reserve_output E (q ! j) = Ok (Some prev_out) \<and> Checkpoint_reserve_output E signing = Ok (Some now_out) \<and>
          cr_withdrawal r = (txo_value prev_out - txo_value now_out) * 10000 div txo_value prev_out)"
proof -
  let ?q = "queue st" and ?n = "length (queue st)"
  obtain signing where s: "CheckpointQueue_signing E st = Inr (Some signing)"
    using rates by (auto simp: Bitcoin_change_rates_def ok_simps)
  note S = signing_second [OF E ok s]
  define now' where "now' = max (Checkpoint_create_time signing) now"
  show ?thesis
  proof (cases "interval < now \<and> Checkpoint_create_time signing < now - interval")
    case True
    then have "r = ChangeRates_default" using rates s by (simp add: Bitcoin_change_rates_def)
    then show ?thesis using True S by (simp add: Let_def ChangeRates_default_def)
  next
    case recent: False
    then obtain config cps where cfg: "st_checkpoint_config st = Some config"
        and cps: "CheckpointQueue_completed E st (as_u32 (interval div cc_min_checkpoint_interval config) + 1) = Inr cps"
        and rest: "if cps = [] then r = ChangeRates_default
          else \<exists>position prev_out now_out. last_older now' interval (rev cps) = Inr position \<and>
            (let k = (case position of Some i \<Rightarrow> i | None \<Rightarrow> 0)
             in k < length cps \<and> Checkpoint_reserve_output E (cps ! k) = Ok (Some prev_out) \<and>
               Checkpoint_reserve_output E signing = Ok (Some now_out) \<and> txo_value prev_out \<noteq> 0 \<and>
               cr_withdrawal r = as_u16 ((txo_value prev_out - txo_value now_out) * 10000 div txo_value prev_out))"
      using rates s unfolding Bitcoin_change_rates_def now'_def CheckpointQueue_config_def
      by (fastforce simp: Let_def ok_simps split: if_splits)
    define m where "m = min (as_u32 (interval div cc_min_checkpoint_interval config) + 1) (?n - 2)"
    have cps_eq: "cps = drop (?n - 2 - m) (take (?n - 2) ?q)"
      using completed_while_signing [OF E ok S(1) s cps] by (simp add: m_def)
    have m: "m \<le> ?n - 2" "m = 0 \<longleftrightarrow> ?n = 2" using S(1) by (auto simp: m_def)
    have len: "length cps = m" using m S(1) by (simp add: cps_eq)
    have at: "cps ! k = ?q ! (?n - 2 - m + k)" if "k < m" for k using that m S(1) by (simp add: cps_eq)
    show ?thesis
    proof (cases "?n = 2")
      case True
      then have "r = ChangeRates_default" using rest len m by auto
      then show ?thesis using True S by (simp add: Let_def ChangeRates_default_def)
    next
      case False
      then have "cps \<noteq> []" using len m(2) by auto
      then obtain position prev_out now_out k where pos: "last_older now' interval (rev cps) = Inr position"
          and k: "k = (case position of Some i \<Rightarrow> i | None \<Rightarrow> 0)" "k < m"
          and outs: "Checkpoint_reserve_output E (cps ! k) = Ok (Some prev_out)" "Checkpoint_reserve_output E signing = Ok (Some now_out)"
          and rate: "txo_value prev_out \<noteq> 0" "cr_withdrawal r = as_u16 ((txo_value prev_out - txo_value now_out) * 10000 div txo_value prev_out)"
        using rest len by (auto simp: Let_def)
      define j where "j = ?n - 2 - m + k"
      have j: "j + 2 < ?n" "cps ! k = ?q ! j" using at [OF k(2)] k(2) m S(1) by (simp_all add: j_def)
      have newer: "now' - Checkpoint_create_time (?q ! l) \<le> interval" if "j < l" "l + 2 < ?n" for l
      proof -
        define d where "d = l - (?n - 2 - m)"
        have "k < d" "d < m" "l = ?n - 2 - m + d" using that m(1) by (simp_all add: d_def j_def)
        then show ?thesis using last_older_spec [OF pos] k(1) at [of d] len by (auto split: option.splits)
      qed
      have older: "interval < now' - Checkpoint_create_time (?q ! j) \<or> j = ?n - 2 - m"
        using last_older_spec [OF pos] k(1) j(2) by (auto simp: j_def split: option.splits)
      have complete: "status_ok (map cp_status ?q) \<longrightarrow> cp_status (?q ! j) = Complete"
        using status_okD(3) [of "map cp_status ?q" j] j(1) by simp
      note R = as_u16_rate [OF diff_le_self rate(1), of "txo_value now_out"]
      have last: "\<not> (interval < now \<and> Checkpoint_create_time signing < now - interval \<or> ?n = 2)"
        using recent False by blast
      have "cr_withdrawal r \<le> 10000" using R rate(2) by simp
      then show ?thesis
        unfolding Let_def S(2) [symmetric] now'_def [symmetric] if_not_P [OF last]
        using S(1,3) cfg j(1) complete newer older [unfolded m_def] outs [unfolded j(2)] R(1) rate(2)
        by - (intro conjI, assumption, assumption, assumption, rule exI [of _ config], rule exI [of _ j],
          rule exI [of _ prev_out], rule exI [of _ now_out], simp)
    qed
  qed
qed

section \<open>The handlers\<close>

record config_response =
  qc_token_factory_addr :: addr
  qc_owner :: addr
  qc_relayer_fee_token :: asset_info
  qc_token_fee :: ratio
  qc_relayer_fee :: u128
  qc_token_fee_receiver :: addr
  qc_relayer_fee_receiver :: addr
  qc_swap_router_contract :: "addr option"
  qc_osor_entry_point_contract :: "addr option"

definition query_config :: "store \<Rightarrow> config_response result" where
  "query_config st =
     bnd (load (st_config st)) (\<lambda>config.
     bnd (load (st_token_fee_ratio st)) (\<lambda>token_fee.
     Ok \<lparr>qc_token_factory_addr = cf_token_factory_addr config, qc_owner = cf_owner config,
         qc_relayer_fee_token = cf_relayer_fee_token config, qc_token_fee = token_fee,
         qc_relayer_fee = cf_relayer_fee config, qc_token_fee_receiver = cf_token_fee_receiver config,
         qc_relayer_fee_receiver = cf_relayer_fee_receiver config,
         qc_swap_router_contract = cf_swap_router_contract config,
         qc_osor_entry_point_contract = cf_osor_entry_point_contract config\<rparr>))"

definition query_bitcoin_config :: "store \<Rightarrow> bitcoin_config result" where
  "query_bitcoin_config st = load (st_bitcoin_config st)"

definition query_checkpoint_config :: "store \<Rightarrow> checkpoint_config result" where
  "query_checkpoint_config st = load (st_checkpoint_config st)"

definition query_header_config :: "store \<Rightarrow> header_config result" where
  "query_header_config st = load (st_header_config st)"

definition query_signatory_key :: "store \<Rightarrow> addr \<Rightarrow> xpub option result" where
  "query_signatory_key st addr =
     bnd (load (st_signers st addr)) (\<lambda>consensus_key. Ok (map_of (st_sig_keys st) consensus_key))"

definition query_header_height :: "'x contract_ext_scheme \<Rightarrow> store \<Rightarrow> u32 result" where
  "query_header_height E st = Ok (header_height E st)"

definition query_deposit_fees :: "'x contract_ext_scheme \<Rightarrow> store \<Rightarrow> u32 option \<Rightarrow> u64 result" where
  "query_deposit_fees E st index =
     bnd (Bitcoin_get_checkpoint E st index) (\<lambda>checkpoint.
     bnd (SignatorySet_est_witness_vsize (cp_sigset checkpoint)) (\<lambda>vsize.
     bnd (add_u64 vsize 40) (\<lambda>input_vsize.
     Bitcoin_calc_minimum_deposit_fees st input_vsize (cp_fee_rate checkpoint))))"

definition query_withdrawal_fees ::
  "'x contract_ext_scheme \<Rightarrow> store \<Rightarrow> string \<Rightarrow> u32 option \<Rightarrow> u64 result"
where
  "query_withdrawal_fees E st address index =
     bnd (Bitcoin_get_checkpoint E st index) (\<lambda>checkpoint.
     case address_script E address of
       Inl err \<Rightarrow> Err (App err)
     | Inr script \<Rightarrow> Bitcoin_calc_minimum_withdrawal_fees st (length script) (cp_fee_rate checkpoint))"

definition query_checkpoint_fees :: "'x contract_ext_scheme \<Rightarrow> store \<Rightarrow> u32 option \<Rightarrow> u64 result" where
  "query_checkpoint_fees E st index =
     bnd (load (st_building_index st)) (\<lambda>building_index.
     unwrap_res (CheckpointQueue_calc_fee_checkpoint E st
       (case index of Some i \<Rightarrow> i | None \<Rightarrow> building_index) [0]))"

definition query_sidechain_block_hash :: "'x contract_ext_scheme \<Rightarrow> store \<Rightarrow> block_hash result" where
  "query_sidechain_block_hash E st = HeaderQueue_hash E st"

definition query_checkpoint_by_index :: "'x contract_ext_scheme \<Rightarrow> store \<Rightarrow> u32 \<Rightarrow> checkpoint result" where
  "query_checkpoint_by_index E st index = CheckpointQueue_get E st index"

definition query_building_index :: "store \<Rightarrow> u32 result" where
  "query_building_index st = CheckpointQueue_index st"

definition query_building_checkpoint :: "'x contract_ext_scheme \<Rightarrow> store \<Rightarrow> checkpoint result" where
  "query_building_checkpoint E st =
     bnd (query_building_index st) (\<lambda>building_index. CheckpointQueue_get E st building_index)"

definition query_est_witness_vsize :: "'x contract_ext_scheme \<Rightarrow> store \<Rightarrow> u64 result" where
  "query_est_witness_vsize E st = bnd (CheckpointQueue_active_sigset E st) SignatorySet_est_witness_vsize"

definition query_active_sigset :: "'x contract_ext_scheme \<Rightarrow> store \<Rightarrow> signatory_set result" where
  "query_active_sigset E st = CheckpointQueue_active_sigset E st"

definition query_checkpoint_tx :: "'x contract_ext_scheme \<Rightarrow> store \<Rightarrow> u32 option \<Rightarrow> transaction result" where
  "query_checkpoint_tx E st index =
     bnd (case index of
            Some index \<Rightarrow> CheckpointQueue_get E st index
          | None \<Rightarrow> bnd (CheckpointQueue_index st) (\<lambda>index. CheckpointQueue_get E st index)) (\<lambda>checkpoint.
     Checkpoint_checkpoint_tx E checkpoint)"

definition query_last_complete_tx :: "'x contract_ext_scheme \<Rightarrow> store \<Rightarrow> transaction result" where
  "query_last_complete_tx E st = CheckpointQueue_last_completed_tx E st"

definition query_complete_checkpoint_txs :: "'x contract_ext_scheme \<Rightarrow> store \<Rightarrow> u32 \<Rightarrow> transaction list result" where
  "query_complete_checkpoint_txs E st limit = CheckpointQueue_completed_txs E st limit"

definition query_signed_recovery_txs :: "'x contract_ext_scheme \<Rightarrow> store \<Rightarrow> signed_recovery_tx list result" where
  "query_signed_recovery_txs E st = RecoveryTxs_signed E st"

definition query_signing_recovery_txs ::
  "'x contract_ext_scheme \<Rightarrow> store \<Rightarrow> xpub \<Rightarrow> (message \<times> u32) list result"
where
  "query_signing_recovery_txs E st xpub = RecoveryTxs_to_sign E st xpub"

definition query_comfirmed_index :: "store \<Rightarrow> u32 option result" where
  "query_comfirmed_index st = Ok (CheckpointQueue_confirmed_index st)"

definition query_first_unconfirmed_index :: "'x contract_ext_scheme \<Rightarrow> store \<Rightarrow> u32 option result" where
  "query_first_unconfirmed_index E st = CheckpointQueue_first_unconfirmed_index E st"

definition query_completed_index :: "'x contract_ext_scheme \<Rightarrow> store \<Rightarrow> u32 result" where
  "query_completed_index E st = CheckpointQueue_last_completed_index E st"

definition query_process_outpoints :: "store \<Rightarrow> string \<Rightarrow> bool result" where
  "query_process_outpoints st key = Ok (key \<in> st_outpoints st)"

definition query_signatory_keys :: "store \<Rightarrow> consensus_key \<Rightarrow> xpub option result" where
  "query_signatory_keys st cons_key = Ok (map_of (st_sig_keys st) cons_key)"

definition query_checkpoint_len :: "'x contract_ext_scheme \<Rightarrow> store \<Rightarrow> u32 result" where
  "query_checkpoint_len E st = Ok (CheckpointQueue_len E st)"

definition query_signing_txs_at_checkpoint_index ::
  "'x contract_ext_scheme \<Rightarrow> store \<Rightarrow> xpub \<Rightarrow> u32 \<Rightarrow> (message \<times> u32) list result"
where
  "query_signing_txs_at_checkpoint_index E st xpub cp_index =
     bnd (CheckpointQueue_get E st cp_index) (\<lambda>checkpoint.
     bnd (throw_if (cp_status checkpoint \<noteq> Signing) (App ''checkpoint is not signing'')) (\<lambda>_.
     Checkpoint_to_sign E checkpoint xpub))"

definition query_change_rates ::
  "'x contract_ext_scheme \<Rightarrow> 'f f64_ops \<Rightarrow> store \<Rightarrow> env \<Rightarrow> u64 \<Rightarrow> change_rates result"
where
  "query_change_rates E F st env interval = Bitcoin_change_rates E F st interval (env_seconds env)"

definition query_value_locked :: "'x contract_ext_scheme \<Rightarrow> store \<Rightarrow> u64 result" where
  "query_value_locked E st =
     bnd (CheckpointQueue_last_completed E st) (\<lambda>last_completed.
     bnd (Checkpoint_reserve_output E last_completed) (\<lambda>out.
     bnd (unwrap out) (\<lambda>out. Ok (txo_value out))))"

section \<open>The entry point\<close>

datatype query_msg =
    QueryConfig
  | QueryBitcoinConfig
  | QueryCheckpointConfig
  | QueryHeaderConfig
  | QuerySignatoryKey addr
  | QueryHeaderHeight
  | QueryDepositFees "u32 option"
  | QueryCheckpointFees "u32 option"
  | QueryWithdrawalFees string "u32 option"
  | QueryCompletedCheckpointTxs u32
  | QuerySignedRecoveryTxs
  | QueryCheckpointTx "u32 option"
  | QuerySidechainBlockHash
  | QueryCheckpointByIndex u32
  | QueryBuildingCheckpoint
  | QuerySigningRecoveryTxs xpub
  | QuerySigningTxsAtCheckpointIndex xpub u32
  | QueryProcessedOutpoint string
  | QueryConfirmedIndex
  | QueryBuildingIndex
  | QueryCompletedIndex
  | QueryUnhandledConfirmedIndex
  | QueryChangeRates u64
  | QueryValueLocked

datatype query_response =
    ConfigAnswer config_response
  | BitcoinConfigAnswer bitcoin_config
  | CheckpointConfigAnswer checkpoint_config
  | HeaderConfigAnswer header_config
  | KeyAnswer "xpub option"
  | NumberAnswer nat
  | OptionalIndexAnswer "u32 option"
  | TxAnswer transaction
  | TxsAnswer "transaction list"
  | RecoveryTxsAnswer "signed_recovery_tx list"
  | HashAnswer block_hash
  | CheckpointAnswer checkpoint
  | ToSignAnswer "(message \<times> u32) list"
  | BoolAnswer bool
  | ChangeRatesAnswer change_rates

definition answer :: "('a \<Rightarrow> query_response) \<Rightarrow> 'a result \<Rightarrow> query_response result" where
  "answer f r = map_err (\<lambda>err. Std (''Generic error: '' @ error_to_string err)) (bnd r (\<lambda>a. Ok (f a)))"

definition query ::
  "'x contract_ext_scheme \<Rightarrow> 'f f64_ops \<Rightarrow> env \<Rightarrow> store \<Rightarrow> query_msg \<Rightarrow> query_response result"
where
  "query E F env st msg =
     (case msg of
        QueryConfig \<Rightarrow> answer ConfigAnswer (query_config st)
      | QueryBitcoinConfig \<Rightarrow> answer BitcoinConfigAnswer (query_bitcoin_config st)
      | QueryCheckpointConfig \<Rightarrow> answer CheckpointConfigAnswer (query_checkpoint_config st)
      | QueryHeaderConfig \<Rightarrow> answer HeaderConfigAnswer (query_header_config st)
      | QuerySignatoryKey addr \<Rightarrow> answer KeyAnswer (query_signatory_key st addr)
      | QueryHeaderHeight \<Rightarrow> answer NumberAnswer (query_header_height E st)
      | QueryDepositFees index \<Rightarrow> answer NumberAnswer (query_deposit_fees E st index)
      | QueryCheckpointFees index \<Rightarrow> answer NumberAnswer (query_checkpoint_fees E st index)
      | QueryWithdrawalFees address index \<Rightarrow> answer NumberAnswer (query_withdrawal_fees E st address index)
      | QueryCompletedCheckpointTxs limit \<Rightarrow> answer TxsAnswer (query_complete_checkpoint_txs E st limit)
      | QuerySignedRecoveryTxs \<Rightarrow> answer RecoveryTxsAnswer (query_signed_recovery_txs E st)
      | QueryCheckpointTx index \<Rightarrow> answer TxAnswer (query_checkpoint_tx E st index)
      | QuerySidechainBlockHash \<Rightarrow> answer HashAnswer (query_sidechain_block_hash E st)
      | QueryCheckpointByIndex index \<Rightarrow> answer CheckpointAnswer (query_checkpoint_by_index E st index)
      | QueryBuildingCheckpoint \<Rightarrow> answer CheckpointAnswer (query_building_checkpoint E st)
      | QuerySigningRecoveryTxs xpub \<Rightarrow> answer ToSignAnswer (query_signing_recovery_txs E st xpub)
      | QuerySigningTxsAtCheckpointIndex xpub index \<Rightarrow>
          answer ToSignAnswer (query_signing_txs_at_checkpoint_index E st xpub index)
      | QueryProcessedOutpoint key \<Rightarrow> answer BoolAnswer (query_process_outpoints st key)
      | QueryConfirmedIndex \<Rightarrow> answer OptionalIndexAnswer (query_comfirmed_index st)
      | QueryBuildingIndex \<Rightarrow> answer NumberAnswer (query_building_index st)
      | QueryCompletedIndex \<Rightarrow> answer NumberAnswer (query_completed_index E st)
      | QueryUnhandledConfirmedIndex \<Rightarrow> answer OptionalIndexAnswer (query_first_unconfirmed_index E st)
      | QueryChangeRates interval \<Rightarrow> answer ChangeRatesAnswer (query_change_rates E F st env interval)
      | QueryValueLocked \<Rightarrow> answer NumberAnswer (query_value_locked E st))"

end
