(* ===== verification/Witnesses.thy ===== *)
theory Witnesses
  imports Instance Safety Query Complex_Main
begin

text \<open>Closed instances of the properties.  Every property with a hypothesis is applied to a
concrete state (\<open>demo_set\<close>, \<open>demo_cp\<close>, \<open>demo_live\<close> and their relatives below) and to the concrete
library \<open>std_ext\<close> of theory Instance, each hypothesis discharged by evaluation.\<close>


section \<open>Storage\<close>

text \<open>A deque that holds the elements of a list, pushed one by one.\<close>

definition dq_of :: "'a list \<Rightarrow> 'a dq" where
  "dq_of xs = fold (\<lambda>x d. dq_push_back std_deque d x) xs dq_empty"

lemma dq_of_fold:
  assumes "dq_ok d" and "length (dq_items d) + length xs < u32_space"
  shows "dq_ok (fold (\<lambda>x d. dq_push_back std_deque d x) xs d) \<and>
    dq_items (fold (\<lambda>x d. dq_push_back std_deque d x) xs d) = dq_items d @ xs \<and>
    dq_head (fold (\<lambda>x d. dq_push_back std_deque d x) xs d) = dq_head d"
  using assms
proof (induction xs arbitrary: d)
  case (Cons x xs)
  have "length (dq_items d) < u32_space - 1" using Cons.prems(2) by simp
  note P = std_dq.push_back [OF Cons.prems(1) this, of x]
  show ?case using Cons.IH [of "dq_push_back std_deque d x"] P Cons.prems(2) by simp
qed simp

lemma dq_of [simp]:
  assumes "length xs < 1000"
  shows "dq_ok (dq_of xs)" and "dq_items (dq_of xs) = xs" and "dq_head (dq_of xs) = 0"
  using dq_of_fold [of dq_empty xs] assms by (simp_all add: dq_of_def u32_space_def)

section \<open>Signatory sets and signing states\<close>

definition demo_key :: "nat \<Rightarrow> pubkey" where
  "demo_key n = 2 # replicate 32 n"

definition demo_xpub :: "nat \<Rightarrow> xpub" where
  "demo_xpub n = \<lparr>xp_network = Mainnet, xp_depth = 1, xp_parent_fingerprint = [], xp_child_number = 0,
     xp_public_key = [2, n], xp_chain_code = []\<rparr>"

lemma derive_demo [simp]: "Xpub_derive_pubkey std_ext (demo_xpub n) i = Ok (demo_key n)"
  by (simp add: Xpub_derive_pubkey_def Xpub_add_exp_tweak_def Xpub_parse_pubkey_def std_ext_def demo_xpub_def
      demo_key_def index_r_def TAG_PUBKEY_EVEN_def)

definition demo_keys :: "consensus_key \<Rightarrow> xpub option" where
  "demo_keys = [[1] \<mapsto> demo_xpub 1, [2] \<mapsto> demo_xpub 2, [3] \<mapsto> demo_xpub 3]"

definition demo_validators :: "validator list" where
  "demo_validators = [\<lparr>val_pubkey = [1], val_power = 20\<rparr>, \<lparr>val_pubkey = [2], val_power = 30\<rparr>,
     \<lparr>val_pubkey = [3], val_power = 25\<rparr>, \<lparr>val_pubkey = [4], val_power = 5\<rparr>]"

definition demo_set :: signatory_set where
  "demo_set = \<lparr>ss_create_time = 1000, ss_present_vp = 75, ss_possible_vp = 80, ss_index = 0,
     ss_signatories = [Signatory 30 (demo_key 2), Signatory 25 (demo_key 3), Signatory 20 (demo_key 1)]\<rparr>"

lemma demo_from_validators:
  "SignatorySet_from_validator_ctx std_ext demo_validators demo_keys 1000 0 = Ok demo_set"
  by (simp add: SignatorySet_from_validator_ctx_def from_validator_step_def SignatorySet_insert_def
      SignatorySet_sort_and_truncate_def demo_validators_def demo_keys_def demo_set_def add_w_def Let_def
      MAX_SIGNATORIES_def less_eq_signatory_def)

theorem signatory_set_of_validators_witness:
  "\<exists>ss. registered std_ext demo_keys 0 demo_validators = Ok ss \<and> ss_signatories demo_set = take 20 (rev (sort ss)) \<and>
     ss_present_vp demo_set = 75 \<and> ss_possible_vp demo_set = 80"
  using signatory_set_of_validators [OF demo_from_validators] by (simp add: demo_set_def) blast

lemma demo_set_ok [simp]: "sigset_ok demo_set"
  by (rule from_validator_ctx_sigset_ok [OF demo_from_validators])

text \<open>The signing state of the set for the message \<open>[5]\<close>, with the signatures of the given keys.\<close>

definition demo_ts :: "nat set \<Rightarrow> threshold_sig" where
  "demo_ts S = (let sh = (\<lambda>n p. (demo_key n, \<lparr>sh_power = p, sh_sig = (if n \<in> S then Some ([5] @ demo_key n) else None)\<rparr>))
     in \<lparr>ts_threshold = 50, ts_signed = (if 2 \<in> S then 30 else 0) + (if 3 \<in> S then 25 else 0) + (if 1 \<in> S then 20 else 0),
         ts_message = [5], ts_len = 3, ts_sigs = [sh 2 30, sh 3 25, sh 1 20]\<rparr>)"

lemma demo_key_eq [simp]: "demo_key m = demo_key n \<longleftrightarrow> m = n"
  by (simp add: demo_key_def)

lemma demo_from_sigset: "ThresholdSig_from_sigset demo_set = Ok (demo_ts {}\<lparr>ts_message := replicate 32 0\<rparr>)"
  by (simp add: ThresholdSig_from_sigset_def from_sigset_step_def demo_set_def demo_ts_def ThresholdSig_new_def Let_def
      add_w_def sigset_threshold_of_small)

lemma demo_reachable: "ts_reachable std_ext demo_set (demo_ts {})"
  using ts_reachable.start [OF demo_from_sigset, of std_ext "[5]"]
  by (simp add: ThresholdSig_set_message_def demo_ts_def Let_def)

lemma demo_sign:
  "n \<in> {1, 2, 3} \<Longrightarrow> n \<notin> S \<Longrightarrow>
     ThresholdSig_sign std_ext (demo_ts S) (demo_key n) ([5] @ demo_key n) = Ok (demo_ts (insert n S))"
  by (auto simp: ThresholdSig_sign_def demo_ts_def Let_def ThresholdSig_secp_verify_def std_ext_def add_w_def)

lemma demo_signed: "ts_reachable std_ext demo_set (demo_ts {3, 2})" "ThresholdSig_signed (demo_ts {3, 2})"
proof -
  have "ts_reachable std_ext demo_set (demo_ts {2})"
    by (rule ts_reachable.sign [OF demo_reachable demo_sign]) simp_all
  from ts_reachable.sign [OF this demo_sign, of 3] show "ts_reachable std_ext demo_set (demo_ts {3, 2})" by simp
  show "ThresholdSig_signed (demo_ts {3, 2})" by (simp add: ThresholdSig_signed_def demo_ts_def Let_def)
qed


theorem signing_state_sound_witness:
  "ThresholdSig_signed (demo_ts {3, 2}) \<and> signed_power (ts_sigs (demo_ts {3, 2})) = 55 \<and>
     list_all (entry_valid std_ext [5]) (ts_sigs (demo_ts {3, 2}))"
  using signing_state_sound [OF demo_signed(1)] demo_signed(2) by (simp add: demo_ts_def Let_def)

theorem sign_once_witness:
  "\<exists>ts. ThresholdSig_sign std_ext (demo_ts {}) (demo_key 2) ([5] @ demo_key 2) = Ok ts \<and> ts_signed ts = 30 \<and>
     ThresholdSig_sign std_ext ts (demo_key 2) [] = Err (App ''Pubkey already signed'')"
proof -
  have "ts_inv std_ext (demo_ts {})" using ts_reachable_inv [OF demo_reachable] by simp
  moreover have "ThresholdSig_needs_sig (demo_ts {}) (demo_key 2)"
    by (simp add: ThresholdSig_needs_sig_def demo_ts_def Let_def)
  moreover have "secp256k1_verify std_ext (ts_message (demo_ts {})) ([5] @ demo_key 2) (demo_key 2) = Ok True"
    by (simp add: std_ext_def demo_ts_def Let_def)
  ultimately show ?thesis
    using sign_once [of std_ext "demo_ts {}" "demo_key 2" "[5] @ demo_key 2"] by (auto simp: demo_ts_def Let_def)
qed

definition demo_witness :: "bytes list" where
  "demo_witness = [[], [5] @ demo_key 3 @ [1], [5] @ demo_key 2 @ [1]]"


section \<open>Scripts\<close>

lemma demo_threshold: "SignatorySet_signature_threshold demo_set SIGSET_THRESHOLD = Ok 50"
  by (simp add: SignatorySet_signature_threshold_def demo_set_def SIGSET_THRESHOLD_def mul_w_def div_r_def as_u64_def)

lemma demo_script: "\<exists>s. SignatorySet_redeem_script std_ext demo_set [0] SIGSET_THRESHOLD = Ok s"
  using demo_threshold by (simp add: SignatorySet_redeem_script_def Let_def demo_set_def)

lemma demo_keys_ok [simp]: "set_keys_ok demo_set"
  by (simp add: set_keys_ok_def demo_set_def demo_key_def)

text \<open>The signature check of Bitcoin that goes with the library: an encoded signature starts with a
  given byte, a valid one ends with the hash type.\<close>

definition demo_chk :: sig_check where
  "demo_chk sig k = (if take 1 sig = [5] then Some (sig = [5] @ k @ [1]) else None)"

lemma demo_truncation: "SignatorySet_get_truncation demo_set 23 = 0"
  by (rule no_truncation) (simp add: demo_set_def)

theorem redeem_script_condition_witness:
  "\<exists>s is. SignatorySet_redeem_script std_ext demo_set [0] SIGSET_THRESHOLD = Ok s \<and>
     script_instructions std_ext s = map Some is \<and> accepts demo_chk is (rev demo_witness) \<and>
     \<not> accepts demo_chk is [[], [5] @ demo_key 3 @ [1], []] \<and> run_script demo_chk is [] [[7], [], []] = None"
proof -
  obtain s where s: "SignatorySet_redeem_script std_ext demo_set [0] SIGSET_THRESHOLD = Ok s"
    using demo_script by blast
  note R = redeem_script_condition [OF std_script.script_laws_axioms s demo_set_ok _ _ demo_keys_ok, of _ demo_chk,
      unfolded demo_threshold demo_truncation]
  have "\<exists>is. script_instructions std_ext s = map Some is \<and> accepts demo_chk is (rev demo_witness)"
    using R [of "rev demo_witness"]
    by (simp add: SIGSET_THRESHOLD_def demo_set_def demo_witness_def vote_def encoded_def demo_chk_def)
  moreover have "\<exists>is. script_instructions std_ext s = map Some is \<and> \<not> accepts demo_chk is [[], [5] @ demo_key 3 @ [1], []]"
    using R [of "[[], [5] @ demo_key 3 @ [1], []]"]
    by (simp add: SIGSET_THRESHOLD_def demo_set_def vote_def encoded_def demo_chk_def)
  moreover have "\<exists>is. script_instructions std_ext s = map Some is \<and> run_script demo_chk is [] [[7], [], []] = None"
    using R [of "[[7], [], []]"] by (auto simp: SIGSET_THRESHOLD_def demo_set_def encoded_def demo_chk_def)
  ultimately show ?thesis using s by (metis inj_map_eq_map inj_Some)
qed

theorem from_script_roundtrip_witness:
  "\<exists>s. SignatorySet_redeem_script std_ext demo_set [0] SIGSET_THRESHOLD = Ok s \<and>
     SignatorySet_from_script std_ext s SIGSET_THRESHOLD =
       Ok (\<lparr>ss_create_time = 0, ss_present_vp = 75, ss_possible_vp = 75, ss_index = 0,
            ss_signatories = ss_signatories demo_set\<rparr>, [0])"
proof -
  obtain s where s: "SignatorySet_redeem_script std_ext demo_set [0] SIGSET_THRESHOLD = Ok s"
    using demo_script by blast
  have "SignatorySet_from_script std_ext s SIGSET_THRESHOLD =
       Ok (\<lparr>ss_create_time = 0, ss_present_vp = ss_present_vp demo_set, ss_possible_vp = ss_present_vp demo_set, ss_index = 0,
            ss_signatories = ss_signatories demo_set\<rparr>, [0])"
    by (rule from_script_roundtrip [OF std_script.script_laws_axioms s])
      (auto simp: demo_set_def SIGSET_THRESHOLD_def readable_def readable_key_def demo_key_def std_ext_def)
  then show ?thesis using s by (simp add: demo_set_def)
qed


theorem truncated_threshold_gap_witness:
  "\<exists>s is. SignatorySet_redeem_script std_ext (truncated_set (demo_key 1) (demo_key 2) (demo_key 3)) [0] SIGSET_THRESHOLD = Ok s \<and>
     script_instructions std_ext s = map Some is \<and> (\<forall>chk s1 s2. \<not> accepts chk is [s1, s2, []])"
proof -
  let ?t = "truncated_set (demo_key 1) (demo_key 2) (demo_key 3)"
  obtain s where s: "SignatorySet_redeem_script std_ext ?t [0] SIGSET_THRESHOLD = Ok s"
    by (simp add: SignatorySet_redeem_script_def Let_def truncated_set_def SignatorySet_signature_threshold_def
        SIGSET_THRESHOLD_def mul_w_def div_r_def as_u64_def)
  have "set_keys_ok ?t" by (simp add: set_keys_ok_def truncated_set_def demo_key_def)
  from truncated_threshold_gap [OF std_script.script_laws_axioms s this] s show ?thesis by auto
qed


section \<open>Checkpoints\<close>

definition demo_out :: "u64 \<Rightarrow> txout" where
  "demo_out v = \<lparr>txo_value = v, txo_script_pubkey = [9]\<rparr>"

theorem deduct_fee_spec_witness:
  "\<exists>tx' t. BitcoinTx_deduct_fee std_ext (BitcoinTx_default\<lparr>bt_output := [demo_out 1000, demo_out 400]\<rparr>) 100 = Ok tx' \<and>
     (bt_output tx' \<noteq> [] \<longrightarrow> t * length (bt_output tx') \<le> 100 \<and> 100 < (t + 1) * length (bt_output tx')) \<and>
     (\<forall>out\<in>set (bt_output tx'). 330 < txo_value out)"
  using deduct_fee_spec [of 100 "BitcoinTx_default\<lparr>bt_output := [demo_out 1000, demo_out 400]\<rparr>" std_ext]
  by (auto simp: std_ext_def)

definition demo_input :: "nat set \<Rightarrow> input" where
  "demo_input S = \<lparr>in_prevout = \<lparr>op_txid = [7], op_vout = 0\<rparr>, in_script_pubkey = [9], in_redeem_script = [8],
     in_sigset_index = 0, in_dest = [0], in_amount = 100000, in_est_witness_vsize = 50, in_signatures = demo_ts S\<rparr>"

text \<open>A checkpoint of the demo set with one transaction with one input.\<close>

definition demo_cp :: "checkpoint_status \<Rightarrow> nat set \<Rightarrow> checkpoint" where
  "demo_cp s S = \<lparr>cp_status = s, cp_pending = [(Dest_Address ''user'', \<lparr>coin_denom = ''btc'', coin_amount = 5\<rparr>)],
     cp_batches = [\<lparr>ba_signed_txs = (if ThresholdSig_signed (demo_ts S) then 1 else 0),
       ba_batch = [\<lparr>bt_lock_time = 0, bt_signed_inputs = (if ThresholdSig_signed (demo_ts S) then 1 else 0),
         bt_input = [demo_input S], bt_output = []\<rparr>]\<rparr>],
     cp_fee_rate = 55, cp_signed_at_btc_height = None, cp_deposits_enabled = True, cp_fees_collected = 0, cp_sigset = demo_set\<rparr>"

lemma demo_ts_inv: "ts_inv std_ext (demo_ts S)"
  by (simp add: ts_inv_def demo_ts_def Let_def signed_power_def total_power_def entry_valid_def std_ext_def)

lemma demo_cp_inv: "cp_inv std_ext (demo_cp s S)"
  by (simp add: cp_inv_def demo_cp_def batch_inv_def tx_inv_def demo_input_def demo_ts_inv num_signed_def
      BitcoinTx_signed_def)

lemma demo_cp_sign:
  "\<exists>cp'. Checkpoint_sign std_ext (demo_cp Signing {2}) (demo_xpub 3) [[5] @ demo_key 3] 10 = Ok cp'"
  using demo_sign [of 3 "{2}"]
  by (simp add: Checkpoint_sign_def demo_cp_def demo_input_def Let_def ThresholdSig_needs_sig_def throw_if_def add_w_def
      Batch_signed_def BitcoinTx_signed_def)
     (simp add: demo_ts_def Let_def ThresholdSig_signed_def add_w_def)

theorem Checkpoint_sign_exact_witness:
  "\<exists>cp' msgs. Checkpoint_sign std_ext (demo_cp Signing {2}) (demo_xpub 3) [[5] @ demo_key 3] 10 = Ok cp' \<and>
     Checkpoint_to_sign std_ext (demo_cp Signing {2}) (demo_xpub 3) = Ok msgs \<and>
     sigs_match std_ext (demo_xpub 3) [[5] @ demo_key 3] msgs"
proof -
  obtain cp' where cp': "Checkpoint_sign std_ext (demo_cp Signing {2}) (demo_xpub 3) [[5] @ demo_key 3] 10 = Ok cp'"
    using demo_cp_sign by blast
  from Checkpoint_sign_exact [OF this] cp' show ?thesis by blast
qed

lemma demo_advance:
  "\<exists>r. BuildingCheckpoint_advance std_ext (demo_cp Building {}) [1] 1000 CheckpointConfig_default = Ok r"
proof -
  obtain s where "SignatorySet_redeem_script std_ext demo_set [0] SIGSET_THRESHOLD = Ok s" using demo_script by blast
  moreover have "segwit_signature_hash std_ext tx i r a = Ok [i]" for tx i r a by (simp add: std_ext_def)
  moreover have "\<not> ThresholdSig_signed (demo_ts {}\<lparr>ts_message := m\<rparr>)" "\<not> ThresholdSig_signed (demo_ts {})" for m
    by (simp_all add: ThresholdSig_signed_def demo_ts_def Let_def)
  ultimately show ?thesis
    by (simp add: BuildingCheckpoint_advance_def Checkpoint_additional_outputs_def SignatorySet_output_script_def
        first_tx_def demo_cp_def demo_input_def CheckpointConfig_default_def index_r_def BatchType_Checkpoint_def
        pop_excess.simps Let_def add_w_def checked_sub_def BitcoinTx_to_bitcoin_tx_def Input_to_txin_def
        ThresholdSig_to_witness_def BitcoinTx_txid_def ThresholdSig_set_message_def)
qed

theorem advance_conserves_value_witness:
  "\<exists>cp' op rv xi xo tx'. BuildingCheckpoint_advance std_ext (demo_cp Building {}) [1] 1000 CheckpointConfig_default =
       Ok (cp', op, rv, 1000, xi, xo) \<and> first_tx cp' = Ok tx' \<and>
     sum_list (map in_amount (bt_input tx')) = sum_list (map txo_value (bt_output tx')) + 1000"
proof -
  obtain cp' op rv paid xi xo where r: "BuildingCheckpoint_advance std_ext (demo_cp Building {}) [1] 1000 CheckpointConfig_default =
      Ok (cp', op, rv, paid, xi, xo)"
    using demo_advance by (metis prod_cases6)
  then have "paid = 1000" by (rule advance_Inr)
  with advance_conserves_value [OF r] r show ?thesis by blast
qed

section \<open>The checkpoint queue\<close>

text \<open>A store with the given checkpoints, of which the last one has index \<open>i\<close>.\<close>

definition demo_store :: "checkpoint list \<Rightarrow> u32 \<Rightarrow> store" where
  "demo_store cps i = empty_store\<lparr>st_checkpoints := dq_of cps, st_building_index := Some i,
     st_checkpoint_config := Some CheckpointConfig_default, st_bitcoin_config := Some BitcoinConfig_bitcoin,
     st_fee_pool := Some 0, st_first_unhandled_confirmed_index := Some 0\<rparr>"

lemma queue_demo_store [simp]: "length cps < 1000 \<Longrightarrow> queue (demo_store cps i) = cps"
  by (simp add: demo_store_def queue_def)

lemma unpruned_demo_store:
  "length cps < 1000 \<Longrightarrow> cps \<noteq> [] \<Longrightarrow> i = length cps - 1 \<Longrightarrow> unpruned (demo_store cps i) i"
  by (cases cps) (simp_all add: unpruned_def queue_ok_def queue_def demo_store_def)

definition demo2 :: store where
  "demo2 = demo_store [demo_cp Complete {3, 2}, demo_cp Building {}] 1"

lemma demo2_unpruned [simp]: "unpruned demo2 1" and demo2_queue [simp]: "queue demo2 = [demo_cp Complete {3, 2}, demo_cp Building {}]"
  by (simp_all add: demo2_def unpruned_demo_store)

text \<open>The store after its first checkpoint was pruned.\<close>

definition demo_pruned :: store where
  "demo_pruned = demo2\<lparr>st_checkpoints := snd (dq_pop_front std_deque (st_checkpoints demo2))\<rparr>"

lemma demo_pruned_ok:
  "queue_ok demo_pruned 1" "dq_head (st_checkpoints demo_pruned) = 1" "queue demo_pruned = [demo_cp Building {}]"
proof -
  obtain d where "dq_pop_front std_deque (dq_of [demo_cp Complete {3, 2}, demo_cp Building {}]) = (Some (demo_cp Complete {3, 2}), d)"
      "dq_ok d" "dq_items d = [demo_cp Building {}]" "dq_head d = 1"
    using std_dq.pop_front [of "dq_of [demo_cp Complete {3, 2}, demo_cp Building {}]" "demo_cp Complete {3, 2}" "[demo_cp Building {}]"]
    by (auto simp: u32_space_def)
  then show "queue_ok demo_pruned 1" "dq_head (st_checkpoints demo_pruned) = 1" "queue demo_pruned = [demo_cp Building {}]"
    by (simp_all add: demo_pruned_def demo2_def demo_store_def queue_ok_def queue_def)
qed

theorem set_lost_after_prune_witness:
  "\<exists>st'. CheckpointQueue_set std_ext demo_pruned 1 (demo_cp Signing {}) = Ok st' \<and>
     CheckpointQueue_get std_ext st' 1 = Ok (demo_cp Building {})"
  using set_lost_after_prune [OF std.contract_deques_axioms demo_pruned_ok(1,2), of 1 "demo_cp Signing {}"]
    std.get_eq [OF demo_pruned_ok(1), of 1] by (auto simp: demo_pruned_ok(3))

text \<open>A store with validators and keys, before the first checkpoint.\<close>

definition demo_empty :: store where
  "demo_empty = demo_store [] 0
     \<lparr>st_validators := [([1], 20, ''a''), ([2], 30, ''b''), ([3], 25, ''c''), ([4], 5, ''d'')],
      st_sig_keys := [([1], demo_xpub 1), ([2], demo_xpub 2), ([3], demo_xpub 3)]\<rparr>"

lemma demo_next_sigset: "next_sigset std_ext demo_empty \<lparr>env_seconds = 1000, env_nanos = 0, env_contract = []\<rparr> 0 = Ok demo_set"
proof -
  have "get_validators demo_empty = demo_validators"
    by (simp add: get_validators_def demo_empty_def demo_store_def demo_validators_def)
  moreover have "map_of (st_sig_keys demo_empty) = demo_keys"
    by (rule ext) (simp add: demo_empty_def demo_keys_def)
  ultimately show ?thesis using demo_from_validators by (simp add: next_sigset_def)
qed

abbreviation (input) demo_first_block :: env where
  "demo_first_block \<equiv> \<lparr>env_seconds = 1000, env_nanos = 0, env_contract = []\<rparr>"

lemma demo_empty_unpruned: "unpruned demo_empty 0" and demo_empty_queue: "queue demo_empty = []"
  by (simp_all add: demo_empty_def demo_store_def unpruned_def queue_ok_def queue_def)

lemma demo_should_push: "CheckpointQueue_should_push std_ext demo_first_block demo_empty [] 0 = Ok True"
proof -
  have "CheckpointQueue_config demo_empty = Ok CheckpointConfig_default"
    by (simp add: CheckpointQueue_config_def demo_empty_def demo_store_def)
  moreover have "ss_possible_vp demo_set \<noteq> 0" "SignatorySet_has_quorum demo_set"
    by (simp_all add: demo_set_def SignatorySet_has_quorum_def SignatorySet_quorum_threshold_def)
  moreover have "\<not> cc_max_unconfirmed_checkpoints CheckpointConfig_default \<le> 0"
    by (simp add: CheckpointConfig_default_def)
  ultimately show ?thesis
    using demo_next_sigset demo_empty_queue std.signing_unpruned [OF demo_empty_unpruned]
    by (simp add: CheckpointQueue_should_push_def std.is_empty_queue CheckpointQueue_num_unconfirmed_def Let_def
        index_unpruned [OF demo_empty_unpruned] checked_sub_def)
qed

theorem should_push_then_pushed_witness:
  "\<exists>b st'. CheckpointQueue_maybe_push std_ext demo_first_block demo_empty True = Ok (Some b, st') \<and>
     queue st' = [b] \<and> cp_status b = Building"
  using should_push_then_pushed [OF std.contract_deques_axioms demo_empty_unpruned _ demo_should_push, of True]
    demo_empty_queue by auto

section \<open>Recovery transactions\<close>

lemma demo_redeem_script: "\<exists>s. SignatorySet_redeem_script std_ext demo_set dest SIGSET_THRESHOLD = Ok s"
  using demo_threshold by (simp add: SignatorySet_redeem_script_def Let_def demo_set_def)

text \<open>An expired deposit of the given value.\<close>

definition demo_recovery :: "u64 \<Rightarrow> recovery_tx_input" where
  "demo_recovery v = \<lparr>ri_expired_tx = \<lparr>btx_version = 1, btx_lock_time = 0, btx_input = [], btx_output = [demo_out v]\<rparr>,
     ri_vout = 0, ri_old_sigset = demo_set, ri_new_sigset = demo_set\<lparr>ss_index := 7\<rparr>, ri_threshold = SIGSET_THRESHOLD,
     ri_fee_rate = 2, ri_dest = Dest_Address ''user''\<rparr>"

lemma demo_recovery_created: "\<exists>st'. RecoveryTxs_create_recovery_tx std_ext empty_store (demo_recovery 100000) = Ok st'"
proof -
  obtain s where s: "SignatorySet_redeem_script std_ext demo_set (as_bytes ''user'') SIGSET_THRESHOLD = Ok s"
    using demo_redeem_script by blast
  obtain s' where s': "SignatorySet_redeem_script std_ext (demo_set\<lparr>ss_index := 7\<rparr>) (as_bytes ''user'') SIGSET_THRESHOLD = Ok s'"
    using demo_threshold
    by (simp add: SignatorySet_redeem_script_def SignatorySet_signature_threshold_def Let_def demo_set_def)
  have ts: "ThresholdSig_from_sigset demo_set = Ok (demo_ts {}\<lparr>ts_message := replicate 32 0\<rparr>)"
    by (rule demo_from_sigset)
  have unsigned: "\<not> ThresholdSig_signed (demo_ts {}\<lparr>ts_message := m\<rparr>)" for m
    by (simp add: ThresholdSig_signed_def demo_ts_def Let_def)
  obtain est where est: "SignatorySet_est_witness_vsize demo_set = Ok est" "est < 10000"
    by (simp add: SignatorySet_est_witness_vsize_def demo_set_def SignatorySet_len_def add_w_def mul_w_def)
  show ?thesis
    unfolding RecoveryTxs_create_recovery_tx_def
    using s s' ts unsigned est
    by (simp add: demo_recovery_def demo_out_def vec_get_def Dest_commitment_bytes_def Input_new_def SignatorySet_output_script_def
        BitcoinTx_est_vsize_def BitcoinTx_to_bitcoin_tx_def Input_to_txin_def ThresholdSig_to_witness_def add_w_def mul_w_def
        deduct_fee_single BitcoinTx_populate_input_sig_message_def std_sels Let_def)
qed

theorem recovery_tx_spec_witness:
  "\<exists>st' tx. RecoveryTxs_create_recovery_tx std_ext empty_store (demo_recovery 100000) = Ok st' \<and>
     map rt_tx (recoveries st') = [tx] \<and> map in_amount (bt_input tx) = [100000]"
proof -
  obtain st' where st': "RecoveryTxs_create_recovery_tx std_ext empty_store (demo_recovery 100000) = Ok st'"
    using demo_recovery_created by blast
  have e: "recoveries empty_store = []" "dq_ok (st_recovery_txs empty_store)" by (simp_all add: recoveries_def empty_store_def)
  then have "length (recoveries empty_store) < u32_space - 1" by (simp add: u32_space_def)
  from recovery_tx_spec [OF std.contract_deques_axioms e(2) this st'] show ?thesis
    using st' by (auto simp: e(1) demo_recovery_def demo_out_def vec_get_def)
qed

definition demo_recovering :: store where
  "demo_recovering = empty_store\<lparr>st_recovery_txs := dq_of [\<lparr>rt_tx = \<lparr>bt_lock_time = 0, bt_signed_inputs = 0,
     bt_input = [demo_input {2}], bt_output = [demo_out 90000]\<rparr>, rt_old_sigset_index = 0, rt_new_sigset_index = 7,
     rt_dest = Dest_Address ''user''\<rparr>]\<rparr>"

lemma demo_recovery_signed: "\<exists>st'. RecoveryTxs_sign std_ext demo_recovering (demo_xpub 3) [[5] @ demo_key 3] = Ok st'"
  using demo_sign [of 3 "{2}"] std.rdq.get_items [of "st_recovery_txs demo_recovering" 0] std.rdq.length_items [of "st_recovery_txs demo_recovering"]
  by (simp add: RecoveryTxs_sign_def demo_recovering_def demo_input_def vec_get_def Let_def ThresholdSig_needs_sig_def throw_if_def add_w_def)
     (simp add: demo_ts_def Let_def ThresholdSig_signed_def add_w_def)

theorem recovery_sign_exact_witness:
  "\<exists>st' msgs. RecoveryTxs_sign std_ext demo_recovering (demo_xpub 3) [[5] @ demo_key 3] = Ok st' \<and>
     RecoveryTxs_to_sign std_ext demo_recovering (demo_xpub 3) = Ok msgs \<and>
     sigs_match std_ext (demo_xpub 3) [[5] @ demo_key 3] msgs \<and> RecoveryTxs_to_sign std_ext st' (demo_xpub 3) = Ok []"
proof -
  obtain st' where st': "RecoveryTxs_sign std_ext demo_recovering (demo_xpub 3) [[5] @ demo_key 3] = Ok st'"
    using demo_recovery_signed by blast
  from recovery_sign_exact [OF std.contract_deques_axioms _ _ this] st' show ?thesis
    by (auto simp: demo_recovering_def)
qed


section \<open>The light client\<close>

lemmas header_sels = WorkHeader_height_def WrappedHeader_time_def WorkHeader_time_def WrappedHeader_bits_def
  WrappedHeader_block_hash_def WorkHeader_block_hash_def WrappedHeader_prev_blockhash_def WrappedHeader_work_def
  WorkHeader_work_def WrappedHeader_target_def WrappedHeader_validate_pow_def WrappedHeader_u32_to_u256_def

text \<open>Headers that extend the trusted one; \<open>b\<close> names the branch.\<close>

definition demo_header :: "nat \<Rightarrow> nat \<Rightarrow> nat \<Rightarrow> wrapped_header" where
  "demo_header n prev nonce = \<lparr>wh_height = 802368 + n, wh_header = \<lparr>bh_version = 1, bh_prev_blockhash = [prev],
     bh_merkle_root = [1, 1], bh_time = 1691584068 + n, bh_bits = 386228059, bh_nonce = nonce\<rparr>\<rparr>"

definition demo_headers :: "work_header list" where
  "demo_headers = [HeaderConfig_work_header std_ext HeaderConfig_mainnet,
     \<lparr>kh_chain_work = 2, kh_header = demo_header 1 4602308 11\<rparr>]"

definition demo_hstore :: store where
  "demo_hstore = empty_store\<lparr>st_headers := dq_of demo_headers, st_header_config := Some HeaderConfig_mainnet, st_current_work := Some 2\<rparr>"

lemmas mainnet_defs = HeaderConfig_mainnet_def HeaderConfig_from_bytes_def checkpoint_json_def MAX_LENGTH_def MAX_TARGET_def
  RETARGET_INTERVAL_def HeaderConfig_work_header_def WorkHeader_new_def WrappedHeader_new_def

lemma demo_hstore_inv: "headers_inv std_ext demo_hstore"
proof -
  have one: "0 < i \<and> i < length demo_headers \<longleftrightarrow> i = 1" for i by (auto simp: demo_headers_def)
  have "pow_ok std_ext HeaderConfig_mainnet demo_headers"
    unfolding pow_ok_def one
    by (simp add: target_ok_def demo_headers_def demo_header_def header_sels mainnet_defs Let_def) (simp add: std_ext_def)
  moreover have "hd demo_headers # tl demo_headers = demo_headers" "median_ok demo_headers"
    by (simp_all add: median_ok_def demo_headers_def)
  ultimately have "chain_ok std_ext HeaderConfig_mainnet demo_headers"
    by (simp add: chain_ok_def) (simp add: link_ok_def demo_headers_def demo_header_def header_sels mainnet_defs Let_def std_ext_def)
  then show ?thesis
    by (simp add: headers_inv_def demo_hstore_def header_items_def demo_headers_def mainnet_defs)
qed

lemma demo_drift: "work_drift std_ext demo_hstore 0"
  by (simp add: work_drift_def demo_hstore_def header_items_def demo_headers_def headers_work_def header_sels wrap256_def std_ext_def)

lemmas pop_back_to_loop_numeral = pop_back_to_loop.simps(2) [of _ "pred_numeral k" for k, folded numeral_eq_Suc]

lemmas prune_headers_numeral = prune_headers.simps(2) [of _ _ "pred_numeral k" for k, folded numeral_eq_Suc]

lemma demo_reorg:
  "\<exists>st'. HeaderQueue_add std_ext demo_hstore [demo_header 1 4602308 21, demo_header 2 21 22] = Ok st'"
proof -
  define t where "t = HeaderConfig_work_header std_ext HeaderConfig_mainnet"
  have t: "wh_height (kh_header t) = 802368" "bh_nonce (wh_header (kh_header t)) = 4602308" "bh_bits (wh_header (kh_header t)) = 386228059"
    by (simp_all add: t_def mainnet_defs Let_def)
  have d: "dq_of demo_headers = \<lparr>dq_head = 0, dq_tail = 2, dq_cells = (\<lambda>_. None)(0 := Some t,
      1 := Some \<lparr>kh_chain_work = 2, kh_header = demo_header 1 4602308 11\<rparr>)\<rparr>"
    by (simp add: dq_of_def demo_headers_def std_deque_def std_push_back_def dq_empty_def t_def u32_space_def)
  have c: "hc_max_length HeaderConfig_mainnet = 24192" "hc_retarget_interval HeaderConfig_mainnet = 2016" "\<not> hc_min_difficulty_blocks HeaderConfig_mainnet"
    by (simp_all add: mainnet_defs)
  show ?thesis
    by (simp add: HeaderQueue_add_def MAX_HEADERS_RELAY_ONE_TIME_def HeaderQueue_add_into_iter_def Let_def HeaderQueue_config_def
      demo_hstore_def d c t header_sels std_sels std_deque_def HeaderQueue_height_def header_height_def dq_len_def dq_pos_def u32_space_def
      demo_header_def HeaderQueue_get_by_height_def HeaderQueue_get_initial_height_def HeaderQueue_pop_back_to_def HeaderQueue_len_def
      std_pop_back_def pop_back_to_loop_numeral prune_headers_numeral u256_add_def HeaderQueue_verify_and_add_headers_def add_header_step_def add_w_def
      HeaderQueue_get_next_target_def rem_r_def HeaderQueue_current_work_def std_push_back_def)
qed


theorem reorg_work_drift_witness:
  "\<exists>st' kept dropped. HeaderQueue_add std_ext demo_hstore [demo_header 1 4602308 21, demo_header 2 21 22] = Ok st' \<and>
     header_items demo_hstore = kept @ dropped \<and> dropped \<noteq> [] \<and>
     work_drift std_ext st' (headers_work std_ext (map kh_header dropped))"
proof -
  obtain st' where st': "HeaderQueue_add std_ext demo_hstore [demo_header 1 4602308 21, demo_header 2 21 22] = Ok st'"
    using demo_reorg by blast
  have "wh_height (demo_header 1 4602308 21) \<le> HeaderQueue_height std_ext demo_hstore"
    using std.header_reads(1) [of demo_hstore]
    by (simp add: demo_hstore_def header_items_def demo_headers_def demo_header_def header_sels)
  then show ?thesis
    using reorg_work_drift [OF std.contract_deques_axioms demo_hstore_inv demo_drift st'] st' by auto
qed

definition demo_start :: store where
  "demo_start = HeaderQueue_configure std_ext empty_store HeaderConfig_mainnet"

lemma mainnet_bounds:
  "0 < hc_max_length HeaderConfig_mainnet" "hc_max_length HeaderConfig_mainnet < 2 ^ 31"
  "header_work std_ext (hc_trusted_header HeaderConfig_mainnet) < 2 ^ 256"
  by (simp_all add: mainnet_defs std_sels)

lemma demo_start_reachable: "headers_reachable std_ext HeaderConfig_mainnet demo_start"
  unfolding demo_start_def by (rule headers_reachable.configure) (simp add: empty_store_def)

lemma demo_start_items: "header_items demo_start = [HeaderConfig_work_header std_ext HeaderConfig_mainnet]"
  unfolding demo_start_def by (rule std.configure_inv(2) [OF mainnet_bounds(1,2)]) (simp add: empty_store_def)

text \<open>
  A chain that retargets every second header: the interval of the trusted header and the next one
  took one second, a quarter of the timespan of eight counts, and the target goes down to a quarter.
\<close>

definition fast_config :: header_config where
  "fast_config = HeaderConfig_mainnet\<lparr>hc_retarget_interval := 2, hc_target_timespan := 8\<rparr>"

definition fast_header :: "nat \<Rightarrow> nat \<Rightarrow> nat \<Rightarrow> nat \<Rightarrow> nat \<Rightarrow> wrapped_header" where
  "fast_header n prev nonce bits t = \<lparr>wh_height = 802368 + n, wh_header = \<lparr>bh_version = 1, bh_prev_blockhash = [prev],
     bh_merkle_root = [1, 1], bh_time = t, bh_bits = bits, bh_nonce = nonce\<rparr>\<rparr>"

definition fast_start :: store where
  "fast_start = HeaderQueue_configure std_ext empty_store fast_config"

lemma fast_consts:
  "hc_max_length fast_config = 24192" "hc_retarget_interval fast_config = 2" "\<not> hc_min_difficulty_blocks fast_config"
  "hc_retargeting fast_config" "hc_target_timespan fast_config = 8" "hc_max_target fast_config = 486604799"
  by (simp_all add: fast_config_def mainnet_defs)

lemma fast_bounds:
  "0 < hc_max_length fast_config" "hc_max_length fast_config < 2 ^ 31" "header_work std_ext (hc_trusted_header fast_config) < 2 ^ 256"
  by (simp_all add: fast_config_def mainnet_defs std_sels)

lemma fast_start_reachable: "headers_reachable std_ext fast_config fast_start"
  unfolding fast_start_def by (rule headers_reachable.configure) (simp add: empty_store_def)

definition fast_trusted :: work_header where
  "fast_trusted = HeaderConfig_work_header std_ext fast_config"

lemma fast_trusted_sels:
  "wh_height (kh_header fast_trusted) = 802368" "bh_nonce (wh_header (kh_header fast_trusted)) = 4602308"
  "bh_bits (wh_header (kh_header fast_trusted)) = 386228059" "bh_time (wh_header (kh_header fast_trusted)) = 1691584068"
  by (simp_all add: fast_trusted_def fast_config_def mainnet_defs Let_def)

lemma fast_start_eq:
  "fast_start = empty_store\<lparr>st_headers := \<lparr>dq_head = 2 ^ 32 - 1, dq_tail = 0, dq_cells = (\<lambda>_. None)(2 ^ 32 - 1 := Some fast_trusted)\<rparr>,
     st_header_config := Some fast_config, st_current_work := Some 1\<rparr>"
  by (simp add: fast_start_def HeaderQueue_configure_def Let_def std_sels std_deque_def std_push_front_def empty_store_def
      DequeExtension_clear_def dq_len_def dq_empty_def u32_space_def fast_trusted_def HeaderConfig_work_header_def WorkHeader_new_def header_sels)

lemma u32_to_u256_small: "n < 2 ^ 32 \<Longrightarrow> WrappedHeader_u32_to_u256 n = n"
  by (rule u32_to_u256_value)

lemmas fast_eval = HeaderQueue_add_def MAX_HEADERS_RELAY_ONE_TIME_def HeaderQueue_add_into_iter_def Let_def HeaderQueue_config_def
  fast_start_eq fast_consts fast_trusted_sels std_sels std_deque_def HeaderQueue_height_def header_height_def dq_len_def dq_pos_def u32_space_def
  fast_header_def HeaderQueue_get_by_height_def HeaderQueue_get_initial_height_def HeaderQueue_len_def
  prune_headers_numeral u256_add_def HeaderQueue_verify_and_add_headers_def add_header_step_def add_w_def
  HeaderQueue_get_next_target_def HeaderQueue_calculate_next_target_def rem_r_def sub_w_def mul_w_def div_r_def clamp_r_def u256_mul_def
  HeaderQueue_current_work_def std_push_back_def WorkHeader_height_def WrappedHeader_time_def WorkHeader_time_def WrappedHeader_bits_def
  WrappedHeader_block_hash_def WorkHeader_block_hash_def WrappedHeader_prev_blockhash_def WrappedHeader_work_def
  WorkHeader_work_def WrappedHeader_target_def WrappedHeader_validate_pow_def u32_to_u256_small

lemma fast_items:
  assumes add: "HeaderQueue_add std_ext fast_start hs = Ok st'" and len: "length hs < 1000"
  shows "\<exists>xs. map kh_header xs = hs \<and> header_items st' = fast_trusted # xs"
proof -
  have start: "header_items fast_start = [fast_trusted]"
    unfolding fast_start_def fast_trusted_def by (rule std.configure_inv(2) [OF fast_bounds(1,2)]) (simp add: empty_store_def)
  have inv: "headers_inv std_ext fast_start" "st_header_config fast_start = Some fast_config"
      and "\<exists>e. work_drift std_ext fast_start e"
    using reachable_headers_inv [OF std.contract_deques_axioms fast_bounds fast_start_reachable] by auto
  then obtain e where e: "st_current_work fast_start = Some (wrap256 (headers_work std_ext (map kh_header (header_items fast_start)) + e))"
    by (auto simp: work_drift_def)
  obtain d w kept dropped xs where k: "header_items fast_start = kept @ dropped" "kept \<noteq> []" "map kh_header xs = hs"
      "dq_items d = drop (length (kept @ xs) - hc_max_length fast_config) (kept @ xs)"
      and st': "st' = fast_start\<lparr>st_headers := d, st_current_work := w\<rparr>"
    using std.HeaderQueue_add_Inr [OF inv e add] by blast
  have "kept = [fast_trusted]" using k(1,2) start by (cases kept) auto
  moreover have "length xs < 1000" using len k(3) by auto
  ultimately have "header_items st' = fast_trusted # xs" using k(4) by (simp add: st' fast_consts)
  then show ?thesis using k(3) by blast
qed

lemma fast_extend:
  "\<exists>st'. HeaderQueue_add std_ext fast_start [fast_header 1 4602308 11 386228059 1691584069, fast_header 2 11 12 96557014 1691584070] = Ok st'"
  by (simp add: fast_eval)

theorem header_chain_valid_witness:
  "\<exists>st' x y z. HeaderQueue_add std_ext fast_start [fast_header 1 4602308 11 386228059 1691584069, fast_header 2 11 12 96557014 1691584070] = Ok st' \<and>
     header_items st' = [x, y, z] \<and> link_ok std_ext x y \<and> link_ok std_ext y z \<and>
     WrappedHeader_bits (kh_header z) = retarget_spec std_ext fast_config x y"
proof -
  let ?hs = "[fast_header 1 4602308 11 386228059 1691584069, fast_header 2 11 12 96557014 1691584070]"
  obtain st' where st': "HeaderQueue_add std_ext fast_start ?hs = Ok st'" using fast_extend by blast
  have "length ?hs < 1000" by simp
  from fast_items [OF st' this] obtain xs where k: "map kh_header xs = ?hs" "header_items st' = fast_trusted # xs"
    by (elim exE conjE)
  obtain y z where yz: "xs = [y, z]" "kh_header y = hd ?hs" "kh_header z = last ?hs" using k(1) by auto
  then have items: "header_items st' = [fast_trusted, y, z]" using k(2) by simp
  from header_chain_valid [OF std.contract_deques_axioms fast_bounds headers_reachable.add [OF fast_start_reachable st']]
  have links: "link_ok std_ext fast_trusted y \<and> link_ok std_ext y z" and pow: "pow_ok std_ext fast_config [fast_trusted, y, z]"
    unfolding items by simp_all
  from pow obtain target h where "header_validate_pow std_ext (wh_header (kh_header z)) target = Ok h"
      and t: "target_ok std_ext fast_config [fast_trusted, y, z] 2 target"
    unfolding pow_ok_def by (elim allE [of _ 2]) auto
  then have "WrappedHeader_bits (kh_header z) = target" by (auto simp: std_sels WrappedHeader_bits_def split: if_splits)
  moreover have "target = retarget_spec std_ext fast_config fast_trusted y"
    using t by (simp add: target_ok_def Let_def fast_consts yz(3) fast_header_def WorkHeader_height_def)
  ultimately show ?thesis using st' items links by blast
qed

lemma demo_extend: "\<exists>st'. HeaderQueue_add std_ext demo_start [demo_header 1 4602308 11] = Ok st'"
proof -
  define t where "t = HeaderConfig_work_header std_ext HeaderConfig_mainnet"
  have t: "wh_height (kh_header t) = 802368" "bh_nonce (wh_header (kh_header t)) = 4602308" "bh_bits (wh_header (kh_header t)) = 386228059"
    by (simp_all add: t_def mainnet_defs Let_def)
  have s: "demo_start = empty_store\<lparr>st_headers := \<lparr>dq_head = 2 ^ 32 - 1, dq_tail = 0, dq_cells = (\<lambda>_. None)(2 ^ 32 - 1 := Some t)\<rparr>,
      st_header_config := Some HeaderConfig_mainnet, st_current_work := Some 1\<rparr>"
    by (simp add: demo_start_def HeaderQueue_configure_def Let_def std_sels std_deque_def std_push_front_def empty_store_def
        DequeExtension_clear_def dq_len_def dq_empty_def u32_space_def t_def HeaderConfig_work_header_def WorkHeader_new_def header_sels)
  have c: "hc_max_length HeaderConfig_mainnet = 24192" "hc_retarget_interval HeaderConfig_mainnet = 2016" "\<not> hc_min_difficulty_blocks HeaderConfig_mainnet"
    by (simp_all add: mainnet_defs)
  show ?thesis
    by (simp add: HeaderQueue_add_def MAX_HEADERS_RELAY_ONE_TIME_def HeaderQueue_add_into_iter_def Let_def HeaderQueue_config_def
      s c t header_sels std_sels std_deque_def HeaderQueue_height_def header_height_def dq_len_def dq_pos_def u32_space_def
      demo_header_def HeaderQueue_get_by_height_def HeaderQueue_get_initial_height_def HeaderQueue_len_def
      prune_headers_numeral u256_add_def HeaderQueue_verify_and_add_headers_def add_header_step_def add_w_def
      HeaderQueue_get_next_target_def rem_r_def HeaderQueue_current_work_def std_push_back_def)
qed

theorem header_add_more_work_witness:
  "\<exists>st' kept dropped. HeaderQueue_add std_ext demo_start [demo_header 1 4602308 11] = Ok st' \<and>
     header_items demo_start = kept @ dropped \<and>
     wrap256 (headers_work std_ext (map kh_header dropped)) < wrap256 (headers_work std_ext [demo_header 1 4602308 11])"
proof -
  obtain st' where st': "HeaderQueue_add std_ext demo_start [demo_header 1 4602308 11] = Ok st'" using demo_extend by blast
  from header_add_more_work [OF std.contract_deques_axioms mainnet_bounds demo_start_reachable this] st'
  show ?thesis by blast
qed

theorem pop_back_to_returns_witness:
  "\<exists>st'. HeaderQueue_pop_back_to std_ext demo_hstore 802369 = Ok (wrap256 1, st') \<and> length (header_items st') = 1"
proof -
  have inv: "dq_ok (st_headers demo_hstore)" "chain_ok std_ext HeaderConfig_mainnet (header_items demo_hstore)"
    using demo_hstore_inv by (auto simp: headers_inv_def demo_hstore_def)
  have f: "filter (\<lambda>x. 802369 \<le> WorkHeader_height x) (header_items demo_hstore) = [\<lparr>kh_chain_work = 2, kh_header = demo_header 1 4602308 11\<rparr>]"
    "filter (\<lambda>x. WorkHeader_height x < 802369) (header_items demo_hstore) = [HeaderConfig_work_header std_ext HeaderConfig_mainnet]"
    by (simp_all add: demo_hstore_def header_items_def demo_headers_def demo_header_def header_sels mainnet_defs Let_def)
  from pop_back_to_returns [OF std.contract_deques_axioms inv]
  have "\<exists>st'. HeaderQueue_pop_back_to std_ext demo_hstore 802369 =
        Ok (wrap256 (headers_work std_ext (map kh_header (filter (\<lambda>x. 802369 \<le> WorkHeader_height x) (header_items demo_hstore)))), st') \<and>
      header_items st' = filter (\<lambda>x. WorkHeader_height x < 802369) (header_items demo_hstore)"
    by (elim conjE allE [of _ 802369]) simp
  then show ?thesis unfolding f by (auto simp: headers_work_def header_sels std_sels)
qed

text \<open>The interval's last header is older than its first: nothing extends the queue any more.\<close>

lemma fast_stuck_extend: "\<exists>st'. HeaderQueue_add std_ext fast_start [fast_header 1 4602308 11 386228059 1691584000] = Ok st'"
  by (simp add: fast_eval)

theorem retarget_time_underflow_witness:
  "\<exists>st. headers_reachable std_ext fast_config st \<and> length (header_items st) = 2 \<and>
     (\<forall>bits t r. HeaderQueue_add std_ext st [fast_header 2 11 12 bits t] \<noteq> Ok r)"
proof -
  let ?h = "fast_header 1 4602308 11 386228059 1691584000"
  obtain st where st: "HeaderQueue_add std_ext fast_start [?h] = Ok st" using fast_stuck_extend by blast
  have "length [?h] < 1000" by simp
  from fast_items [OF st this] obtain xs where k: "map kh_header xs = [?h]" "header_items st = fast_trusted # xs"
    by (elim exE conjE)
  obtain y where y: "xs = [y]" "kh_header y = ?h" using k(1) by auto
  then have items: "header_items st = [fast_trusted, y]" using k(2) by simp
  have reach: "headers_reachable std_ext fast_config st" by (rule headers_reachable.add [OF fast_start_reachable st])
  have "dq_ok (st_headers st)"
    using reachable_headers_inv [OF std.contract_deques_axioms fast_bounds reach] by (simp add: headers_inv_def)
  then have height: "HeaderQueue_height std_ext st = 802369"
    using std.header_reads(1) [of st] items y(2) by (simp add: WorkHeader_height_def fast_header_def)
  have False if "HeaderQueue_add std_ext st [fast_header 2 11 12 bits t] = Ok r" for bits t r
  proof -
    have "wh_height (hd [fast_header 2 11 12 bits t]) \<le> HeaderQueue_height std_ext st"
      by (rule retarget_time_underflow [OF std.contract_deques_axioms fast_bounds reach _ _ _ _ _ that])
        (simp_all add: fast_consts height items y(2) fast_header_def WorkHeader_time_def fast_trusted_sels WrappedHeader_time_def)
    then show False by (simp add: height fast_header_def)
  qed
  then have "\<forall>bits t r. HeaderQueue_add std_ext st [fast_header 2 11 12 bits t] \<noteq> Ok r" by (intro allI notI)
  moreover have "length (header_items st) = 2" by (simp add: items)
  ultimately show ?thesis using reach by (intro exI [of _ st] conjI)
qed

section \<open>Outpoints and fees\<close>

lemma outpoints_empty: "outpoints_inv E empty_store"
  by (simp add: outpoints_inv_def empty_store_def omap_ok_def)

definition demo_config :: config where
  "demo_config = \<lparr>cf_token_factory_addr = ''tf'', cf_owner = ''owner'', cf_relayer_fee_token = NativeToken ''orai'', cf_relayer_fee = 7,
     cf_token_fee_receiver = ''a'', cf_relayer_fee_receiver = ''b'', cf_swap_router_contract = Some ''r'',
     cf_osor_entry_point_contract = None\<rparr>"

section \<open>The bridge\<close>

text \<open>A store in operation: three headers and one checkpoint that is being built.\<close>

definition demo_chain :: "work_header list" where
  "demo_chain = demo_headers @ [\<lparr>kh_chain_work = 3, kh_header = demo_header 2 11 12\<rparr>]"

definition demo_live :: store where
  "demo_live = (demo_store [demo_cp Building {}] 0)\<lparr>st_headers := dq_of demo_chain, st_config := Some demo_config,
     st_bitcoin_config := Some (BitcoinConfig_bitcoin\<lparr>bc_min_withdrawal_checkpoints := 1\<rparr>)\<rparr>"

lemma demo_live_unpruned: "unpruned demo_live 0" and demo_live_queue: "queue demo_live = [demo_cp Building {}]"
proof -
  have "unpruned (demo_store [demo_cp Building {}] 0) 0" by (rule unpruned_demo_store) simp_all
  then show "unpruned demo_live 0"
    by (rule unpruned_cong [THEN iffD2, rotated 2]) (simp_all add: demo_live_def)
  show "queue demo_live = [demo_cp Building {}]" by (simp add: demo_live_def demo_store_def queue_def)
qed

lemma demo_inclusion:
  assumes "st_headers st = dq_of demo_chain" and "m \<le> 1"
  shows "verify_inclusion std_ext st 802369 [1, 1] m = Ok [1, 1]"
proof -
  have h: "dq_ok (st_headers st)" "header_items st = demo_chain"
    using assms(1) by (simp_all add: header_items_def demo_chain_def demo_headers_def)
  have "HeaderQueue_get_initial_height std_ext st = Ok 802368"
    unfolding std.header_reads(3) [OF h(1)] h(2)
    by (simp add: demo_chain_def demo_headers_def header_sels mainnet_defs Let_def)
  then have "HeaderQueue_get_by_height std_ext st 802369 None = Ok (Some \<lparr>kh_chain_work = 2, kh_header = demo_header 1 4602308 11\<rparr>)"
    by (simp add: HeaderQueue_get_by_height_def std.header_reads(4) [OF h(1)] h(2)
        demo_chain_def demo_headers_def vec_get_def)
  moreover have "HeaderQueue_height std_ext st = 802370"
    unfolding std.header_reads(1) [OF h(1)] h(2) by (simp add: demo_chain_def demo_header_def header_sels)
  ultimately show ?thesis
    using assms(2) by (simp add: verify_inclusion_def sub_w_def std_sels WorkHeader_merkle_root_def demo_header_def)
qed

definition demo_tx :: "script \<Rightarrow> transaction" where
  "demo_tx s = \<lparr>btx_version = 1, btx_lock_time = 0, btx_input = [\<lparr>txi_previous_output = \<lparr>op_txid = [3], op_vout = 0\<rparr>,
     txi_script_sig = [], txi_sequence = 0, txi_witness = []\<rparr>], btx_output = [\<lparr>txo_value = 200000, txo_script_pubkey = s\<rparr>]\<rparr>"

definition demo_env :: "u64 \<Rightarrow> env" where
  "demo_env t = \<lparr>env_seconds = t, env_nanos = 0, env_contract = ''bridge''\<rparr>"

lemma demo_live_config:
  "st_bitcoin_config demo_live = Some (BitcoinConfig_bitcoin\<lparr>bc_min_withdrawal_checkpoints := 1\<rparr>)"
  "st_checkpoint_config demo_live = Some CheckpointConfig_default" "st_config demo_live = Some demo_config"
  "st_outpoints demo_live = {}" "st_fee_pool demo_live = Some 0" "st_confirmed_index demo_live = None"
  by (simp_all add: demo_live_def demo_store_def empty_store_def)

lemmas fee_consts = BitcoinConfig_bitcoin_def CheckpointConfig_default_def USER_FEE_FACTOR_def MAX_DEPOSIT_AGE_def
  SIGSET_THRESHOLD_def

lemma demo_give_fee:
  assumes "unpruned st 0" and "queue st = [demo_cp Building {}]" and "st_bitcoin_config st = st_bitcoin_config demo_live"
    and "st_fee_pool st = Some 0" and "n < 2 ^ 50"
  shows "\<exists>st'. Bitcoin_give_miner_fee std_ext st n = Ok st'"
proof -
  let ?st = "st\<lparr>st_fee_pool := Some (int n)\<rparr>"
  have u: "unpruned ?st 0" and q: "queue ?st = [demo_cp Building {}]" using assms(1,2) by simp_all
  have n: "as_u64 n = n" "as_i64 n = int n" "in_i64 (int n)" using assms(5) by (simp_all add: as_u64_def as_i64_small in_i64_def)
  have "n < 2 ^ 64" using assms(5) by simp
  then have "n div 1000000 < 2 ^ 64" by (rule le_less_trans [OF div_le_dividend])
  then show ?thesis
    using assms(3,4) n q std.set_unpruned [OF u] index_unpruned [OF u]
    by (simp add: Bitcoin_give_miner_fee_def Bitcoin_config_def demo_live_config Let_def Bitcoin_fee_pool_def add_i64_def
        std.building_unpruned [OF u] fee_consts div_r_def demo_cp_def add_w_def)
qed

lemma demo_deposit:
  "\<exists>s st'. Bitcoin_relay_deposit std_ext (demo_env 2000) demo_live (demo_tx s) 802369 [1, 1] 0 0 (Dest_Address ''u'') = Ok st'"
proof -
  let ?c = "BitcoinConfig_bitcoin\<lparr>bc_min_withdrawal_checkpoints := 1\<rparr>" and ?op = "\<lparr>op_txid = [1, 1], op_vout = 0\<rparr>"
  obtain r where r: "SignatorySet_redeem_script std_ext demo_set (as_bytes ''u'') SIGSET_THRESHOLD = Ok r"
    using demo_threshold by (simp add: SignatorySet_redeem_script_def Let_def demo_set_def)
  define s where "s = to_v0_p2wsh std_ext r"
  have s: "SignatorySet_output_script std_ext demo_set (as_bytes ''u'') SIGSET_THRESHOLD = Ok s"
    using r by (simp add: SignatorySet_output_script_def s_def)
  have txid: "tx_txid std_ext (demo_tx s) = [1, 1]" by (simp add: std_sels demo_tx_def)
  obtain ts where ts: "ThresholdSig_from_sigset demo_set = Ok ts"
    using from_sigset_ok [of demo_set] by (auto simp: demo_set_def)
  have est: "SignatorySet_est_witness_vsize demo_set = Ok 276"
    by (simp add: SignatorySet_est_witness_vsize_def demo_set_def mul_w_def add_w_def)
  obtain input where input: "Input_new std_ext ?op demo_set (as_bytes ''u'') 200000 SIGSET_THRESHOLD = Ok input"
      "in_est_witness_vsize input = 276"
    using s r est ts by (simp add: Input_new_def)
  define st0 where "st0 = OutpointSet_insert std_ext demo_live ?op (1000 + MAX_DEPOSIT_AGE)"
  have st0: "unpruned st0 0" "queue st0 = [demo_cp Building {}]" "st_bitcoin_config st0 = st_bitcoin_config demo_live"
      "st_fee_pool st0 = Some 0" "st_checkpoint_config st0 = Some CheckpointConfig_default" "st_config st0 = Some demo_config"
    using demo_live_unpruned by (simp_all add: st0_def OutpointSet_insert_def Let_def demo_live_queue demo_live_config)
  have fee: "Bitcoin_calc_minimum_deposit_fees st0 316 55 = Ok 46926000000"
    by (simp add: Bitcoin_calc_minimum_deposit_fees_def Bitcoin_config_def CheckpointQueue_config_def st0 demo_live_config fee_consts mul_w_def)
  obtain st1 where st1: "Bitcoin_give_miner_fee std_ext st0 46926000000 = Ok st1"
    using demo_give_fee [OF st0(1-4), of 46926000000] by auto
  note G = std.give_miner_fee_unpruned [OF st0(1) st1 st0(3) [unfolded demo_live_config]]
  have tx: "\<exists>tx. first_tx (last (queue st0)) = Ok tx"
    by (simp add: st0 first_tx_def demo_cp_def index_r_def BatchType_Checkpoint_def)
  have get: "CheckpointQueue_get std_ext demo_live 0 = Ok (demo_cp Building {})"
    by (simp add: std.get_unpruned [OF demo_live_unpruned] demo_live_queue)
  have "0 < length (queue st1)" using G(4) st0(2) by simp
  moreover have "bc_min_confirmations ?c = 1" "bc_max_deposit_age ?c = 1209600" "bc_units_per_sat ?c = 1000000"
    by (simp_all add: fee_consts)
  moreover have "cp_sigset (demo_cp Building {}) = demo_set" "cp_deposits_enabled (demo_cp Building {})"
      "cp_fee_rate (demo_cp Building {}) = 55" "ss_create_time demo_set = 1000"
    by (simp_all add: demo_cp_def demo_set_def)
  moreover have "btx_output (demo_tx s) = [\<lparr>txo_value = 200000, txo_script_pubkey = s\<rparr>]" by (simp add: demo_tx_def)
  moreover have "cc_sigset_threshold CheckpointConfig_default = SIGSET_THRESHOLD" by (simp add: CheckpointConfig_default_def)
  moreover have "verify_inclusion std_ext demo_live 802369 [1, 1] 1 = Ok [1, 1]" by (rule demo_inclusion) (simp_all add: demo_live_def)
  moreover have "OutpointSet_insert std_ext demo_live ?op (1000 + 1209600) = st0" by (simp add: st0_def MAX_DEPOSIT_AGE_def)
  ultimately have "\<exists>st'. Bitcoin_relay_deposit std_ext (demo_env 2000) demo_live (demo_tx s) 802369 [1, 1] 0 0 (Dest_Address ''u'') = Ok st'"
    using tx G(6,7) input s txid get fee st1 est std.set_unpruned [OF G(2), of 0]
    by (auto simp: Bitcoin_relay_deposit_def deposit_checks_def Bitcoin_config_def demo_live_config Let_def
        CheckpointQueue_config_def Dest_commitment_bytes_def OutpointSet_contains_def add_w_def
        Input_est_vsize_def mul_w_def st0 checked_sub_def calc_deposit_fee_def demo_env_def)
  then show ?thesis by blast
qed

theorem deposit_once_witness:
  "\<exists>s st'. Bitcoin_relay_deposit std_ext (demo_env 2000) demo_live (demo_tx s) 802369 [1, 1] 0 0 (Dest_Address ''u'') = Ok st' \<and>
     (\<forall>r. execute std_ext (demo_env 2000) st' \<lparr>mi_sender = ''u'', mi_funds = []\<rparr>
        (RelayDeposit (demo_tx s) 802369 [1, 1] 0 0 (Dest_Address ''u'')) \<noteq> Ok r)"
proof -
  obtain s st' where st': "Bitcoin_relay_deposit std_ext (demo_env 2000) demo_live (demo_tx s) 802369 [1, 1] 0 0 (Dest_Address ''u'') = Ok st'"
    using demo_deposit by blast
  from deposit_once [OF this rtranclp.rtrancl_refl] st' show ?thesis by blast
qed

theorem deposit_accounting_witness:
  "\<exists>s st' b coin fee. Bitcoin_relay_deposit std_ext (demo_env 2000) demo_live (demo_tx s) 802369 [1, 1] 0 0 (Dest_Address ''u'') = Ok st' \<and>
     queue st' = [b] \<and> cp_pending b = cp_pending (demo_cp Building {}) @ [(Dest_Address ''u'', coin)] \<and>
     coin_amount coin + fee = 200000 * 1000000"
proof -
  obtain s st' where st': "Bitcoin_relay_deposit std_ext (demo_env 2000) demo_live (demo_tx s) 802369 [1, 1] 0 0 (Dest_Address ''u'') = Ok st'"
    using demo_deposit by blast
  have get: "CheckpointQueue_get std_ext demo_live 0 = Ok (demo_cp Building {})"
    by (simp add: std.get_unpruned [OF demo_live_unpruned] demo_live_queue)
  have "env_seconds (demo_env 2000) \<le> ss_create_time (cp_sigset (demo_cp Building {})) + bc_max_deposit_age (BitcoinConfig_bitcoin\<lparr>bc_min_withdrawal_checkpoints := 1\<rparr>)"
    by (simp add: demo_env_def demo_cp_def demo_set_def fee_consts)
  from deposit_accounting [OF std.contract_deques_axioms demo_live_unpruned demo_live_config(1) st' get this]
  obtain b coin fee where "queue st' = butlast (queue demo_live) @ [b]" "cp_pending b = cp_pending (last (queue demo_live)) @ [(Dest_Address ''u'', coin)]"
      "coin_amount coin + fee = txo_value (btx_output (demo_tx s) ! 0) * bc_units_per_sat (BitcoinConfig_bitcoin\<lparr>bc_min_withdrawal_checkpoints := 1\<rparr>)"
    by blast
  then have "queue st' = [b]" "cp_pending b = cp_pending (demo_cp Building {}) @ [(Dest_Address ''u'', coin)]" "coin_amount coin + fee = 200000 * 1000000"
    by (simp_all add: demo_live_queue demo_tx_def fee_consts)
  then show ?thesis using st' by blast
qed


lemma demo_withdraw: "\<exists>st'. Bitcoin_add_withdrawal std_ext demo_live [1, 2, 3] 200000000000 = Ok st'"
proof -
  let ?c = "BitcoinConfig_bitcoin\<lparr>bc_min_withdrawal_checkpoints := 1\<rparr>"
  have fee: "Bitcoin_calc_minimum_withdrawal_fees demo_live 3 55 = Ok 1782000000"
    by (simp add: Bitcoin_calc_minimum_withdrawal_fees_def Bitcoin_config_def CheckpointQueue_config_def demo_live_config fee_consts
        mul_w_def add_w_def)
  then have fee': "Bitcoin_calc_minimum_withdrawal_fees demo_live (Suc (Suc (Suc 0))) 55 = Ok 1782000000"
    by (simp add: numeral_3_eq_3)
  obtain st1 where st1: "Bitcoin_give_miner_fee std_ext demo_live 1782000000 = Ok st1"
    using demo_give_fee [OF demo_live_unpruned demo_live_queue refl demo_live_config(5), of 1782000000] by auto
  note G = std.give_miner_fee_unpruned [OF demo_live_unpruned st1 demo_live_config(1)]
  have "\<exists>tx. first_tx (last (queue demo_live)) = Ok tx"
    by (simp add: demo_live_queue first_tx_def demo_cp_def index_r_def BatchType_Checkpoint_def)
  moreover have "bc_max_withdrawal_script_length ?c = 64" "bc_min_withdrawal_checkpoints ?c = 1" "bc_units_per_sat ?c = 1000000"
    by (simp_all add: fee_consts)
  moreover have "CheckpointQueue_building std_ext demo_live = Ok (demo_cp Building {})" "cp_fee_rate (demo_cp Building {}) = 55"
    by (simp_all add: std.building_unpruned [OF demo_live_unpruned] demo_live_queue demo_cp_def)
  moreover have "CheckpointQueue_len std_ext demo_live = 1" by (simp add: std.len_queue demo_live_queue)
  moreover have "queue st1 \<noteq> []" using G(4) demo_live_queue by simp
  ultimately show ?thesis
    using fee' st1 G(6,7) std.set_unpruned [OF G(2), of 0]
    by (auto simp: Bitcoin_add_withdrawal_def Bitcoin_config_def demo_live_config Let_def checked_sub_def as_u64_def div_r_def std_sels)
qed

theorem withdrawal_accounting_witness:
  "\<exists>st' b tx fee. Bitcoin_add_withdrawal std_ext demo_live [1, 2, 3] 200000000000 = Ok st' \<and> queue st' = [b] \<and>
     first_tx b = Ok (tx\<lparr>bt_output := bt_output tx @ [\<lparr>txo_value = (200000000000 - fee) mod 2 ^ 64 div 1000000, txo_script_pubkey = [1, 2, 3]\<rparr>]\<rparr>)"
proof -
  obtain st' where st': "Bitcoin_add_withdrawal std_ext demo_live [1, 2, 3] 200000000000 = Ok st'" using demo_withdraw by blast
  have u: "bc_units_per_sat (BitcoinConfig_bitcoin\<lparr>bc_min_withdrawal_checkpoints := 1\<rparr>) = 1000000" by (simp add: fee_consts)
  from withdrawal_accounting [OF std.contract_deques_axioms demo_live_unpruned demo_live_config(1) st', unfolded u]
  obtain b tx fee where "queue st' = butlast (queue demo_live) @ [b]"
      "first_tx b = Ok (tx\<lparr>bt_output := bt_output tx @ [\<lparr>txo_value = (200000000000 - fee) mod 2 ^ 64 div 1000000, txo_script_pubkey = [1, 2, 3]\<rparr>]\<rparr>)"
    by blast
  then show ?thesis using st' by (simp add: demo_live_queue) blast
qed

definition demo_paid :: checkpoint where
  "demo_paid = set_first_tx (demo_cp Complete {}) \<lparr>bt_lock_time = 0, bt_signed_inputs = 0, bt_input = [demo_input {}], bt_output = [demo_out 5]\<rparr>"

definition demo_conf :: store where
  "demo_conf = (demo_store [demo_paid, demo_cp Building {}] 1)\<lparr>st_headers := dq_of demo_chain\<rparr>"

lemma demo_confirm: "\<exists>st'. Bitcoin_relay_checkpoint std_ext demo_conf 802369 [1, 1] 0 = Ok st'"
proof -
  have "unpruned (demo_store [demo_paid, demo_cp Building {}] 1) 1" by (rule unpruned_demo_store) simp_all
  then have u: "unpruned demo_conf 1" by (rule unpruned_cong [THEN iffD2, rotated 2]) (simp_all add: demo_conf_def)
  have "queue demo_conf = [demo_paid, demo_cp Building {}]" by (simp add: demo_conf_def demo_store_def queue_def)
  then have "CheckpointQueue_get std_ext demo_conf 0 = Ok demo_paid" by (simp add: std.get_unpruned [OF u])
  moreover have "\<not> ThresholdSig_signed (demo_ts {})" by (simp add: ThresholdSig_signed_def demo_ts_def Let_def)
  then have "\<exists>tx. Checkpoint_checkpoint_tx std_ext demo_paid = Ok tx \<and> tx_txid std_ext tx = [1, 1]"
    by (simp add: Checkpoint_checkpoint_tx_def demo_paid_def set_first_tx_def Let_def demo_cp_def index_r_def BatchType_Checkpoint_def
        vec_last_def BitcoinTx_to_bitcoin_tx_def Input_to_txin_def demo_input_def ThresholdSig_to_witness_def std_sels)
  moreover have "verify_inclusion std_ext demo_conf 802369 [1, 1] 0 = Ok [1, 1]"
    by (rule demo_inclusion) (simp_all add: demo_conf_def)
  moreover have "st_confirmed_index demo_conf = None" "st_bitcoin_config demo_conf = Some BitcoinConfig_bitcoin"
    by (simp_all add: demo_conf_def demo_store_def empty_store_def)
  moreover have "bc_min_checkpoint_confirmations BitcoinConfig_bitcoin = 0" by (simp add: BitcoinConfig_bitcoin_def)
  ultimately show ?thesis
    by (auto simp: Bitcoin_relay_checkpoint_def Bitcoin_config_def CheckpointQueue_confirmed_index_def)
qed

theorem checkpoint_confirmation_witness:
  "\<exists>st' cp tx. Bitcoin_relay_checkpoint std_ext demo_conf 802369 [1, 1] 0 = Ok st' \<and> st_confirmed_index st' = Some 0 \<and>
     CheckpointQueue_get std_ext demo_conf 0 = Ok cp \<and> Checkpoint_checkpoint_tx std_ext cp = Ok tx"
proof -
  obtain st' where st': "Bitcoin_relay_checkpoint std_ext demo_conf 802369 [1, 1] 0 = Ok st'" using demo_confirm by blast
  from checkpoint_confirmation [OF this] st' show ?thesis by fastforce
qed

theorem pending_paid_again_after_prune_witness:
  "\<exists>st' st''. take_pending std_ext demo_pruned [1] = Ok ([cp_pending (demo_cp Building {})], st') \<and>
     take_pending std_ext st' [1] = Ok ([cp_pending (demo_cp Building {})], st'')"
proof -
  have len: "1 + length (queue demo_pruned) = 1 + 1" by (simp add: demo_pruned_ok(3))
  have "CheckpointQueue_get std_ext demo_pruned 1 = Ok (demo_cp Building {})"
    using std.get_eq [OF demo_pruned_ok(1), of 1] by (simp add: demo_pruned_ok(3))
  with pending_paid_again_after_prune [OF std.contract_deques_axioms demo_pruned_ok(1,2) _ len, of 1] show ?thesis by auto
qed

section \<open>The contract as a whole\<close>

text \<open>A store at the end of a block: one complete checkpoint with a pending transfer, and one being built.\<close>

definition demo_block :: store where
  "demo_block = (demo_store [demo_paid, demo_cp Building {}] 1)\<lparr>st_config := Some demo_config\<rparr>"

lemma demo_block_unpruned: "unpruned demo_block 1" and demo_block_queue: "queue demo_block = [demo_paid, demo_cp Building {}]"
proof -
  have "unpruned (demo_store [demo_paid, demo_cp Building {}] 1) 1" by (rule unpruned_demo_store) simp_all
  then show "unpruned demo_block 1" by (rule unpruned_cong [THEN iffD2, rotated 2]) (simp_all add: demo_block_def)
  show "queue demo_block = [demo_paid, demo_cp Building {}]" by (simp add: demo_block_def demo_store_def queue_def)
qed

lemma demo_block_items:
  "st_confirmed_index demo_block = None" "st_config demo_block = Some demo_config" "st_token_fee_ratio demo_block = None"
  "st_bitcoin_config demo_block = Some BitcoinConfig_bitcoin" "st_checkpoint_config demo_block = Some CheckpointConfig_default"
  "st_block_hashes demo_block = {}"
  by (simp_all add: demo_block_def demo_store_def empty_store_def)

lemma demo_paid_simps: "cp_status demo_paid = Complete" "cp_pending demo_paid = cp_pending (demo_cp Building {})"
  by (simp_all add: demo_paid_def demo_cp_def set_first_tx_def Let_def)

lemma demo_block_take:
  "\<exists>st1. Bitcoin_take_pending_completed std_ext demo_block = Ok ([cp_pending demo_paid], st1) \<and> unpruned st1 1 \<and>
     queue st1 = [demo_paid\<lparr>cp_pending := []\<rparr>, demo_cp Building {}]"
proof -
  have conf: "Bitcoin_take_pending_confirmed std_ext demo_block = Ok ([], demo_block)"
    by (simp add: Bitcoin_take_pending_confirmed_def CheckpointQueue_unhandled_confirmed_def CheckpointQueue_confirmed_index_def
        demo_block_items)
  have last: "CheckpointQueue_last_completed_index std_ext demo_block = Ok 0"
    by (simp add: CheckpointQueue_last_completed_index_def std.signing_unpruned [OF demo_block_unpruned]
        index_unpruned [OF demo_block_unpruned] checked_sub_def demo_block_queue demo_paid_simps)
  obtain st1 where set: "CheckpointQueue_set std_ext demo_block 0 (demo_paid\<lparr>cp_pending := []\<rparr>) = Ok st1"
    by (simp add: std.set_unpruned [OF demo_block_unpruned] demo_block_queue)
  note S = std.set_unpruned_Inr [OF demo_block_unpruned set]
  have "Bitcoin_take_pending_completed std_ext demo_block = Ok ([cp_pending demo_paid], st1)"
    using conf last set
    by (simp add: Bitcoin_take_pending_completed_def CheckpointQueue_confirmed_index_def demo_block_items
        std.get_unpruned [OF demo_block_unpruned] demo_block_queue)
  then show ?thesis using S(1,2) demo_block_queue by simp
qed

lemma demo_block_ends:
  "\<exists>msgs st'. clock_end_block std_ext (demo_env 1001) demo_block [9] = Ok (msgs, st')"
proof -
  obtain st1 where take: "Bitcoin_take_pending_completed std_ext demo_block = Ok ([cp_pending demo_paid], st1)"
      and u: "unpruned st1 1" and q: "queue st1 = [demo_paid\<lparr>cp_pending := []\<rparr>, demo_cp Building {}]"
    using demo_block_take by blast
  have items: "st_config st1 = Some demo_config" "st_token_fee_ratio st1 = None"
      "st_bitcoin_config st1 = Some BitcoinConfig_bitcoin" "st_checkpoint_config st1 = Some CheckpointConfig_default"
    using settings.take_pending_completed_R [OF take] by (simp_all add: settings_kept_def demo_block_items)
  have pay: "\<exists>msgs. fold_r (payout_msgs std_ext (demo_env 1001) st1 demo_config) (cp_pending demo_paid) [] = Ok msgs"
    by (simp add: demo_paid_simps demo_cp_def payout_msgs_def process_deduct_fee_def deduct_token_fee_def items
        deduct_relayer_fee_def demo_config_def denom_to_asset_info_def get_swap_token_amount_out_def std_sels checked_sub_def Let_def)
  have last: "CheckpointQueue_last_completed_index std_ext st1 = Ok 0"
    by (simp add: CheckpointQueue_last_completed_index_def std.signing_unpruned [OF u] index_unpruned [OF u] checked_sub_def q demo_paid_simps)
  have unsigned: "\<not> ThresholdSig_signed (demo_ts {})" by (simp add: ThresholdSig_signed_def demo_ts_def Let_def)
  have locked: "\<exists>n. Bitcoin_value_locked std_ext st1 = Ok n"
    using unsigned
    by (simp add: Bitcoin_value_locked_def CheckpointQueue_last_completed_def last std.get_unpruned [OF u] q
        Checkpoint_reserve_output_def Checkpoint_checkpoint_tx_def demo_paid_def set_first_tx_def Let_def demo_cp_def index_r_def
        BatchType_Checkpoint_def vec_last_def BitcoinTx_to_bitcoin_tx_def Input_to_txin_def demo_input_def
        ThresholdSig_to_witness_def std_sels)
  have "CheckpointQueue_should_push std_ext (demo_env 1001) st1 tc h = Ok False" for tc h
    by (simp add: CheckpointQueue_should_push_def std.signing_unpruned [OF u] q demo_paid_simps std.is_empty_queue
        should_push_building_def std.building_unpruned [OF u] demo_env_def Checkpoint_create_time_def demo_cp_def demo_set_def
        CheckpointQueue_config_def items sub_w_def CheckpointConfig_default_def)
  then have "\<exists>st'. Bitcoin_begin_block_step std_ext (demo_env 1001) st1 [9] = Ok ([], st')"
    using locked last
    by (auto simp: Bitcoin_begin_block_step_def Bitcoin_config_def items CheckpointQueue_maybe_step_def Let_def)
  then show ?thesis
    using take pay by (auto simp: clock_end_block_def items demo_block_items)
qed

theorem block_mints_transfers_witness:
  "\<exists>msgs st'. clock_end_block std_ext (demo_env 1001) demo_block [9] = Ok (msgs, st') \<and> minted ''btc'' msgs = 5"
proof -
  obtain msgs st' where st': "clock_end_block std_ext (demo_env 1001) demo_block [9] = Ok (msgs, st')"
    using demo_block_ends by blast
  obtain st1 where "Bitcoin_take_pending_completed std_ext demo_block = Ok ([cp_pending demo_paid], st1)"
    using demo_block_take by blast
  with block_mints_transfers [OF st', of "''btc''"] have "minted ''btc'' msgs = owed ''btc'' (cp_pending demo_paid)"
    by (auto simp: demo_paid_simps demo_cp_def payable_def)
  then show ?thesis using st' by (auto simp: owed_def demo_paid_simps demo_cp_def)
qed

theorem settings_of_owner_witness:
  "\<exists>msgs st'. execute std_ext (demo_env 1001) demo_block \<lparr>mi_sender = ''u'', mi_funds = []\<rparr> (TriggerBeginBlock [9]) = Ok (msgs, st') \<and>
     settings_kept demo_block st'"
proof -
  obtain msgs st' where "execute std_ext (demo_env 1001) demo_block \<lparr>mi_sender = ''u'', mi_funds = []\<rparr> (TriggerBeginBlock [9]) = Ok (msgs, st')"
    using demo_block_ends by (auto simp: execute_def)
  moreover from settings_of_owner [OF demo_block_items(2) _ this] have "settings_kept demo_block st'"
    by (simp add: demo_config_def)
  ultimately show ?thesis by blast
qed

section \<open>Queries\<close>

text \<open>Exact arithmetic in place of \<^verbatim>\<open>f64\<close>.\<close>

definition demo_f64 :: "rat f64_ops" where
  "demo_f64 = \<lparr>f64_of_u64 = of_nat, f64_add = (+), f64_sub = (-), f64_mul = (*), f64_div = (/), f64_gt = (>),
     f64_as_u16 = (\<lambda>x. nat (floor x)), hash_order = id\<rparr>"

text \<open>A reserve of five that shrinks to three.\<close>

definition demo_rates :: store where
  "demo_rates = demo_store [demo_paid, set_first_tx (demo_cp Signing {})
     \<lparr>bt_lock_time = 0, bt_signed_inputs = 0, bt_input = [demo_input {}], bt_output = [demo_out 3]\<rparr>, demo_cp Building {}] 2"

lemma demo_change_rates: "Bitcoin_change_rates std_ext demo_f64 demo_rates 1000 1000 = Ok \<lparr>cr_withdrawal = 4000, cr_sigset_change = 0\<rparr>"
proof -
  let ?signing = "set_first_tx (demo_cp Signing {})
     \<lparr>bt_lock_time = 0, bt_signed_inputs = 0, bt_input = [demo_input {}], bt_output = [demo_out 3]\<rparr>"
  have u: "unpruned demo_rates 2" unfolding demo_rates_def by (rule unpruned_demo_store) simp_all
  have q: "queue demo_rates = [demo_paid, ?signing, demo_cp Building {}]" by (simp add: demo_rates_def)
  have status: "cp_status (demo_cp Signing {}) = Signing" by (simp add: demo_cp_def)
  have signing: "CheckpointQueue_signing std_ext demo_rates = Ok (Some ?signing)"
    by (simp add: std.signing_unpruned [OF u] q status)
  have "\<not> ThresholdSig_signed (demo_ts {})" by (simp add: ThresholdSig_signed_def demo_ts_def Let_def)
  then have out: "Checkpoint_reserve_output std_ext demo_paid = Ok (Some (demo_out 5))"
      "Checkpoint_reserve_output std_ext ?signing = Ok (Some (demo_out 3))"
    by (simp_all add: Checkpoint_reserve_output_def Checkpoint_checkpoint_tx_def demo_paid_def set_first_tx_def Let_def demo_cp_def
        index_r_def BatchType_Checkpoint_def vec_last_def BitcoinTx_to_bitcoin_tx_def Input_to_txin_def demo_input_def
        ThresholdSig_to_witness_def std_sels)
  have completed: "CheckpointQueue_completed std_ext demo_rates 4 = Ok [demo_paid]"
    by (simp add: CheckpointQueue_completed_def std.len_queue q signing index_unpruned [OF u] sub_w_def
        std.get_unpruned [OF u] Let_def)
  have time: "Checkpoint_create_time demo_paid = 1000" "Checkpoint_create_time ?signing = 1000"
    by (simp_all add: Checkpoint_create_time_def demo_paid_def set_first_tx_def demo_cp_def demo_set_def Let_def)
  have "st_sig_keys demo_rates = []" "CheckpointQueue_config demo_rates = Ok CheckpointConfig_default"
    by (simp_all add: demo_rates_def demo_store_def empty_store_def CheckpointQueue_config_def)
  moreover have "cc_min_checkpoint_interval CheckpointConfig_default = 300" by (simp add: CheckpointConfig_default_def)
  ultimately show ?thesis
    using signing out completed time
    by (simp add: Bitcoin_change_rates_def Let_def div_r_def add_w_def as_u32_def sub_w_def vec_get_def vp_shares_def mul_w_def
        as_u16_def sigset_change_def demo_f64_def demo_out_def)
qed

theorem change_rates_withdrawal_witness:
  "\<exists>r prev_out now_out. Bitcoin_change_rates std_ext demo_f64 demo_rates 1000 1000 = Ok r \<and> cr_withdrawal r = 4000 \<and>
     Checkpoint_reserve_output std_ext (queue demo_rates ! 0) = Ok (Some prev_out) \<and>
     Checkpoint_reserve_output std_ext (queue demo_rates ! 1) = Ok (Some now_out) \<and>
     cr_withdrawal r = (txo_value prev_out - txo_value now_out) * 10000 div txo_value prev_out"
proof -
  have u: "unpruned demo_rates 2" and n: "length (queue demo_rates) = 3"
    unfolding demo_rates_def by (rule unpruned_demo_store) simp_all
  have ok: "queue_ok demo_rates 2" using u by (simp add: unpruned_def)
  have c: "\<not> ((1000::nat) < 1000 \<and> Checkpoint_create_time (queue demo_rates ! (3 - 2)) < 1000 - 1000 \<or> 3 = (2::nat))" by simp
  obtain j prev_out now_out where "j + 2 < (3::nat)"
      and o: "Checkpoint_reserve_output std_ext (queue demo_rates ! j) = Ok (Some prev_out)"
        "Checkpoint_reserve_output std_ext (queue demo_rates ! (3 - 2)) = Ok (Some now_out)"
      and r: "cr_withdrawal \<lparr>cr_withdrawal = 4000, cr_sigset_change = 0\<rparr> =
        (txo_value prev_out - txo_value now_out) * 10000 div txo_value prev_out"
    using change_rates_withdrawal [OF std.contract_deques_axioms ok demo_change_rates, unfolded Let_def n if_not_P [OF c]] by blast
  then have "j = 0" by simp
  with o r demo_change_rates show ?thesis by auto
qed

end
