(* ===== verification/Ledger.thy ===== *)
theory Ledger
  imports Safety
begin

text \<open>
  The books of the bridge: what the contract has promised (tokens minted and not burned, transfers that are
  pending, the fee pool) against what it holds (the Bitcoin transaction of the checkpoint being built). Every
  operation is a lemma about the \<open>balance\<close> of the store; the runs that log deposits and messages carry them to
  the two properties at the end.
\<close>

section \<open>The balance of a store\<close>

text \<open>The transfers that wait in a checkpoint, in units of the token, whatever their denomination.\<close>

definition transfers :: "(dest \<times> coin) list \<Rightarrow> nat" where
  "transfers ts = sum_list (map (coin_amount \<circ> snd) ts)"

definition due :: "store \<Rightarrow> nat" where
  "due st = sum_list (map (transfers \<circ> cp_pending) (queue st))"

text \<open>What the transaction of a checkpoint spends, and what is left of it after its outputs, in satoshis.\<close>

definition tx_in :: "checkpoint \<Rightarrow> nat" where
  "tx_in cp = (case first_tx cp of Inr tx \<Rightarrow> sum_list (map in_amount (bt_input tx)) | Inl _ \<Rightarrow> 0)"

definition tx_net :: "checkpoint \<Rightarrow> int" where
  "tx_net cp = (case first_tx cp of
     Inr tx \<Rightarrow> int (sum_list (map in_amount (bt_input tx))) - int (sum_list (map txo_value (bt_output tx)))
   | Inl _ \<Rightarrow> 0)"

text \<open>The reserve: what the transaction of the last checkpoint, the one being built, leaves.\<close>

definition reserve :: "store \<Rightarrow> int" where
  "reserve st = (if queue st = [] then 0 else tx_net (last (queue st)))"

definition holdings :: "store \<Rightarrow> nat" where
  "holdings st = (if queue st = [] then 0 else tx_in (last (queue st)))"

definition balance :: "nat \<Rightarrow> store \<Rightarrow> int" where
  "balance u st = int u * reserve st - int (due st) - Bitcoin_fee_pool st"

text \<open>The units of the token per satoshi.\<close>

definition priced :: "nat \<Rightarrow> store \<Rightarrow> bool" where
  "priced u st \<longleftrightarrow> (\<exists>config. st_bitcoin_config st = Some config \<and> bc_units_per_sat config = u)"

lemma transfers_simps [simp]: "transfers [] = 0" "transfers (ts @ ts') = transfers ts + transfers ts'"
  "transfers (t # ts) = coin_amount (snd t) + transfers ts"
  by (simp_all add: transfers_def)

text \<open>The tokens that a list of messages mints and burns, whatever their denomination.\<close>

fun tokens_minted :: "cosmos_msg list \<Rightarrow> nat" where
  "tokens_minted [] = 0"
| "tokens_minted (MintTokens tf d n receiver # msgs) = n + tokens_minted msgs"
| "tokens_minted (_ # msgs) = tokens_minted msgs"

fun tokens_burned :: "cosmos_msg list \<Rightarrow> nat" where
  "tokens_burned [] = 0"
| "tokens_burned (BurnTokens tf d n from # msgs) = n + tokens_burned msgs"
| "tokens_burned (_ # msgs) = tokens_burned msgs"

lemma tokens_append [simp]: "tokens_minted (ms @ ms') = tokens_minted ms + tokens_minted ms'"
  "tokens_burned (ms @ ms') = tokens_burned ms + tokens_burned ms'"
  by (induction ms rule: tokens_minted.induct; simp)+

lemma tokens_payouts:
  assumes "fold_r (payout_msgs E env st config) ds msgs = Inr msgs'"
  shows "tokens_minted msgs' \<le> tokens_minted msgs + transfers ds \<and> tokens_burned msgs' = tokens_burned msgs"
  using assms
proof (induction ds arbitrary: msgs)
  case (Cons t ds)
  obtain d c where t: "t = (d, c)" by (cases t)
  obtain msgs1 where 1: "payout_msgs E env st config (d, c) msgs = Inr msgs1"
      and 2: "fold_r (payout_msgs E env st config) ds msgs1 = Inr msgs'"
    using Cons.prems by (auto simp: t ok_simps)
  obtain fd where fd: "process_deduct_fee E st c = Inr fd" using 1 by (auto simp: payout_msgs_def ok_simps)
  have "tokens_minted msgs1 \<le> tokens_minted msgs + coin_amount c \<and> tokens_burned msgs1 = tokens_burned msgs"
    using 1 fd process_deduct_fee_sum(1) [OF fd]
    by (auto simp: payout_msgs_def Dest_build_cosmos_msg_def Let_def split: dest.splits option.splits if_splits)
  then show ?case using Cons.IH [OF 2] by (simp add: t)
qed simp

text \<open>The handlers that leave the queue and the fee pool alone leave the books alone.\<close>

definition books_kept :: "store \<Rightarrow> store \<Rightarrow> bool" where
  "books_kept st st' \<longleftrightarrow> st_checkpoints st' = st_checkpoints st \<and> st_fee_pool st' = st_fee_pool st"

lemma balance_kept: "books_kept st st' \<Longrightarrow> balance u st' = balance u st"
  and due_kept: "books_kept st st' \<Longrightarrow> due st' = due st"
  by (simp_all add: books_kept_def queue_def balance_def reserve_def due_def Bitcoin_fee_pool_def)

lemma queue_kept_books: "queue_kept st st' \<Longrightarrow> books_kept st st'"
  by (simp add: queue_kept_def books_kept_def)

lemma owner_msg_books:
  assumes "owner_msg msg" and "execute E env st info msg = Inr (msgs, st')"
  shows "books_kept st st'" and "tokens_minted msgs = 0" and "tokens_burned msgs = 0"
  using assms queue_kept_books [OF add_validators_kept]
  by (cases msg;
      auto simp: execute_def update_config_def update_bitcoin_config_def update_checkpoint_config_def update_header_config_def
        HeaderQueue_configure_def add_validators_def register_denom_def change_btc_denom_owner_def Let_def ok_simps books_kept_def)+

lemma sum_list_replace:
  fixes f :: "'a \<Rightarrow> nat"
  assumes "j < length xs"
  shows "sum_list (map f (xs[j := y])) + f (xs ! j) = sum_list (map f xs) + f y"
proof -
  have "f (xs ! j) \<le> sum_list (map f xs)" using assms by (intro member_le_sum_list) auto
  then show ?thesis using assms by (simp add: map_update sum_list_update)
qed

lemma as_i64_le: "as_i64 (as_u64 n) \<le> int n"
proof -
  have "int (n mod 2 ^ 64) \<le> int n" by (simp only: of_nat_le_iff mod_less_eq_dividend)
  then show ?thesis by (auto simp: as_i64_def as_u64_def Let_def)
qed

lemma tx_net_frame [simp]:
  "tx_net (cp\<lparr>cp_fees_collected := n\<rparr>) = tx_net cp" "tx_net (cp\<lparr>cp_pending := p\<rparr>) = tx_net cp"
  by (simp_all add: tx_net_def)

lemma tx_net_first: "first_tx cp = Inr tx \<Longrightarrow>
    tx_net cp = int (sum_list (map in_amount (bt_input tx))) - int (sum_list (map txo_value (bt_output tx)))"
  by (simp add: tx_net_def)

lemma tx_net_set: "first_tx cp = Inr tx \<Longrightarrow>
    tx_net (set_first_tx cp tx') = int (sum_list (map in_amount (bt_input tx'))) - int (sum_list (map txo_value (bt_output tx')))"
  by (simp add: tx_net_def first_tx_set_first_tx)

lemma pending_set_first_tx [simp]: "cp_pending (set_first_tx cp tx) = cp_pending cp"
  by (simp add: set_first_tx_def Let_def)

text \<open>
  What a deposit is worth to the contract: its value in units of the token, unless it comes too late, when it is
  handed to a recovery transaction instead.
\<close>

definition deposit_credit :: "'x contract_ext_scheme \<Rightarrow> env \<Rightarrow> store \<Rightarrow> transaction \<Rightarrow> u32 \<Rightarrow> u32 \<Rightarrow> nat" where
  "deposit_credit E env st btc_tx vout sigset_index =
     (case (st_bitcoin_config st, CheckpointQueue_get E st sigset_index) of
        (Some config, Inr cp) \<Rightarrow>
          if ss_create_time (cp_sigset cp) + bc_max_deposit_age config < env_seconds env then 0
          else txo_value (btx_output btc_tx ! vout) * bc_units_per_sat config
      | _ \<Rightarrow> 0)"

section \<open>What the operations do to the balance\<close>

text \<open>Freezing a checkpoint: the reserve output and what did not fit are all that is left, less the fee.\<close>

lemma sum_list_cut: "sum_list (map f (take n xs)) + sum_list (map f (rev (drop n xs))) = sum_list (map f xs)"
  for f :: "'a \<Rightarrow> nat"
  by (metis append_take_drop_id map_append rev_map sum_list_append sum_list_rev)

lemma advance_books:
  assumes "BuildingCheckpoint_advance E cp tc fees config = Inr (cp', op, rv, paid, xi, xo)"
  shows "tx_net cp = int rv + int (sum_list (map in_amount xi)) - int (sum_list (map txo_value xo)) + int paid"
    and "paid \<le> tx_in cp"
proof -
  from assms have "tx_net cp = int rv + int (sum_list (map in_amount xi)) - int (sum_list (map txo_value xo)) + int paid \<and>
    paid \<le> tx_in cp"
  proof (rule advance_Inr, goal_cases)
    case (1 tx outs ins btx)
    have "sum_list (map txo_value outs) = 0"
      using 1(2) by (auto simp: Checkpoint_additional_outputs_def ok_simps)
    then have "sum_list (map txo_value (take (cc_max_outputs config) (outs @ bt_output tx))) + sum_list (map txo_value xo) =
        sum_list (map txo_value (bt_output tx))"
      using sum_list_cut [of txo_value "cc_max_outputs config" "outs @ bt_output tx"] unfolding 1(4) by simp
    moreover have "sum_list (map in_amount (take (cc_max_inputs config) (bt_input tx))) + sum_list (map in_amount xi) =
        sum_list (map in_amount (bt_input tx))"
      unfolding 1(3) by (rule sum_list_cut)
    ultimately show ?case using 1(1,6,9) by (simp add: tx_net_first tx_in_def)
  qed
  then show "tx_net cp = int rv + int (sum_list (map in_amount xi)) - int (sum_list (map txo_value xo)) + int paid"
    and "paid \<le> tx_in cp" by blast+
qed

lemma carried_amounts: "map_r carry_input is = Inr js \<Longrightarrow> map in_amount js = map in_amount is"
  by (induction "is" arbitrary: js) (auto simp: bnd_Inr_iff carry_input_def)

context contract_deques
begin

lemma write_books:
  assumes i: "unpruned st i" and get: "CheckpointQueue_get E st j = Inr cp" and set: "CheckpointQueue_set E st j cp' = Inr st'"
  shows "due st' + transfers (cp_pending cp) = due st + transfers (cp_pending cp')"
    and "reserve st' - reserve st = (if j + 1 = length (queue st) then tx_net cp' - tx_net cp else 0)"
    and "st_fee_pool st' = st_fee_pool st" and "st_bitcoin_config st' = st_bitcoin_config st"
proof -
  note S = set_unpruned_Inr [OF i set]
  have cp: "cp = queue st ! j" using get S(3) by (simp add: get_unpruned [OF i])
  show "due st' + transfers (cp_pending cp) = due st + transfers (cp_pending cp')"
    using sum_list_replace [OF S(3), of "transfers \<circ> cp_pending" cp'] by (simp add: due_def S(2) cp)
  show "reserve st' - reserve st = (if j + 1 = length (queue st) then tx_net cp' - tx_net cp else 0)"
    using S(3) by (auto simp: reserve_def S(2) cp last_list_update last_conv_nth [of "queue st"])
  show "st_fee_pool st' = st_fee_pool st" "st_bitcoin_config st' = st_bitcoin_config st"
    using arg_cong [OF S(4), of st_fee_pool] arg_cong [OF S(4), of st_bitcoin_config] by simp_all
qed

lemma write_building_books:
  assumes i: "unpruned st i" and b: "CheckpointQueue_building E st = Inr cp" and j: "CheckpointQueue_index st = Inr j"
    and set: "CheckpointQueue_set E st j cp' = Inr st'"
  shows "due st' + transfers (cp_pending cp) = due st + transfers (cp_pending cp')"
    and "reserve st' - reserve st = tx_net cp' - tx_net cp"
    and "st_fee_pool st' = st_fee_pool st" and "st_bitcoin_config st' = st_bitcoin_config st" and "unpruned st' i"
proof -
  have get: "CheckpointQueue_get E st j = Inr cp" using b j by (simp add: CheckpointQueue_building_def)
  have "j + 1 = length (queue st)"
    using b i j by (auto simp: building_unpruned [OF i] index_unpruned [OF i] length_unpruned [OF i] split: if_splits)
  then show "due st' + transfers (cp_pending cp) = due st + transfers (cp_pending cp')"
      "reserve st' - reserve st = tx_net cp' - tx_net cp"
      "st_fee_pool st' = st_fee_pool st" "st_bitcoin_config st' = st_bitcoin_config st" "unpruned st' i"
    using write_books [OF i get set] set_unpruned_Inr(1) [OF i set] by simp_all
qed

lemma give_miner_fee_books:
  assumes i: "unpruned st i" and ok: "Bitcoin_give_miner_fee E st n = Inr st'"
  shows "due st' = due st" and "balance u st - int n \<le> balance u st'" and "unpruned st' i"
    and "st_bitcoin_config st' = st_bitcoin_config st"
proof -
  from ok have "due st' = due st \<and> balance u st - int n \<le> balance u st' \<and> unpruned st' i \<and>
    st_bitcoin_config st' = st_bitcoin_config st"
  proof (rule give_miner_fee_set, goal_cases)
    case (1 config cp index)
    let ?p = "Bitcoin_fee_pool st + as_i64 (as_u64 n)"
    let ?st = "st\<lparr>st_fee_pool := Some ?p\<rparr>"
    have i': "unpruned ?st i" using i by simp
    have index: "CheckpointQueue_index ?st = Inr index" using 1(4) by (simp add: CheckpointQueue_index_def)
    note W = write_building_books [OF i' 1(3) index 1(5)]
    have "due ?st = due st" "reserve ?st = reserve st" by (simp_all add: due_def reserve_def)
    then show ?case using W as_i64_le [of n] by (simp add: balance_def Bitcoin_fee_pool_def)
  qed
  then show "due st' = due st" and "balance u st - int n \<le> balance u st'" and "unpruned st' i"
    and "st_bitcoin_config st' = st_bitcoin_config st" by blast+
qed

lemma add_withdrawal_books:
  assumes i: "unpruned st i" and u: "priced u st" and ok: "Bitcoin_add_withdrawal E st script n = Inr st'"
  shows "due st' = due st" and "balance u st - int n \<le> balance u st'" and "unpruned st' i" and "priced u st'"
proof -
  from ok have "due st' = due st \<and> balance u st - int n \<le> balance u st' \<and> unpruned st' i \<and> priced u st'"
  proof (rule add_withdrawal_Inr, goal_cases)
    case (1 config fee st1 building tx index)
    note F = give_miner_fee_books [OF i 1(3)]
    note W = write_building_books [OF F(3) 1(6,8,9)]
    have u: "bc_units_per_sat config = u" using u 1(1) by (simp add: priced_def)
    let ?v = "as_u64 (n - fee) div u"
    have "?v * u \<le> n - fee"
      by (rule order_trans [OF div_times_less_eq_dividend]) (simp add: as_u64_def)
    then have "int u * int ?v \<le> int n - int fee" using 1(2) by (simp add: of_nat_diff [symmetric] of_nat_mult [symmetric] mult.commute del: of_nat_diff of_nat_mult)
    moreover have "reserve st' - reserve st1 = - int ?v"
      using W(2) 1(7) by (simp add: tx_net_first tx_net_set u)
    then have "int u * (reserve st' - reserve st1) = - (int u * int ?v)" by simp
    then have "int u * reserve st' = int u * reserve st1 - int u * int ?v" by (simp only: right_diff_distrib)
    ultimately show ?case
      using F(1,4) F(2) [of u] W u 1(1) by (simp add: balance_def Bitcoin_fee_pool_def priced_def)
  qed
  then show "due st' = due st" and "balance u st - int n \<le> balance u st'" and "unpruned st' i" and "priced u st'" by blast+
qed

lemma queue_sign_books:
  assumes i: "unpruned st i" and ss: "status_ok (map cp_status (queue st))" and sign: "CheckpointQueue_sign E st xpub sigs j h = Inr st'"
  shows "due st' = due st" and "balance u st' = balance u st"
proof -
  obtain cp cp1 where get: "CheckpointQueue_get E st j = Inr cp" and nb: "cp_status cp \<noteq> Building"
      and cp1: "Checkpoint_sign E cp xpub sigs h = Inr cp1"
      and set: "CheckpointQueue_set E st j (if cp_status cp = Signing \<and> Checkpoint_signed cp1
                          then (Checkpoint_advance cp1)\<lparr>cp_status := Complete\<rparr> else cp1) = Inr st'"
    using sign by (auto simp: CheckpointQueue_sign_def Let_def ok_simps)
  have cp: "j < length (queue st)" "cp = queue st ! j" using get by (auto simp: get_unpruned [OF i] split: if_splits)
  then have "j + 1 \<noteq> length (queue st)" using status_okD(1) [OF ss, of j] nb by auto
  moreover have "cp_pending cp1 = cp_pending cp" using cp1 by (rule Checkpoint_sign_Inr)
  ultimately show "due st' = due st" and "balance u st' = balance u st"
    using write_books [OF i get set] by (auto simp: balance_def Bitcoin_fee_pool_def Checkpoint_advance_def split: if_splits)
qed

lemma take_pending_books:
  "take_pending E st is = Inr (ds, st') \<Longrightarrow> unpruned st i \<Longrightarrow>
     transfers (concat ds) + due st' = due st \<and> reserve st' = reserve st \<and> holdings st' = holdings st \<and>
     st_fee_pool st' = st_fee_pool st \<and> st_bitcoin_config st' = st_bitcoin_config st"
proof (induction "is" arbitrary: st ds)
  case (Cons j "is")
  from Cons.prems(1) obtain cp st1 ds1 where get: "CheckpointQueue_get E st j = Inr cp"
      and set: "CheckpointQueue_set E st j (cp\<lparr>cp_pending := []\<rparr>) = Inr st1"
      and rest: "take_pending E st1 is = Inr (ds1, st')" and ds: "ds = cp_pending cp # ds1"
    by (auto simp: bnd_Inr_iff)
  note W = write_books [OF Cons.prems(2) get set] and S = set_unpruned_Inr [OF Cons.prems(2) set]
  have "holdings st1 = holdings st"
    using get S(3) by (auto simp: holdings_def S(2) get_unpruned [OF Cons.prems(2)] last_list_update last_conv_nth [of "queue st"] tx_in_def)
  then show ?case using Cons.IH [OF rest S(1)] W ds by (simp split: if_splits)
qed simp

lemma take_pending_completed_books:
  assumes i: "unpruned st i" and ok: "Bitcoin_take_pending_completed E st = Inr (ds, st')"
  shows "transfers (concat ds) + due st' \<le> due st" and "balance u st + int (transfers (concat ds)) \<le> balance u st'"
    and "holdings st' = holdings st" and "st_bitcoin_config st' = st_bitcoin_config st"
proof -
  obtain ds1 st1 where 1: "Bitcoin_take_pending_confirmed E st = Inr (ds1, st1)"
    using ok by (auto simp: Bitcoin_take_pending_completed_def ok_simps)
  then consider "ds1 = []" "st1 = st"
    | js s n where "take_pending E st js = Inr (ds1, s)" "st1 = s \<or> st1 = s\<lparr>st_first_unhandled_confirmed_index := n\<rparr>"
    by (auto simp: Bitcoin_take_pending_confirmed_def ok_simps split: sum.splits failure.splits option.splits)
  then have A: "transfers (concat ds1) + due st1 = due st \<and> reserve st1 = reserve st \<and> holdings st1 = holdings st \<and>
      st_fee_pool st1 = st_fee_pool st \<and> st_bitcoin_config st1 = st_bitcoin_config st"
  proof cases
    case (2 js s n)
    then show ?thesis using take_pending_books [OF 2(1) i] by (auto simp: due_def reserve_def holdings_def)
  qed simp
  have i1: "unpruned st1 i" by (rule take_pending_confirmed_Inr(1) [OF i 1])
  consider "st' = st1" "ds = []" | js ds2 where "take_pending E st1 js = Inr (ds2, st')" "ds = ds1 @ ds2"
    using ok 1
    by (cases "CheckpointQueue_last_completed_index E st1")
      (auto simp: Bitcoin_take_pending_completed_def Let_def ok_simps simp del: upt_Suc split: if_splits)
  then have "transfers (concat ds) + due st' \<le> due st \<and> reserve st' = reserve st \<and> holdings st' = holdings st \<and>
      st_fee_pool st' = st_fee_pool st \<and> st_bitcoin_config st' = st_bitcoin_config st"
  proof cases
    case (2 js ds2)
    then show ?thesis using take_pending_books [OF 2(1) i1] A by simp
  qed (use A in simp)
  then show "transfers (concat ds) + due st' \<le> due st" and "balance u st + int (transfers (concat ds)) \<le> balance u st'"
    and "holdings st' = holdings st" and "st_bitcoin_config st' = st_bitcoin_config st"
    by (simp_all add: balance_def Bitcoin_fee_pool_def)
qed

lemma relay_deposit_books:
  assumes i: "unpruned st i" and u: "priced u st"
    and ok: "Bitcoin_relay_deposit E env st btc_tx h proof vout k dest = Inr st'"
  shows "due st' \<le> due st + deposit_credit E env st btc_tx vout k" and "balance u st \<le> balance u st'"
proof -
  from ok have "due st' \<le> due st + deposit_credit E env st btc_tx vout k \<and> balance u st \<le> balance u st'"
  proof (rule relay_deposit_Inr, goal_cases)
    case (1 config cp cp_config bytes timeout st0)
    have kept: "queue_kept st st0" using quiet.outpoint_insert_R by (simp add: 1(11))
    have i0: "unpruned st0 i" using i kept unpruned_cong [of st0 st] by (simp add: queue_kept_def)
    have config: "bc_units_per_sat config = u" using u 1(1) by (simp add: priced_def)
    show ?case
    proof (cases "timeout < env_seconds env")
      case True
      then have "queue_kept st st'" using 1(12) quiet.create_recovery_R quiet.trans [OF kept] by blast
      then show ?thesis using balance_kept [OF queue_kept_books] due_kept [OF queue_kept_books] by simp
    next
      case False
      let ?v = "txo_value (btx_output btc_tx ! vout)"
      have credit: "deposit_credit E env st btc_tx vout k = ?v * u"
        using 1(1,4,10) False config by (simp add: deposit_credit_def)
      from 1(13) [OF False] show ?thesis
      proof (elim exE conjE, goal_cases)
        case (1 input size cfg fee st1 building tx index)
        note F = give_miner_fee_books [OF i0 1(7)]
        note W = write_building_books [OF F(3) 1(8,10,11)]
        have "in_amount input = ?v" using 1(1) by (auto simp: Input_new_def ok_simps)
        then have "reserve st' - reserve st1 = int ?v"
          using W(2) 1(9) by (simp add: tx_net_first tx_net_set BuildingCheckpoint_insert_pending_def)
        then have "int u * (reserve st' - reserve st1) = int (?v * u)" by simp
        then have r: "int u * reserve st' = int u * reserve st1 + int (?v * u)" by (simp only: right_diff_distrib)
        have d: "due st' = due st1 + (?v * u - fee)" using W(1) config by (simp add: BuildingCheckpoint_insert_pending_def)
        have "fee \<le> ?v * u" using 1(5) config by simp
        then have "balance u st1 + int fee \<le> balance u st'"
          using r d W(3) by (simp add: balance_def Bitcoin_fee_pool_def of_nat_diff)
        then show ?case using d credit F(1) F(2) [of u] balance_kept [OF queue_kept_books [OF kept]] due_kept [OF queue_kept_books [OF kept]] by simp
      qed
    qed
  qed
  then show "due st' \<le> due st + deposit_credit E env st btc_tx vout k" and "balance u st \<le> balance u st'" by blast+
qed

lemma withdraw_funds_books:
  "withdraw_funds E env tf denom script funds st = Inr (msgs, st') \<Longrightarrow> unpruned st i \<Longrightarrow> priced u st \<Longrightarrow>
     due st' = due st \<and> balance u st \<le> balance u st' + int (tokens_burned msgs) \<and> tokens_minted msgs = 0"
proof (induction funds arbitrary: st msgs)
  case (Cons fund funds)
  show ?case
  proof (cases "coin_denom fund = denom")
    case True
    then obtain st1 msgs1 where 1: "Bitcoin_add_withdrawal E st script (coin_amount fund) = Inr st1"
        "withdraw_funds E env tf denom script funds st1 = Inr (msgs1, st')"
        "msgs = BurnTokens tf (coin_denom fund) (coin_amount fund) (env_contract env) # msgs1"
      using Cons.prems(1) by (auto simp: ok_simps)
    note A = add_withdrawal_books [OF Cons.prems(2,3) 1(1)]
    show ?thesis using A(1,2) Cons.IH [OF 1(2) A(3,4)] by (simp add: 1(3))
  next
    case False
    then show ?thesis using Cons by simp
  qed
qed simp

text \<open>The step behind a new, empty checkpoint \<open>b\<close>: the reserve and what did not fit move to it.\<close>

lemma step_advance_books:
  assumes i: "unpruned st (i + 1)" and q: "queue st = cps @ [b]" "length cps = i + 1"
    and b: "first_tx b = Inr BitcoinTx_default" "cp_pending b = []"
    and step: "step_advance E st (i + 1) h tc pc = Inr st'" and fits: "tx_in (last cps) * bc_units_per_sat pc < 2 ^ 63"
  defines "u \<equiv> bc_units_per_sat pc"
  shows "due st' = due st" and "int u * reserve st' - Bitcoin_fee_pool st' = int u * tx_net (last cps) - Bitcoin_fee_pool st"
proof -
  have "cps \<noteq> []" using q(2) by auto
  then have nth: "queue st ! i = last cps" "queue st ! (i + 1) = b" "cps ! i = last cps"
    using q by (simp_all add: nth_append last_conv_nth)
  from i _ step have "due st' = due st \<and>
    int u * reserve st' - Bitcoin_fee_pool st' = int u * tx_net (last cps) - Bitcoin_fee_pool st"
  proof (rule step_advance_Inr, goal_cases)
    case (2 config cp_fees prev' op rv paid xi xo fr tx input ins)
    note A = advance_books [OF 2(3), simplified nth diff_add_inverse2]
    let ?b = "set_first_tx (b\<lparr>cp_fee_rate := fr\<rparr>) (tx\<lparr>bt_input := bt_input tx @ [input] @ ins, bt_output := bt_output tx @ xo\<rparr>)"
    have q': "queue st' = cps[i := prev'] @ [?b]" using 2(8) q nth by (simp add: list_update_append)
    have tx: "tx = BitcoinTx_default" "first_tx (b\<lparr>cp_fee_rate := fr\<rparr>) = Inr tx"
      using 2(4) b(1) nth by (simp_all add: first_tx_def)
    have "in_amount input = rv" using 2(5) by (auto simp: Input_new_def ok_simps)
    then have "reserve st' = int rv + int (sum_list (map in_amount xi)) - int (sum_list (map txo_value xo))"
      using tx carried_amounts [OF 2(6)] by (simp add: reserve_def q' tx_net_set BitcoinTx_default_def)
    then have "tx_net (last cps) = reserve st' + int paid" using A(1) by simp
    moreover have "paid * u \<le> tx_in (last cps) * u" using A(2) by (intro mult_right_mono) simp_all
    then have "as_i64 (paid * u) = int (paid * u)" using fits unfolding u_def by (intro as_i64_small) (rule le_less_trans)
    moreover have "due st' = due st"
      using sum_list_replace [of i cps "transfers \<circ> cp_pending" prev'] advance_frame(2) [OF 2(3)] b(2) q nth
      by (simp add: due_def q')
    ultimately show ?case using 2(11) by (auto simp: Bitcoin_fee_pool_def u_def algebra_simps)
  qed simp
  then show "due st' = due st" "int u * reserve st' - Bitcoin_fee_pool st' = int u * tx_net (last cps) - Bitcoin_fee_pool st"
    by blast+
qed

lemma maybe_step_books:
  assumes i: "unpruned st i" and short: "length (queue st) + 2 < 2 ^ 32"
    and step: "CheckpointQueue_maybe_step E env st h de tc pc = Inr (pushed, st')" and head: "dq_head (st_checkpoints st') = 0"
    and fits: "holdings st * bc_units_per_sat pc < 2 ^ 63"
  shows "due st' = due st \<and> balance (bc_units_per_sat pc) st' = balance (bc_units_per_sat pc) st"
proof -
  have empty: "first_tx b = Inr BitcoinTx_default"
    if "cp_batches b = [\<lparr>ba_signed_txs = 0, ba_batch = [BitcoinTx_default]\<rparr>]" for b
    using that by (simp add: first_tx_def index_r_def BatchType_Checkpoint_def)
  from i short step head show ?thesis
  proof (cases rule: maybe_step_Inr)
    case none
    then show ?thesis by simp
  next
    case (first b)
    note M = maybe_push_Inr [OF i short first(2)]
    show ?thesis
      using M(2,4) empty [OF M(5)] first(3) arg_cong [OF M(7), of st_fee_pool]
      by (simp add: due_def balance_def reserve_def Bitcoin_fee_pool_def tx_net_def BitcoinTx_default_def)
  next
    case (advance b st1)
    note M = maybe_push_Inr [OF i short advance(2)]
    have i1: "unpruned st1 (i + 1)" using M(1) advance(3) by simp
    have "tx_in (last (queue st)) * bc_units_per_sat pc < 2 ^ 63" using fits advance(3) by (simp add: holdings_def)
    note A = step_advance_books [OF i1 M(2) length_unpruned [OF i advance(3)] empty [OF M(5)] M(4) advance(4) this]
    show ?thesis
      using A advance(3) M(2,4) arg_cong [OF M(7), of st_fee_pool]
      by (simp add: due_def balance_def reserve_def [of st] Bitcoin_fee_pool_def)
  qed
qed

lemma clock_end_block_books:
  assumes i: "unpruned st i" and short: "length (queue st) + 2 < 2 ^ 32" and u: "priced u st" and fits: "holdings st * u < 2 ^ 63"
    and ok: "clock_end_block E env st hash = Inr (msgs, st')" and head: "dq_head (st_checkpoints st') = 0"
  shows "tokens_minted msgs + due st' \<le> due st" and "balance u st + int (tokens_minted msgs) \<le> balance u st'"
    and "tokens_burned msgs = 0"
proof -
  from ok obtain ds st1 config ks st2 st3 where 1: "Bitcoin_take_pending_completed E st = Inr (ds, st1)"
      and pay: "fold_r (payout_msgs E env st1 config) (concat ds) [] = Inr msgs"
      and 2: "Bitcoin_begin_block_step E env st1 hash = Inr (ks, st2)"
      and 3: "fold_r (punish_step E) ks st2 = Inr st3"
      and st': "st' = st3\<lparr>st_block_hashes := insert hash (st_block_hashes st3)\<rparr>"
    by (rule clock_end_block_Inr)
  have kept: "queue_kept st2 st'" unfolding st' by (rule quiet.end_block_R [OF 3])
  then have head2: "dq_head (st_checkpoints st2) = 0" using head by (simp add: queue_kept_def)
  note T = take_pending_completed_books [OF i 1]
  obtain h de pc pushed where step: "CheckpointQueue_maybe_step E env st1 h de hash pc = Inr (pushed, st2)"
      and pc: "st_bitcoin_config st1 = Some pc"
    using 2 by (auto simp: Bitcoin_begin_block_step_def Bitcoin_config_def Let_def ok_simps split: if_splits)
  have u1: "bc_units_per_sat pc = u" using u pc T(4) by (simp add: priced_def)
  have C: "unpruned st1 i" "map cp_status (queue st1) = map cp_status (queue st)" using take_pending_completed_Inr [OF i 1] by simp_all
  have S: "due st2 = due st1 \<and> balance u st2 = balance u st1"
    using maybe_step_books [OF C(1) _ step head2] short map_eq_imp_length_eq [OF C(2)] fits by (simp add: u1 T(3))
  note P = tokens_payouts [OF pay]
  show "tokens_minted msgs + due st' \<le> due st" "balance u st + int (tokens_minted msgs) \<le> balance u st'" "tokens_burned msgs = 0"
    using P S T(1) T(2) [of u] due_kept [OF queue_kept_books [OF kept]] balance_kept [OF queue_kept_books [OF kept], of u] by simp_all
qed

end

section \<open>Runs with a ledger\<close>

text \<open>The deposits that a message brings, with what they are worth.\<close>

definition credits :: "'x contract_ext_scheme \<Rightarrow> env \<Rightarrow> store \<Rightarrow> execute_msg \<Rightarrow> (outpoint \<times> nat) list" where
  "credits E env st msg = (case msg of
     RelayDeposit btc_tx btc_height btc_proof vout sigset_index dest \<Rightarrow>
       [(\<lparr>op_txid = tx_txid E btc_tx, op_vout = vout\<rparr>, deposit_credit E env st btc_tx vout sigset_index)]
   | _ \<Rightarrow> [])"

text \<open>
  The states whose books can be compared: the owner has left the number of units per satoshi as it was set at the
  instantiation, and the checkpoint being built spends less than \<^verbatim>\<open>2^63\<close> units, some 92,000 bitcoins, so that
  no fee changes its sign when it is converted to an \<^verbatim>\<open>i64\<close>.
\<close>

definition auditable :: "store \<Rightarrow> bool" where
  "auditable st \<longleftrightarrow> priced 1000000 st \<and> holdings st * 1000000 < 2 ^ 63"

text \<open>A live run that also records the deposits it was told of and the messages it has sent.\<close>

inductive ledger :: "'x contract_ext_scheme \<Rightarrow> (outpoint \<times> nat) list \<Rightarrow> cosmos_msg list \<Rightarrow> store \<Rightarrow> bool" for E where
  opened: "instantiate E empty_store info imsg = Ok (msgs, st) \<Longrightarrow> ledger E [] msgs st"
| executed: "ledger E ds ms st \<Longrightarrow> execute E env st info msg = Ok (msgs, st') \<Longrightarrow> env_typed env \<Longrightarrow> msg_typed msg \<Longrightarrow>
    in_service st' \<Longrightarrow> auditable st' \<Longrightarrow> ledger E (ds @ credits E env st msg) (ms @ msgs) st'"
| block_ended: "ledger E ds ms st \<Longrightarrow> sudo E env st smsg = Ok (msgs, st') \<Longrightarrow> env_typed env \<Longrightarrow>
    in_service st' \<Longrightarrow> auditable st' \<Longrightarrow> ledger E ds (ms @ msgs) st'"

lemma ledger_live: "ledger E ds ms st \<Longrightarrow> live E st"
  by (induction rule: ledger.induct) (auto intro: live.intros)

lemma opened_books:
  assumes "instantiate E empty_store info imsg = Inr (msgs, st)"
  shows "msgs = []" and "auditable st" and "due st = 0" and "balance u st = 0"
proof -
  have st: "queue st = []" "st_fee_pool st = Some 0" "priced 1000000 st" and msgs: "msgs = []"
    using assms by (auto simp: instantiate_def HeaderQueue_configure_def empty_store_def Let_def ok_simps queue_def
        priced_def BitcoinConfig_default_def NETWORK_def BitcoinConfig_bitcoin_def)
  then show "msgs = []" "auditable st" "due st = 0" "balance u st = 0"
    by (simp_all add: auditable_def holdings_def due_def balance_def reserve_def Bitcoin_fee_pool_def)
qed

lemma ledger_auditable: "ledger E ds ms st \<Longrightarrow> auditable st"
  by (induction rule: ledger.induct) (auto dest: opened_books)

context contract_deques
begin

lemma ledger_state:
  assumes "ledger E ds ms st"
  obtains i where "unpruned st i" "status_ok (map cp_status (queue st))" "length (queue st) + 2 < 2 ^ 32"
    "priced 1000000 st" "holdings st * 1000000 < 2 ^ 63"
proof -
  have "queue_inv st" "in_service st" using sound.live_inv [OF ledger_live [OF assms]] by (simp_all add: bridge_inv_def)
  then show thesis using ledger_auditable [OF assms] by (auto simp: queue_inv_def in_service_def auditable_def intro: that)
qed

lemma execute_books:
  assumes run: "ledger E ds ms st" and ok: "execute E env st info msg = Inr (msgs, st')" and serv': "in_service st'"
  shows "tokens_minted msgs + due st' \<le> due st + sum_list (map snd (credits E env st msg)) \<and>
    balance 1000000 st + int (tokens_minted msgs) \<le> balance 1000000 st' + int (tokens_burned msgs)"
proof (cases "owner_msg msg")
  case True
  note B = owner_msg_books [OF True ok]
  then show ?thesis using due_kept [OF B(1)] balance_kept [OF B(1)] by simp
next
  case False
  from run obtain i where i: "unpruned st i" and ss: "status_ok (map cp_status (queue st))"
      and st: "length (queue st) + 2 < 2 ^ 32" "priced 1000000 st" "holdings st * 1000000 < 2 ^ 63"
    by (rule ledger_state)
  have head: "dq_head (st_checkpoints st') = 0" using serv' by (simp add: in_service_def)
  note quiet = queue_kept_books [OF quiet.headers_add_R] queue_kept_books [OF quiet.relay_checkpoint_R]
    queue_kept_books [OF quiet.recovery_sign_R] queue_kept_books [OF quiet.set_signatory_key_R]
  note kept = quiet [THEN due_kept] quiet [THEN balance_kept]
  show ?thesis
  proof (cases msg)
    case (WithdrawToBitcoin a)
    then show ?thesis
      using ok withdraw_funds_books [OF _ i st(2)]
      by (cases "address_script E a") (auto simp: execute_def withdraw_to_bitcoin_def ok_simps)
  next
    case (TriggerBeginBlock hash)
    then have "clock_end_block E env st hash = Inr (msgs, st')" using ok by (simp add: execute_def)
    from clock_end_block_books [OF i st this head] show ?thesis by simp
  next
    case (SubmitCheckpointSignature xpub sigs cp_index btc_height)
    then show ?thesis
      using ok queue_sign_books [OF i ss]
      by (auto simp: execute_def submit_checkpoint_signature_def ok_simps)
  next
    case (RelayDeposit btc_tx h p v k d)
    then show ?thesis
      using ok relay_deposit_books [OF i st(2)] by (auto simp: execute_def relay_deposit_def credits_def ok_simps)
  qed (use False ok in \<open>auto simp: execute_def relay_headers_def relay_checkpoint_def
        submit_recovery_signature_def set_signatory_key_def ok_simps kept\<close>)
qed

lemma ledger_books:
  "ledger E ds ms st \<Longrightarrow> tokens_minted ms + due st \<le> sum_list (map snd ds) \<and>
     int (tokens_minted ms) \<le> balance 1000000 st + int (tokens_burned ms)"
proof (induction rule: ledger.induct)
  case (opened info imsg msgs st)
  then show ?case using opened_books [OF opened] by simp
next
  case (executed ds ms st env info msg msgs st')
  then show ?case using execute_books [OF executed(1,2,5)] by simp
next
  case (block_ended ds ms st env smsg msgs st')
  from block_ended(1) obtain i where st: "unpruned st i" "length (queue st) + 2 < 2 ^ 32" "priced 1000000 st" "holdings st * 1000000 < 2 ^ 63"
    by (rule ledger_state)
  obtain hash where "clock_end_block E env st hash = Inr (msgs, st')"
    using block_ended(2) by (auto simp: sudo_def split: sudo_msg.splits)
  from clock_end_block_books [OF st this] block_ended show ?case by (simp add: in_service_def)
qed

end

text \<open>The outpoints of a ledger are remembered by the contract, so none of them comes twice.\<close>

lemma ledger_outpoints:
  "ledger E ds ms st \<Longrightarrow> distinct (map fst ds) \<and> (\<forall>op \<in> set (map fst ds). OutpointSet_contains E st op)"
proof (induction rule: ledger.induct)
  case (executed ds ms st env info msg msgs st')
  have mem: "OutpointSet_contains E st' op" if "OutpointSet_contains E st op" for op
    using step_remembers [OF contract_step.by_execute [OF executed(2)]] that by (auto simp: OutpointSet_contains_def remembers_def)
  show ?case
  proof (cases "\<exists>tx h p v k d. msg = RelayDeposit tx h p v k d")
    case True
    then obtain tx h p v k d where msg: "msg = RelayDeposit tx h p v k d" by blast
    then have "Bitcoin_relay_deposit E env st tx h p v k d = Inr st'"
      using executed(2) by (auto simp: execute_def relay_deposit_def ok_simps)
    from relay_deposit_contains [OF this] show ?thesis using executed.IH mem by (auto simp: credits_def msg)
  next
    case False
    then have "credits E env st msg = []" by (cases msg) (auto simp: credits_def)
    then show ?thesis using executed.IH mem by auto
  qed
next
  case (block_ended ds ms st env smsg msgs st')
  have "OutpointSet_contains E st' op" if "OutpointSet_contains E st op" for op
    using step_remembers [OF contract_step.by_sudo [OF block_ended(2)]] that by (auto simp: OutpointSet_contains_def remembers_def)
  then show ?case using block_ended by auto
qed simp

text \<open>
  C1: The tokens are backed by bitcoin until the first checkpoint is pruned. Take a run of the contract from its
  instantiation, of any well-typed messages and blocks, in which so far no checkpoint was pruned from the queue and the queue
  has stayed below its 32-bit limit, the owner has left the units per satoshi as they were set at the instantiation, and
  the checkpoint being built has always spent less than \<^verbatim>\<open>2^63\<close> units. In its state the tokens that were
  minted and not burned, the transfers that are still pending and the fee pool together never exceed what the
  transaction of the checkpoint being built spends beyond its outputs, at the fixed number of units per satoshi: deposits,
  withdrawals, miner fees, the freezing of checkpoints and what they pass on, signatures and payouts keep the books balanced.
  After a prune this is not claimed: the writes to the queue are then lost (C26) and transfers are paid again (C27).
\<close>

theorem tokens_backed:
  assumes "contract_deques E" and "ledger E ds ms st"
  shows "int (tokens_minted ms) - int (tokens_burned ms) + int (due st) + Bitcoin_fee_pool st \<le> 1000000 * reserve st"
  using contract_deques.ledger_books [OF assms] by (simp add: balance_def)

text \<open>
  C3: Tokens come from deposits until the first checkpoint is pruned. Along a run of the contract from its instantiation,
  of any well-typed messages and blocks, in which so far no checkpoint was pruned from the queue and the queue has stayed
  below its 32-bit limit, the owner has left the units per satoshi as they were set at the instantiation, and the checkpoint
  being built has always spent less than \<^verbatim>\<open>2^63\<close> units, the outputs it was told of are all different,
  and the tokens it has minted and those it still has to mint never exceed the value of these outputs, of which those that
  came too late count nothing.
\<close>

theorem minted_from_deposits:
  assumes "contract_deques E" and "ledger E ds ms st"
  shows "distinct (map fst ds) \<and> tokens_minted ms + due st \<le> sum_list (map snd ds)"
  using contract_deques.ledger_books [OF assms] ledger_outpoints [OF assms(2)] by simp

end
