(* ===== verification/ExampleRun.thy ===== *)
theory ExampleRun
  imports Witnesses Ledger
begin

text \<open>
  A run of the contract on the concrete library, from its instantiation to the payout of a deposit: the owner adds a
  validator, the validator registers its key, a block starts the first checkpoint, headers and a deposit are relayed, a block
  freezes the checkpoint, the validator signs it, and a block pays the deposit out. Every state of the run is written out and every step is evaluated;
  the run witnesses the properties of live states.
\<close>

section \<open>Instantiation, validators and keys\<close>

definition run_msg :: instantiate_msg where
  "run_msg = \<lparr>im_token_factory_addr = ''tf'', im_relayer_fee_token = NativeToken ''orai'', im_relayer_fee = 0,
     im_token_fee_receiver = ''fees'', im_relayer_fee_receiver = ''relayers'', im_swap_router_contract = None,
     im_osor_entry_point_contract = None\<rparr>"

definition run_config :: config where
  "run_config = \<lparr>cf_token_factory_addr = ''tf'', cf_owner = ''owner'', cf_relayer_fee_token = NativeToken ''orai'', cf_relayer_fee = 0,
     cf_token_fee_receiver = ''fees'', cf_relayer_fee_receiver = ''relayers'', cf_swap_router_contract = None,
     cf_osor_entry_point_contract = None\<rparr>"

definition caller :: "string \<Rightarrow> message_info" where
  "caller sender = \<lparr>mi_sender = sender, mi_funds = []\<rparr>"

definition trusted :: work_header where
  "trusted = HeaderConfig_work_header std_ext HeaderConfig_mainnet"

definition run0 :: store where
  "run0 = empty_store\<lparr>st_config := Some run_config, st_checkpoint_config := Some CheckpointConfig_default,
     st_header_config := Some HeaderConfig_mainnet, st_bitcoin_config := Some BitcoinConfig_bitcoin,
     st_headers := \<lparr>dq_head = 2 ^ 32 - 1, dq_tail = 0, dq_cells = (\<lambda>_. None)(2 ^ 32 - 1 := Some trusted)\<rparr>,
     st_current_work := Some 1, st_fee_pool := Some 0, st_building_index := Some 0,
     st_first_unhandled_confirmed_index := Some 0\<rparr>"

lemma run_instantiate: "instantiate std_ext empty_store (caller ''owner'') run_msg = Ok ([], run0)"
  by (simp add: instantiate_def run0_def run_config_def run_msg_def caller_def HeaderQueue_configure_def Let_def std_sels std_deque_def
        std_push_front_def empty_store_def DequeExtension_clear_def dq_len_def dq_empty_def u32_space_def trusted_def
        HeaderConfig_work_header_def WorkHeader_new_def header_sels BitcoinConfig_default_def NETWORK_def)

definition run1 :: store where
  "run1 = run0\<lparr>st_signers := [''v'' \<mapsto> [1]], st_validators := [([1], 10, ''v'')]\<rparr>"

lemma run_validators: "execute std_ext (demo_env 900) run0 (caller ''owner'') (AddValidators [''v''] [10] [[1]]) = Ok ([], run1)"
  by (simp add: execute_def add_validators_def assert_owner_def run0_def run1_def run_config_def caller_def empty_store_def)

definition run2 :: store where
  "run2 = run1\<lparr>st_sig_keys := [([1], demo_xpub 1)], st_xpubs := {xpub_encode std_ext (normalized (demo_xpub 1))}\<rparr>"

lemma run_key: "execute std_ext (demo_env 950) run1 (caller ''v'') (SetSignatoryKey (demo_xpub 1)) = Ok ([], run2)"
  by (simp add: execute_def set_signatory_key_def Bitcoin_set_signatory_key_def SignatoryKeys_insert_def run2_def run1_def run0_def caller_def
     empty_store_def demo_xpub_def HeaderQueue_network_def NETWORK_def Let_def)

section \<open>The first checkpoint\<close>

definition run_set :: "u64 \<Rightarrow> u32 \<Rightarrow> signatory_set" where
  "run_set t i = \<lparr>ss_create_time = t, ss_present_vp = 10, ss_possible_vp = 10, ss_index = i, ss_signatories = [Signatory 10 (demo_key 1)]\<rparr>"

definition cp0 :: checkpoint where
  "cp0 = \<lparr>cp_status = Building, cp_pending = [],
         cp_batches = [\<lparr>ba_signed_txs = 0, ba_batch = [BitcoinTx_default]\<rparr>],
         cp_fee_rate = 55, cp_signed_at_btc_height = None,
         cp_deposits_enabled = True, cp_fees_collected = 0, cp_sigset = run_set 1000 0\<rparr>"

definition run3 :: store where
  "run3 = run2\<lparr>st_checkpoints := \<lparr>dq_head = 0, dq_tail = 1, dq_cells = [0 \<mapsto> cp0]\<rparr>, st_block_hashes := {[1]}\<rparr>"

lemmas run_defs = run0_def run1_def run2_def run3_def run_config_def caller_def empty_store_def

lemma run_next_sigset:
  assumes "st_validators st = [([1], 10, ''v'')]" "st_sig_keys st = [([1], demo_xpub 1)]"
  shows "next_sigset std_ext st (demo_env t) i = Ok (run_set t i)"
  using assms by (simp add: next_sigset_def get_validators_def SignatorySet_from_validator_ctx_def from_validator_step_def SignatorySet_insert_def
      SignatorySet_sort_and_truncate_def run_set_def add_w_def Let_def MAX_SIGNATORIES_def demo_env_def)


lemmas queue_eval = CheckpointQueue_unhandled_confirmed_def CheckpointQueue_confirmed_index_def CheckpointQueue_last_completed_index_def
  CheckpointQueue_signing_def CheckpointQueue_len_def CheckpointQueue_index_def CheckpointQueue_is_empty_def CheckpointQueue_config_def
  CheckpointQueue_building_def CheckpointQueue_get_def CheckpointQueue_set_def CheckpointQueue_get_deque_index_def DequeExtension_set_def
  DequeExtension_get_key_def
  std_sels std_deque_def std_push_back_def dq_len_def dq_pos_def dq_empty_def u32_space_def add_w_def sub_w_def checked_sub_def Let_def

lemmas block_eval = sudo_def clock_end_block_def Bitcoin_take_pending_completed_def Bitcoin_take_pending_confirmed_def
  Bitcoin_begin_block_step_def Bitcoin_config_def CheckpointQueue_maybe_step_def CheckpointQueue_should_push_def
  CheckpointQueue_num_unconfirmed_def CheckpointQueue_maybe_push_def CheckpointQueue_prune_def Bitcoin_offline_signers_def
  CheckpointQueue_active_sigset_def CheckpointQueue_completed_def

lemma run_block1: "sudo std_ext (demo_env 1000) run2 (ClockEndBlock [1]) = Ok ([], run3)"
  by (simp add: block_eval queue_eval run_next_sigset run_defs CheckpointConfig_default_def SignatorySet_has_quorum_def SignatorySet_quorum_threshold_def
    Checkpoint_new_def DEFAULT_FEE_RATE_def cp0_def run_set_def BitcoinConfig_bitcoin_def vec_last_def)

section \<open>Headers and a deposit\<close>

definition run4 :: store where
  "run4 = run3\<lparr>st_headers := \<lparr>dq_head = 2 ^ 32 - 1, dq_tail = 2, dq_cells = [2 ^ 32 - 1 \<mapsto> trusted,
      0 \<mapsto> \<lparr>kh_chain_work = 2, kh_header = demo_header 1 4602308 11\<rparr>, 1 \<mapsto> \<lparr>kh_chain_work = 3, kh_header = demo_header 2 11 12\<rparr>]\<rparr>,
     st_current_work := Some 3\<rparr>"

lemma trusted_sels: "wh_height (kh_header trusted) = 802368" "bh_nonce (wh_header (kh_header trusted)) = 4602308" "bh_bits (wh_header (kh_header trusted)) = 386228059"
  "bh_time (wh_header (kh_header trusted)) = 1691584068"
    by (simp_all add: trusted_def mainnet_defs Let_def)

lemma run_headers: "execute std_ext (demo_env 1100) run3 (caller ''relayer'') (RelayHeaders [demo_header 1 4602308 11, demo_header 2 11 12]) = Ok ([], run4)"
proof -
  have c: "hc_max_length HeaderConfig_mainnet = 24192" "hc_retarget_interval HeaderConfig_mainnet = 2016" "\<not> hc_min_difficulty_blocks HeaderConfig_mainnet"
    by (simp_all add: mainnet_defs)
  show ?thesis
    by (simp add: execute_def relay_headers_def HeaderQueue_add_def MAX_HEADERS_RELAY_ONE_TIME_def HeaderQueue_add_into_iter_def Let_def HeaderQueue_config_def
      run4_def run_defs c trusted_sels header_sels std_sels std_deque_def HeaderQueue_height_def header_height_def dq_len_def dq_pos_def u32_space_def
      demo_header_def HeaderQueue_get_by_height_def HeaderQueue_get_initial_height_def HeaderQueue_len_def
      prune_headers_numeral u256_add_def HeaderQueue_verify_and_add_headers_def add_header_step_def add_w_def
      HeaderQueue_get_next_target_def rem_r_def HeaderQueue_current_work_def std_push_back_def WorkHeader_new_def) (simp add: numeral_2_eq_2)
qed

definition run_redeem :: "bytes \<Rightarrow> script" where
  "run_redeem dest = projr (SignatorySet_redeem_script std_ext (run_set 0 0) dest SIGSET_THRESHOLD)"

definition run_ts :: "message \<Rightarrow> signature option \<Rightarrow> threshold_sig" where
  "run_ts m sig = \<lparr>ts_threshold = 6, ts_signed = (if sig = None then 0 else 10), ts_message = m, ts_len = 1,
     ts_sigs = [(demo_key 1, \<lparr>sh_power = 10, sh_sig = sig\<rparr>)]\<rparr>"

lemma run_scripts:
  "SignatorySet_redeem_script std_ext (run_set t i) dest SIGSET_THRESHOLD = Ok (run_redeem dest)"
  "SignatorySet_output_script std_ext (run_set t i) dest SIGSET_THRESHOLD = Ok (0 # run_redeem dest)"
  by (simp_all add: SignatorySet_output_script_def SignatorySet_redeem_script_def run_redeem_def run_set_def Let_def
      SignatorySet_get_truncation_def SignatorySet_signature_threshold_def SIGSET_THRESHOLD_def mul_w_def div_r_def std_sels)

lemma run_from_sigset: "ThresholdSig_from_sigset (run_set t i) = Ok (run_ts (replicate 32 0) None)"
  by (simp add: ThresholdSig_from_sigset_def from_sigset_step_def run_set_def run_ts_def ThresholdSig_new_def add_w_def
      sigset_threshold_of_small)

definition run_input :: "outpoint \<Rightarrow> bytes \<Rightarrow> u32 \<Rightarrow> u64 \<Rightarrow> threshold_sig \<Rightarrow> input" where
  "run_input op dest i amount ts = \<lparr>in_prevout = op, in_script_pubkey = 0 # run_redeem dest,
     in_redeem_script = run_redeem dest, in_sigset_index = i, in_dest = dest, in_amount = amount,
     in_est_witness_vsize = 118, in_signatures = ts\<rparr>"

lemma run_Input_new:
  "Input_new std_ext op (run_set t i) dest amount SIGSET_THRESHOLD = Ok (run_input op dest i amount (run_ts (replicate 32 0) None))"
  by (simp add: Input_new_def run_scripts run_from_sigset run_input_def SignatorySet_est_witness_vsize_def mul_w_def add_w_def)
    (simp add: run_set_def)

definition run_deposit :: outpoint where
  "run_deposit = \<lparr>op_txid = [1, 1], op_vout = 0\<rparr>"

definition run_tx0 :: "message \<Rightarrow> signature option \<Rightarrow> u16 \<Rightarrow> txout list \<Rightarrow> bitcoin_tx" where
  "run_tx0 m sig n outs = \<lparr>bt_lock_time = 0, bt_signed_inputs = n, bt_input = [run_input run_deposit (as_bytes ''u'') 0 200000 (run_ts m sig)],
     bt_output = outs\<rparr>"

definition cp1 :: checkpoint where
  "cp1 = cp0\<lparr>cp_pending := [(Dest_Address ''u'', \<lparr>coin_denom = get_full_btc_denom ''tf'', coin_amount = 176537000000\<rparr>)],
     cp_batches := [\<lparr>ba_signed_txs = 0, ba_batch = [run_tx0 (replicate 32 0) None 0 []]\<rparr>], cp_fees_collected := 23463\<rparr>"

definition run5 :: store where
  "run5 = run4\<lparr>st_checkpoints := \<lparr>dq_head = 0, dq_tail = 1, dq_cells = [0 \<mapsto> cp1]\<rparr>, st_fee_pool := Some 23463000000,
     st_outpoints := {outpoint_to_string std_ext run_deposit},
     st_expiration_queue := [((1210600, outpoint_to_string std_ext run_deposit), ())]\<rparr>"

lemma run_inclusion: "verify_inclusion std_ext run4 802369 [1, 1] 1 = Ok [1, 1]"
  by (simp add: verify_inclusion_def HeaderQueue_get_by_height_def HeaderQueue_get_initial_height_def HeaderQueue_height_def header_height_def
      run4_def run_defs std_sels std_deque_def dq_len_def dq_pos_def u32_space_def header_sels trusted_sels Let_def WorkHeader_merkle_root_def
      demo_header_def add_w_def sub_w_def)

lemma run_cells [simp]: "st_checkpoints run4 = \<lparr>dq_head = 0, dq_tail = 1, dq_cells = [0 \<mapsto> cp0]\<rparr>"
  "st_bitcoin_config run4 = Some BitcoinConfig_bitcoin" "st_checkpoint_config run4 = Some CheckpointConfig_default"
  "st_building_index run4 = Some 0" "st_outpoints run4 = {}" "st_expiration_queue run4 = []" "st_config run4 = Some run_config"
  "st_fee_pool run4 = Some 0"
  by (simp_all add: run4_def run_defs)

lemma bitcoin_sels [simp]: "bc_min_confirmations BitcoinConfig_bitcoin = 1" "bc_max_deposit_age BitcoinConfig_bitcoin = 1209600"
  "bc_units_per_sat BitcoinConfig_bitcoin = 1000000" "bc_capacity_limit BitcoinConfig_bitcoin = 2100000000"
  "bc_max_offline_checkpoints BitcoinConfig_bitcoin = 20"
  by (simp_all add: BitcoinConfig_bitcoin_def MAX_DEPOSIT_AGE_def)

lemma checkpoint_sels [simp]: "cc_sigset_threshold CheckpointConfig_default = SIGSET_THRESHOLD"
  "cc_user_fee_factor CheckpointConfig_default = 27000" "cc_max_inputs CheckpointConfig_default = 40"
  "cc_max_outputs CheckpointConfig_default = 200" "cc_min_checkpoint_interval CheckpointConfig_default = 300"
  "cc_max_checkpoint_interval CheckpointConfig_default = 1036800" "cc_max_unconfirmed_checkpoints CheckpointConfig_default = 15"
  by (simp_all add: CheckpointConfig_default_def USER_FEE_FACTOR_def MAX_CHECKPOINT_INTERVAL_def)

lemma run_set_sels [simp]: "ss_create_time (run_set t i) = t" "ss_possible_vp (run_set t i) = 10" "ss_present_vp (run_set t i) = 10"
  "ss_index (run_set t i) = i" "ss_signatories (run_set t i) = [Signatory 10 (demo_key 1)]"
  by (simp_all add: run_set_def)

lemma run_input_sels [simp]:
  "in_est_witness_vsize (run_input op d i a ts) = 118" "in_amount (run_input op d i a ts) = a" "in_prevout (run_input op d i a ts) = op"
  "in_sigset_index (run_input op d i a ts) = i" "in_signatures (run_input op d i a ts) = ts" "in_redeem_script (run_input op d i a ts) = run_redeem d"
  "run_input op d i a ts\<lparr>in_signatures := ts'\<rparr> = run_input op d i a ts'"
  by (simp_all add: run_input_def)

lemma run_relay: "execute std_ext (demo_env 1200) run4 (caller ''relayer'')
    (RelayDeposit (demo_tx (0 # run_redeem (as_bytes ''u''))) 802369 [1, 1] 0 0 (Dest_Address ''u'')) = Ok ([], run5)"
  by (simp add: execute_def relay_deposit_def Bitcoin_relay_deposit_def deposit_checks_def Bitcoin_config_def queue_eval run_inclusion [simplified]
    run_scripts run_Input_new  Bitcoin_calc_minimum_deposit_fees_def Bitcoin_give_miner_fee_def Dest_commitment_bytes_def OutpointSet_contains_def
    OutpointSet_insert_def demo_tx_def cp0_def demo_env_def Input_est_vsize_def mul_w_def div_r_def add_i64_def as_u64_def as_i64_def in_i64_def
    calc_deposit_fee_def Bitcoin_fee_pool_def BuildingCheckpoint_insert_pending_def first_tx_def set_first_tx_def index_r_def BatchType_Checkpoint_def
    BitcoinTx_default_def)
    (simp add: run5_def cp1_def cp0_def run_tx0_def run_deposit_def run_config_def std_sels)

lemma run5_sels [simp]: "st_checkpoints run5 = \<lparr>dq_head = 0, dq_tail = 1, dq_cells = [0 \<mapsto> cp1]\<rparr>"
  "st_bitcoin_config run5 = Some BitcoinConfig_bitcoin" "st_checkpoint_config run5 = Some CheckpointConfig_default"
  "st_building_index run5 = Some 0" "st_config run5 = Some run_config" "st_fee_pool run5 = Some 23463000000"
  "st_validators run5 = [([1], 10, ''v'')]" "st_sig_keys run5 = [([1], demo_xpub 1)]" "st_block_hashes run5 = {[1]}"
  "st_confirmed_index run5 = None" "st_first_unhandled_confirmed_index run5 = Some 0"
  by (simp_all add: run5_def run4_def run_defs)

lemma run5_height: "HeaderQueue_height std_ext run5 = 802370"
  by (simp add: HeaderQueue_height_def header_height_def run5_def run4_def std_sels std_deque_def u32_space_def header_sels demo_header_def)

lemma run_to_bitcoin: "BitcoinTx_to_bitcoin_tx std_ext (run_tx0 m None n outs) = Ok (unsigned_tx (run_tx0 m None n outs))"
  by (rule unsigned_to_bitcoin_tx) (simp add: run_tx0_def run_ts_def ThresholdSig_signed_def)

lemma run_tx0_sels [simp]: "bt_input (run_tx0 m sig n outs) = [run_input run_deposit (as_bytes ''u'') 0 200000 (run_ts m sig)]"
  "bt_output (run_tx0 m sig n outs) = outs" "btx_input (unsigned_tx (run_tx0 m sig n outs)) \<noteq> []" "btx_output (unsigned_tx (run_tx0 m sig n outs)) = outs"
  "bt_signed_inputs (run_tx0 m sig n outs) = n"
  by (simp_all add: run_tx0_def unsigned_tx_def)

lemma cp1_sels [simp]: "cp_status cp1 = Building" "cp_sigset cp1 = run_set 1000 0" "cp_fee_rate cp1 = 55" "cp_fees_collected cp1 = 23463"
  "cp_pending cp1 \<noteq> []" "cp_batches cp1 = [\<lparr>ba_signed_txs = 0, ba_batch = [run_tx0 (replicate 32 0) None 0 []]\<rparr>]"
  by (simp_all add: cp1_def cp0_def)

lemmas fee_eval = CheckpointQueue_calc_fee_checkpoint_def CheckpointQueue_fee_adjustment_def CheckpointQueue_unconfirmed_fees_paid_def CheckpointQueue_unconfirmed_def
  CheckpointQueue_first_unconfirmed_index_def CheckpointQueue_num_unconfirmed_def CheckpointQueue_unconfirmed_vbytes_def mul_w_def
  Checkpoint_base_fee_def Checkpoint_est_vsize_def as_u32_def Checkpoint_additional_outputs_def run_scripts run_to_bitcoin

lemma demo_env_seconds [simp]: "env_seconds (demo_env t) = t"
  by (simp add: demo_env_def)

lemma run_should_push: "CheckpointQueue_should_push std_ext (demo_env 1400) run5 [2] 802370 = Ok True"
  by (simp add: CheckpointQueue_should_push_def should_push_building_def queue_eval run_next_sigset Checkpoint_create_time_def
   fee_eval first_tx_def index_r_def BatchType_Checkpoint_def
   Checkpoint_checkpoint_tx_def vec_last_def Checkpoint_calc_total_input_and_output_def vec_get_def SignatorySet_has_quorum_def SignatorySet_quorum_threshold_def)

section \<open>Freezing and signing\<close>

definition run_outs :: "txout list" where
  "run_outs = [\<lparr>txo_value = 188010, txo_script_pubkey = 0 # run_redeem [0]\<rparr>, \<lparr>txo_value = 0, txo_script_pubkey = [0x6a, 2]\<rparr>]"

definition cp2 :: checkpoint where
  "cp2 = cp1\<lparr>cp_status := Signing, cp_batches := [\<lparr>ba_signed_txs = 0, ba_batch = [run_tx0 [0] None 0 run_outs]\<rparr>]\<rparr>"

definition cp3 :: checkpoint where
  "cp3 = cp0\<lparr>cp_batches := [\<lparr>ba_signed_txs = 0, ba_batch = [BitcoinTx_default\<lparr>bt_input :=
     [run_input \<lparr>op_txid = [1, 2], op_vout = 0\<rparr> [0] 0 188010 (run_ts (replicate 32 0) None)]\<rparr>]\<rparr>], cp_sigset := run_set 1400 1\<rparr>"

definition run6 :: store where
  "run6 = run5\<lparr>st_checkpoints := \<lparr>dq_head = 0, dq_tail = 2, dq_cells = [0 \<mapsto> cp2, 1 \<mapsto> cp3]\<rparr>, st_building_index := Some 1,
     st_fee_pool := Some 11473000000, st_block_hashes := {[1], [2]}\<rparr>"

lemma run_advance: "BuildingCheckpoint_advance std_ext cp1 [2] 11990 CheckpointConfig_default =
   Ok (cp2, \<lparr>op_txid = [1, 2], op_vout = 0\<rparr>, 188010, 11990, [], [])"
proof -
  have 1: "run_tx0 m None 0 []\<lparr>bt_input := [run_input run_deposit (as_bytes ''u'') 0 200000 (run_ts m' None)], bt_output := run_outs\<rparr> = run_tx0 m' None 0 run_outs"
     "run_tx0 m None 0 []\<lparr>bt_output := run_outs\<rparr> = run_tx0 m None 0 run_outs"
     "run_tx0 m None 0 run_outs\<lparr>bt_input := [run_input run_deposit (as_bytes ''u'') 0 200000 (run_ts m' None)]\<rparr> = run_tx0 m' None 0 run_outs"
    for m m' by (simp_all add: run_tx0_def)
  have 2: "run_outs = [\<lparr>txo_value = 188010, txo_script_pubkey = 0 # run_redeem [0]\<rparr>, \<lparr>txo_value = 0, txo_script_pubkey = [0x6a, 2]\<rparr>]" by (simp add: run_outs_def)
  have 3: "ThresholdSig_set_message (run_ts m sig) m' = run_ts m' sig" for m m' sig by (simp add: run_ts_def ThresholdSig_set_message_def)
  show ?thesis
    by (simp add: BuildingCheckpoint_advance_def Checkpoint_additional_outputs_def first_tx_def set_first_tx_def
      index_r_def BatchType_Checkpoint_def pop_excess_eq Let_def run_scripts add_w_def checked_sub_def std_sels,
      simp add: 2 [symmetric] 1 run_to_bitcoin std_sels BitcoinTx_txid_def 3 cp2_def)
      (simp add: unsigned_tx_def run_outs_def)
qed

lemma cp2_sels [simp]: "cp_status cp2 = Signing" "cp_signed_at_btc_height cp2 = None" "cp_sigset cp2 = run_set 1000 0"
  "cp_batches cp2 = [\<lparr>ba_signed_txs = 0, ba_batch = [run_tx0 [0] None 0 run_outs]\<rparr>]"
  by (simp_all add: cp2_def cp1_def cp0_def)

lemma run_block2: "sudo std_ext (demo_env 1400) run5 (ClockEndBlock [2]) = Ok ([], run6)"
  by (simp add: block_eval(1-7) CheckpointQueue_maybe_push_def CheckpointQueue_prune_def Bitcoin_offline_signers_def
  CheckpointQueue_active_sigset_def CheckpointQueue_completed_def queue_eval run_next_sigset run5_height run_should_push [simplified]
    Checkpoint_new_def SignatorySet_has_quorum_def SignatorySet_quorum_threshold_def std.prune_checkpoints_short
    run_advance step_advance_def fee_eval first_tx_def set_first_tx_def index_r_def BatchType_Checkpoint_def
   run_Input_new next_fee_rate_def sub_i64_def as_i64_def in_i64_def)
    (simp add: run6_def cp3_def cp0_def run5_def run4_def run_defs DEFAULT_FEE_RATE_def BitcoinTx_default_def vec_last_def numeral_2_eq_2 insert_commute)

definition cp4 :: checkpoint where
  "cp4 = cp2\<lparr>cp_batches := [\<lparr>ba_signed_txs = 1, ba_batch = [run_tx0 [0] (Some (0 # demo_key 1)) 1 run_outs]\<rparr>],
     cp_signed_at_btc_height := Some 802370, cp_status := Complete\<rparr>"

definition run7 :: store where
  "run7 = run6\<lparr>st_checkpoints := \<lparr>dq_head = 0, dq_tail = 2, dq_cells = [0 \<mapsto> cp4, 1 \<mapsto> cp3]\<rparr>\<rparr>"

lemma run6_sels [simp]: "st_checkpoints run6 = \<lparr>dq_head = 0, dq_tail = 2, dq_cells = [0 \<mapsto> cp2, 1 \<mapsto> cp3]\<rparr>"
  "st_building_index run6 = Some 1"
  by (simp_all add: run6_def)

lemma run_signature: "execute std_ext (demo_env 1500) run6 (caller ''v'') (SubmitCheckpointSignature (demo_xpub 1) [0 # demo_key 1] 0 802370) =
    Ok ([], run7)"
  by (simp add: execute_def submit_checkpoint_signature_def CheckpointQueue_sign_def queue_eval Checkpoint_sign_def
   ThresholdSig_needs_sig_def ThresholdSig_sign_def ThresholdSig_secp_verify_def throw_if_def Batch_signed_def BitcoinTx_signed_def
   Checkpoint_advance_def all_batches_signed,
    simp add: run_ts_def ThresholdSig_signed_def std_sels throw_if_def std_ext_def)
    (simp add: run7_def cp4_def run_tx0_def run_ts_def add_w_def Batch_signed_def Checkpoint_advance_def fun_upd_twist)

section \<open>The payout\<close>

definition run8 :: store where
  "run8 = run7\<lparr>st_checkpoints := \<lparr>dq_head = 0, dq_tail = 2, dq_cells = [0 \<mapsto> cp4\<lparr>cp_pending := []\<rparr>, 1 \<mapsto> cp3]\<rparr>,
     st_block_hashes := {[1], [2], [3]}\<rparr>"

definition run_payout :: "cosmos_msg list" where
  "run_payout = [MintTokens ''tf'' (get_full_btc_denom ''tf'') 176537000000 ''u'']"

lemma run7_sels [simp]: "st_checkpoints run7 = \<lparr>dq_head = 0, dq_tail = 2, dq_cells = [0 \<mapsto> cp4, 1 \<mapsto> cp3]\<rparr>"
  "st_bitcoin_config run7 = Some BitcoinConfig_bitcoin" "st_checkpoint_config run7 = Some CheckpointConfig_default"
  "st_building_index run7 = Some 1" "st_config run7 = Some run_config" "st_fee_pool run7 = Some 11473000000"
  "st_validators run7 = [([1], 10, ''v'')]" "st_sig_keys run7 = [([1], demo_xpub 1)]" "st_block_hashes run7 = {[1], [2]}"
  "st_confirmed_index run7 = None" "st_first_unhandled_confirmed_index run7 = Some 0" "st_token_fee_ratio run7 = None"
  by (simp_all add: run7_def run6_def run5_def run4_def run_defs)

lemma cp4_sels [simp]: "cp_status cp4 = Complete" "cp_sigset cp4 = run_set 1000 0"
  "cp_pending cp4 = [(Dest_Address ''u'', \<lparr>coin_denom = get_full_btc_denom ''tf'', coin_amount = 176537000000\<rparr>)]"
  "cp_status cp3 = Building" "cp_sigset cp3 = run_set 1400 1" "cp_pending cp3 = []"
  by (simp_all add: cp4_def cp3_def cp2_def cp1_def cp0_def)

lemma run_reserve: "Checkpoint_reserve_output std_ext (cp4\<lparr>cp_pending := []\<rparr>) = Ok (Some (run_outs ! 0))"
  by (simp add: Checkpoint_reserve_output_def Checkpoint_checkpoint_tx_def cp4_def vec_get_def BatchType_Checkpoint_def
    BitcoinTx_to_bitcoin_tx_def Input_to_txin_def run_ts_def ThresholdSig_to_witness_def ThresholdSig_signed_def index_r_def vec_first_def vec_last_def run_outs_def share_witness_def std_ext_def)

lemma run_payout: "payout_msgs std_ext (demo_env t) (run7\<lparr>st_checkpoints := d\<rparr>) run_config
   (Dest_Address ''u'', \<lparr>coin_denom = get_full_btc_denom ''tf'', coin_amount = 176537000000\<rparr>) [] = Ok run_payout"
  by (simp add: payout_msgs_def process_deduct_fee_def deduct_token_fee_def deduct_relayer_fee_def run_config_def Let_def checked_sub_def
     Dest_build_cosmos_msg_def run_payout_def)

lemma run_block3: "sudo std_ext (demo_env 1600) run7 (ClockEndBlock [3]) = Ok (run_payout, run8)"
  by (simp add: block_eval queue_eval Bitcoin_value_locked_def run_payout CheckpointQueue_last_completed_def run_reserve [simplified]
      run_outs_def should_push_building_def Checkpoint_create_time_def)
    (simp add: run8_def insert_commute fun_upd_twist)

section \<open>The properties of live states\<close>

lemma queue_run:
  "queue run0 = []" "queue run1 = []" "queue run2 = []" "queue run3 = [cp0]" "queue run4 = [cp0]" "queue run5 = [cp1]"
  "queue run6 = [cp2, cp3]" "queue run7 = [cp4, cp3]" "queue run8 = [cp4\<lparr>cp_pending := []\<rparr>, cp3]"
  by (simp_all add: queue_def run8_def run7_def run4_def run_defs dq_items_def dq_len_def dq_pos_def dq_empty_def u32_space_def upt_rec)

lemma run_in_service: "in_service run1" "in_service run2" "in_service run3" "in_service run4" "in_service run5" "in_service run6"
  "in_service run7" "in_service run8"
  by (simp_all add: in_service_def queue_run) (simp_all add: run8_def run7_def run4_def run_defs dq_empty_def)

lemma run_priced: "priced 1000000 run1" "priced 1000000 run2" "priced 1000000 run3" "priced 1000000 run4" "priced 1000000 run5"
  "priced 1000000 run6" "priced 1000000 run7" "priced 1000000 run8"
  by (simp_all add: priced_def run8_def run6_def) (simp_all add: run_defs)

lemma run_books:
  "tx_net cp0 = 0" "tx_net cp1 = 200000" "tx_net cp3 = 188010" "tx_in cp0 = 0" "tx_in cp1 = 200000" "tx_in cp3 = 188010"
  by (simp_all add: tx_net_def tx_in_def first_tx_def index_r_def BatchType_Checkpoint_def cp3_def cp0_def BitcoinTx_default_def)

lemma run_auditable: "auditable run1" "auditable run2" "auditable run3" "auditable run4" "auditable run5" "auditable run6"
  "auditable run7" "auditable run8"
  by (simp_all add: auditable_def run_priced holdings_def queue_run run_books)

lemma run_ledger: "ledger std_ext [(run_deposit, 200000000000)] [] run7"
  and run_ledger_paid: "ledger std_ext [(run_deposit, 200000000000)] run_payout run8"
proof -
  have typed: "env_typed (demo_env t)" if "t < 2000" for t using that by (simp add: env_typed_def)
  have credit: "credits std_ext (demo_env 1200) run4 (RelayDeposit (demo_tx (0 # run_redeem (as_bytes ''u''))) 802369 [1, 1] 0 0 (Dest_Address ''u''))
      = [(run_deposit, 200000000000)]"
    by (simp add: credits_def deposit_credit_def queue_eval cp0_def demo_tx_def run_deposit_def std_sels)
  have "ledger std_ext [] [] run0" by (rule ledger.opened [OF run_instantiate])
  from ledger.executed [OF this run_validators _ _ run_in_service(1) run_auditable(1)] typed
  have "ledger std_ext [] [] run1" by (simp add: credits_def)
  from ledger.executed [OF this run_key _ _ run_in_service(2) run_auditable(2)] typed
  have "ledger std_ext [] [] run2" by (simp add: credits_def)
  from ledger.block_ended [OF this run_block1 _ run_in_service(3) run_auditable(3)] typed
  have "ledger std_ext [] [] run3" by simp
  from ledger.executed [OF this run_headers _ _ run_in_service(4) run_auditable(4)] typed
  have "ledger std_ext [] [] run4" by (simp add: credits_def)
  from ledger.executed [OF this run_relay _ _ run_in_service(5) run_auditable(5)] typed
  have "ledger std_ext [(run_deposit, 200000000000)] [] run5" unfolding credit by (simp add: demo_tx_def)
  from ledger.block_ended [OF this run_block2 _ run_in_service(6) run_auditable(6)] typed
  have "ledger std_ext [(run_deposit, 200000000000)] [] run6" by simp
  from ledger.executed [OF this run_signature _ _ run_in_service(7) run_auditable(7)] typed
  show 7: "ledger std_ext [(run_deposit, 200000000000)] [] run7" by (simp add: credits_def)
  from ledger.block_ended [OF 7 run_block3 _ run_in_service(8) run_auditable(8)] typed
  show "ledger std_ext [(run_deposit, 200000000000)] run_payout run8" by simp
qed

lemma run_live: "live std_ext run7"
  using run_ledger by (rule ledger_live)

text \<open>After the payout, 176,537 of the 188,010 satoshis that are left belong to the holder of the tokens, the rest to the fee pool.\<close>

theorem tokens_backed_witness:
  "ledger std_ext [(run_deposit, 200000000000)] run_payout run8 \<and> tokens_minted run_payout = 176537000000 \<and>
     reserve run8 = 188010 \<and> due run8 = 0 \<and> Bitcoin_fee_pool run8 \<le> 188010000000 - 176537000000"
proof -
  have "tokens_minted run_payout = 176537000000" "tokens_burned run_payout = 0" by (simp_all add: run_payout_def)
  moreover have "reserve run8 = 188010" "due run8 = 0" by (simp_all add: reserve_def due_def queue_run run_books)
  ultimately show ?thesis
    using tokens_backed [OF std.contract_deques_axioms run_ledger_paid] run_ledger_paid by simp
qed

theorem minted_from_deposits_witness:
  "ledger std_ext [(run_deposit, 200000000000)] [] run7 \<and> 0 < due run7 \<and> due run7 \<le> 200000000000"
  using minted_from_deposits [OF std.contract_deques_axioms run_ledger] run_ledger
  by (simp add: due_def queue_run)

theorem complete_checkpoint_signed_witness:
  "live std_ext run7 \<and> cp_status (queue run7 ! 0) = Complete \<and>
     list_all (entry_valid std_ext [0]) (ts_sigs (run_ts [0] (Some (0 # demo_key 1)))) \<and>
     3 * signed_power (ts_sigs (run_ts [0] (Some (0 # demo_key 1)))) > 2 * 10"
proof -
  have status: "0 < length (queue run7)" "cp_status (queue run7 ! 0) = Complete" by (simp_all add: queue_run cp4_def)
  note C = complete_checkpoint_signed [OF std.contract_deques_axioms run_live status]
  have tx: "tx = run_tx0 [0] (Some (0 # demo_key 1)) 1 run_outs" if "one_tx (queue run7 ! 0) (Suc 0) tx" for tx
    using that by (simp add: queue_run one_tx_def cp4_def)
  have "list_all (entry_valid std_ext [0]) (ts_sigs (run_ts [0] (Some (0 # demo_key 1)))) \<and>
      3 * signed_power (ts_sigs (run_ts [0] (Some (0 # demo_key 1)))) > 2 * 10"
    using C by (auto dest!: tx simp: std_sels) (auto simp: run_ts_def dest!: sym [of _ "ss_signatories _"])
  then show ?thesis using run_live status(2) by blast
qed

theorem live_queue_shape_witness:
  "live std_ext run7 \<and> CheckpointQueue_index run7 = Ok 1 \<and> map cp_status (queue run7) = [Complete, Building]"
proof -
  obtain i where "CheckpointQueue_index run7 = Ok i" "length (queue run7) = i + 1"
      "\<forall>j < length (queue run7). j + 1 = length (queue run7) \<longrightarrow> cp_status (queue run7 ! j) = Building"
    using live_queue_shape [OF std.contract_deques_axioms run_live] queue_run(8) by auto
  then show ?thesis using run_live by (simp add: queue_run cp4_def)
qed

theorem stored_integers_typed_witness:
  "live std_ext run7 \<and> list_all cp_typed [cp4, cp3] \<and> st_building_index run7 = Some 1"
  using stored_integers_typed [OF std.contract_deques_axioms run_live] run_live by (simp add: queue_run)

text \<open>The validator's key is registered; nobody can register it again.\<close>

theorem signatory_keys_distinct_witness:
  "contract_run std_ext run0 run2 \<and> SignatoryKeys_get run2 [1] = Some (demo_xpub 1) \<and>
     (\<forall>env info r. execute std_ext env run2 info (SetSignatoryKey (demo_xpub 1)) \<noteq> Ok r)"
proof -
  have run: "contract_run std_ext run0 run2"
    using contract_step.by_execute [OF run_validators] contract_step.by_execute [OF run_key] by auto
  have "SignatoryKeys_get run2 [1] = Some (demo_xpub 1)" by (simp add: run2_def SignatoryKeys_get_def)
  then show ?thesis
    using signatory_keys_distinct [OF std_keys.xpub_encoding_axioms run_instantiate run] run by blast
qed

end
