(* ===== verification/Client.thy ===== *)
theory Client
  imports Interface
begin

text \<open>
  The client crate \<^verbatim>\<open>wasm/src\<close>, which relayers and signers run in JavaScript. It has its own
  copies of the contract's signatory sets, threshold signatures and headers, its own error type and
  its own version of the \<^verbatim>\<open>bitcoin\<close> crate. This theory holds what the client's components share:
  \<^verbatim>\<open>error.rs\<close>, the constants of \<^verbatim>\<open>lib.rs\<close>, the functions of the linked crates, the destinations of
  \<^verbatim>\<open>interface.rs\<close> and the encodings of \<^verbatim>\<open>helpers.rs\<close>. The structs of both crates have the same
  fields (they are exchanged as JSON), so the records of the contract's model are used for both.

  The last section says when a call of the client and one of the contract agree, with one rule per
  construct of the model; the copies are compared by applying these rules.
\<close>

section \<open>Errors\<close>

text \<open>\<^verbatim>\<open>ContractError\<close> of the client; a payload of another crate is kept as its message.\<close>

datatype client_error =
    Client_Wasm string
  | Client_SerWasm string
  | Client_Bitcoin string
  | Client_ParseOutPoint string
  | Client_BitcoinHash string
  | Client_BitcoinLockTime string
  | Client_Base64Decode string
  | Client_BitcoinHashes string
  | Client_BitcoinEncode string
  | Client_Bip32 string
  | Client_Sighash string
  | Client_TryFrom string
  | Client_App string
  | Client_Secp string
  | Client_Io string

type_synonym 'a client_result = "(client_error, 'a) outcome"

text \<open>The message JavaScript gets: the conversion into \<^verbatim>\<open>JsValue\<close> keeps the string only.\<close>

fun client_error_to_string :: "client_error \<Rightarrow> string" where
  "client_error_to_string (Client_Wasm s) = s"
| "client_error_to_string (Client_SerWasm s) = s"
| "client_error_to_string (Client_Bitcoin s) = s"
| "client_error_to_string (Client_ParseOutPoint s) = s"
| "client_error_to_string (Client_BitcoinHash s) = s"
| "client_error_to_string (Client_BitcoinLockTime s) = s"
| "client_error_to_string (Client_Base64Decode s) = s"
| "client_error_to_string (Client_BitcoinHashes s) = s"
| "client_error_to_string (Client_BitcoinEncode s) = s"
| "client_error_to_string (Client_Bip32 s) = s"
| "client_error_to_string (Client_Sighash s) = s"
| "client_error_to_string (Client_TryFrom s) = s"
| "client_error_to_string (Client_App s) = ''App Error: '' @ s"
| "client_error_to_string (Client_Secp s) = s"
| "client_error_to_string (Client_Io s) = s"

text \<open>The \<^verbatim>\<open>?\<close> operator on a result of another crate, whose error \<^verbatim>\<open>From\<close> wraps.\<close>

definition from_lib :: "(string \<Rightarrow> client_error) \<Rightarrow> string + 'a \<Rightarrow> 'a client_result" where
  "from_lib wrap r = (case r of Inl m \<Rightarrow> Err (wrap m) | Inr x \<Rightarrow> Ok x)"

lemma from_lib_simps [simp]: "from_lib w (Inl m) = Err (w m)" "from_lib w (Inr x) = Ok x"
  by (simp_all add: from_lib_def)

lemma from_lib_Inr_iff [ok_simps]: "from_lib w r = Inr x \<longleftrightarrow> r = Inr x"
  by (cases r) simp_all

section \<open>The crates the client links\<close>

text \<open>
  The functions of \<^verbatim>\<open>ext\<close> and \<^verbatim>\<open>iface_ext\<close> as the client's versions of the crates have them, and
  those only the client calls.
\<close>

record client_ext = iface_ext +
  \<comment> \<open>\<^verbatim>\<open>serde_json_wasm::to_vec\<close> of a structure, given by its fields\<close>
  json_to_vec :: "(string \<times> json_value) list \<Rightarrow> string + bytes"
  \<comment> \<open>\<^verbatim>\<open>secp256k1::Message::from_slice\<close>, \<^verbatim>\<open>ecdsa::Signature::from_compact\<close> and \<^verbatim>\<open>serialize_der\<close>,
     \<^verbatim>\<open>Secp256k1::verify_ecdsa\<close>\<close>
  message_from_slice :: "bytes \<Rightarrow> string + message"
  signature_from_compact :: "bytes \<Rightarrow> string + signature"
  signature_serialize_der :: "signature \<Rightarrow> bytes"
  verify_ecdsa :: "message \<Rightarrow> signature \<Rightarrow> pubkey \<Rightarrow> string + unit"
  \<comment> \<open>\<^verbatim>\<open>FromHex\<close> and \<^verbatim>\<open>ToHex\<close> of scripts, \<^verbatim>\<open>FromHex\<close> of bytes\<close>
  script_from_hex :: "string \<Rightarrow> string + script"
  script_to_hex :: "script \<Rightarrow> string"
  bytes_from_hex :: "string \<Rightarrow> string + bytes"
  \<comment> \<open>\<^verbatim>\<open>consensus::encode::deserialize\<close> of a transaction, \<^verbatim>\<open>Txid::to_string\<close>\<close>
  deserialize_tx :: "bytes \<Rightarrow> string + transaction"
  txid_to_string :: "txid \<Rightarrow> string"
  \<comment> \<open>\<^verbatim>\<open>base64::encode\<close> and \<^verbatim>\<open>base64::decode\<close>\<close>
  base64_encode :: "bytes \<Rightarrow> string"
  base64_decode :: "string \<Rightarrow> string + bytes"

section \<open>Constants\<close>

definition Client_NETWORK :: network where "Client_NETWORK = Mainnet"
definition Client_SIGSET_THRESHOLD :: "u64 \<times> u64" where "Client_SIGSET_THRESHOLD = (2, 3)"
definition Client_HEADER_BATCH_SIZE :: nat where "Client_HEADER_BATCH_SIZE = 250"
definition Client_MAX_SIGNATORIES :: u64 where "Client_MAX_SIGNATORIES = 20"
definition Client_MAX_LENGTH :: u64 where "Client_MAX_LENGTH = 24192"
definition Client_MAX_RELAY :: u64 where "Client_MAX_RELAY = 1000"
definition Client_MAX_TIME_INCREASE :: u32 where "Client_MAX_TIME_INCREASE = 2 * 60 * 60"
definition Client_RETARGET_INTERVAL :: u32 where "Client_RETARGET_INTERVAL = 2016"
definition Client_TARGET_SPACING :: u32 where "Client_TARGET_SPACING = 10 * 60"
definition Client_TARGET_TIMESPAN :: u32 where
  "Client_TARGET_TIMESPAN = Client_RETARGET_INTERVAL * Client_TARGET_SPACING"
definition Client_MAX_TARGET :: u32 where "Client_MAX_TARGET = 0x1d00ffff"

definition getGlobalSigsetThreshold :: "u64 list" where
  "getGlobalSigsetThreshold = [fst Client_SIGSET_THRESHOLD, snd Client_SIGSET_THRESHOLD]"

definition getGlobalHeaderBatchSize :: nat where
  "getGlobalHeaderBatchSize = Client_HEADER_BATCH_SIZE"

definition getMaxSignatories :: u64 where
  "getMaxSignatories = Client_MAX_SIGNATORIES"

section \<open>Destinations\<close>

definition Client_Dest_to_receiver_addr :: "dest \<Rightarrow> string" where
  "Client_Dest_to_receiver_addr self =
     (case self of Dest_Address addr \<Rightarrow> addr | Dest_Ibc d \<Rightarrow> ib_receiver d)"

definition Client_Dest_to_source_addr :: "dest \<Rightarrow> string" where
  "Client_Dest_to_source_addr self =
     (case self of Dest_Address addr \<Rightarrow> addr | Dest_Ibc d \<Rightarrow> ib_sender d)"

text \<open>The client's own \<^verbatim>\<open>IbcDest\<close>, with its fields in the order of its declaration.\<close>

definition Client_IbcDest_serialize :: "ibc_dest \<Rightarrow> (string \<times> json_value) list" where
  "Client_IbcDest_serialize self =
     [(''source_port'', JsonString (ib_source_port self)),
      (''source_channel'', JsonString (ib_source_channel self)),
      (''receiver'', JsonString (ib_receiver self)),
      (''sender'', JsonString (ib_sender self)),
      (''timeout_timestamp'', JsonU64 (ib_timeout_timestamp self)),
      (''memo'', JsonString (ib_memo self))]"

definition Client_Dest_commitment_bytes :: "'x client_ext_scheme \<Rightarrow> dest \<Rightarrow> bytes client_result" where
  "Client_Dest_commitment_bytes C self =
     (case self of
        Dest_Address addr \<Rightarrow> Ok (as_bytes addr)
      | Dest_Ibc d \<Rightarrow> bnd (from_lib Client_SerWasm (json_to_vec C (Client_IbcDest_serialize d))) (\<lambda>j. Ok (sha256 C j)))"

definition commitmentBytes :: "'x client_ext_scheme \<Rightarrow> dest \<Rightarrow> bytes client_result" where
  "commitmentBytes C d = Client_Dest_commitment_bytes C d"

definition toReceiverAddr :: "dest \<Rightarrow> string" where
  "toReceiverAddr d = Client_Dest_to_receiver_addr d"

definition toSourceAddr :: "dest \<Rightarrow> string" where
  "toSourceAddr d = Client_Dest_to_source_addr d"

text \<open>Raw transactions and extended keys: both \<^verbatim>\<open>unwrap\<close>s of \<^verbatim>\<open>decodeRawTx\<close> panic on bad input.\<close>

definition decodeRawTx :: "'x client_ext_scheme \<Rightarrow> string \<Rightarrow> transaction client_result" where
  "decodeRawTx C raw_tx =
     bnd (unwrap_res (from_lib Client_BitcoinHashes (bytes_from_hex C raw_tx))) (\<lambda>bytes.
     unwrap_res (from_lib Client_BitcoinEncode (deserialize_tx C bytes)))"

definition getBitcoinTransactionTxid :: "'x client_ext_scheme \<Rightarrow> transaction \<Rightarrow> string" where
  "getBitcoinTransactionTxid C tx = txid_to_string C (tx_txid C tx)"

definition encodeXpub :: "'x client_ext_scheme \<Rightarrow> xpub \<Rightarrow> string" where
  "encodeXpub C xpub = base64_encode C (xpub_encode C xpub)"

section \<open>Encodings\<close>

text \<open>
  The macro \<^verbatim>\<open>encode_ops\<close> makes four functions for each of five types of the \<^verbatim>\<open>bitcoin\<close> crate. The
  consensus encoding of the type is an argument: \<open>enc\<close> writes into a vector, \<open>dec\<close> reads a value
  from the front of a slice and ignores what follows.
\<close>

definition toBase64 :: "'x client_ext_scheme \<Rightarrow> ('a \<Rightarrow> string + bytes) \<Rightarrow> 'a \<Rightarrow> string client_result" where
  "toBase64 C enc inner =
     bnd (from_lib Client_Io (enc inner)) (\<lambda>dest. Ok (base64_encode C dest))"

definition fromBase64 :: "'x client_ext_scheme \<Rightarrow> (bytes \<Rightarrow> string + 'a) \<Rightarrow> string \<Rightarrow> 'a client_result" where
  "fromBase64 C dec value =
     bnd (from_lib Client_Base64Decode (base64_decode C value)) (\<lambda>slice.
     from_lib Client_BitcoinEncode (dec slice))"

definition toBinary :: "('a \<Rightarrow> string + bytes) \<Rightarrow> 'a \<Rightarrow> bytes client_result" where
  "toBinary enc inner = from_lib Client_Io (enc inner)"

definition fromBinary :: "(bytes \<Rightarrow> string + 'a) \<Rightarrow> bytes \<Rightarrow> 'a client_result" where
  "fromBinary dec value = from_lib Client_BitcoinEncode (dec value)"

text \<open>What was written is read back, in both forms, and both forms carry the same bytes.\<close>

lemma base64_roundtrip:
  assumes "base64_decode C (base64_encode C b) = Inr b" and "enc x = Inr b" and "dec b = Inr x"
  shows "bnd (toBase64 C enc x) (fromBase64 C dec) = Ok x" and "bnd (toBinary enc x) (fromBinary dec) = Ok x"
    and "toBase64 C enc x = map_sum id (base64_encode C) (toBinary enc x)"
  using assms by (simp_all add: toBase64_def fromBase64_def toBinary_def fromBinary_def)

section \<open>Agreement of the two crates\<close>

text \<open>
  A call of the contract and one of the client agree when both return the same value, both fail
  with the same message, or both panic.
\<close>

definition agree :: "'a result \<Rightarrow> 'a client_result \<Rightarrow> bool" where
  "agree r c \<longleftrightarrow> rel_sum (rel_failure (\<lambda>e e'. error_to_string e = client_error_to_string e')) (=) r c"

named_theorems agree_intros \<open>agreement of the constructs of the model\<close>

lemma agree_simps [simp]:
  "agree (Ok x) c \<longleftrightarrow> c = Ok x" "agree r (Ok x) \<longleftrightarrow> r = Ok x"
  "agree panic panic" "agree (Err e) (Err e') \<longleftrightarrow> error_to_string e = client_error_to_string e'"
  by (cases c, auto simp: agree_def) (cases r, auto simp: agree_def)

lemma agree_Ok [agree_intros]: "agree (Ok x) (Ok x)"
  by simp

lemma agree_App [agree_intros]: "agree (Err (App s)) (Err (Client_App s))"
  by simp

lemma agree_panic [agree_intros]: "agree panic panic"
  by simp

lemma agree_bnd [agree_intros]:
  "agree m n \<Longrightarrow> (\<And>x. m = Ok x \<Longrightarrow> agree (f x) (g x)) \<Longrightarrow> agree (bnd m f) (bnd n g)"
  by (cases m; cases n) (auto simp: agree_def)

lemma agree_if [agree_intros]:
  "(c \<Longrightarrow> agree a a') \<Longrightarrow> (\<not> c \<Longrightarrow> agree b b') \<Longrightarrow> agree (if c then a else b) (if c then a' else b')"
  by simp

lemma agree_ok_or [agree_intros]: "agree (ok_or (App s) x) (ok_or (Client_App s) x)"
  by (cases x) simp_all

lemma agree_unwrap [agree_intros]: "agree (unwrap x) (unwrap x)"
  by (cases x) simp_all

lemma agree_throw_if [agree_intros]: "agree (throw_if c (App s)) (throw_if c (Client_App s))"
  by (cases c) simp_all

lemma agree_assert [agree_intros]: "agree (assert_r c) (assert_r c)"
  by (cases c) simp_all

lemma agree_arith [agree_intros]:
  "agree (add_w w a b) (add_w w a b)" "agree (sub_w a b) (sub_w a b)" "agree (mul_w w a b) (mul_w w a b)"
  "agree (div_r a b) (div_r a b)"
  by (simp_all add: add_w_def sub_w_def mul_w_def div_r_def)

lemma agree_fold_r [agree_intros]:
  "(\<And>x s. agree (f x s) (g x s)) \<Longrightarrow> agree (fold_r f xs s) (fold_r g xs s)"
  by (induction xs arbitrary: s) (auto intro!: agree_intros)

lemma agree_map_r [agree_intros]:
  "(\<And>x. agree (f x) (g x)) \<Longrightarrow> agree (map_r f xs) (map_r g xs)"
  by (induction xs) (auto intro!: agree_intros)

lemma agree_sum_u64 [agree_intros]: "agree (sum_u64 a xs) (sum_u64 a xs)"
  by (induction xs arbitrary: a) (auto intro!: agree_intros)

text \<open>
  The crates the client links do what those of the contract do: both build, read and hash scripts
  in the same way, accept the same keys with the same messages, and encode a destination to the
  same bytes. (A struct of strings and a number can always be encoded.)
\<close>

locale same_crates =
  fixes C :: "'x client_ext_scheme" and E :: "'y iface_ext_scheme"
  assumes build_script [simp]: "build_script C = build_script E"
    and script_instructions [simp]: "script_instructions C = script_instructions E"
    and read_scriptint [simp]: "read_scriptint C = read_scriptint E"
    and opcode_debug [simp]: "opcode_debug C = opcode_debug E"
    and to_v0_p2wsh [simp]: "to_v0_p2wsh C = to_v0_p2wsh E"
    and public_key_from_slice [simp]: "public_key_from_slice C = public_key_from_slice E"
    and header_work [simp]: "header_work C = header_work E"
    and sha256 [simp]: "sha256 C = sha256 E"
    and json: "\<exists>j. json_to_vec C fs = Inr j \<and> to_json_vec E fs = Ok j"
begin

lemma commitment_agree: "agree (Dest_commitment_bytes E d) (Client_Dest_commitment_bytes C d)"
proof (cases d)
  case (Dest_Ibc i)
  have "Client_IbcDest_serialize i = IbcDest_serialize i"
    by (simp only: Client_IbcDest_serialize_def IbcDest_serialize_def)
  then show ?thesis
    using json [of "IbcDest_serialize i"] by (auto simp: Dest_Ibc Dest_commitment_bytes_def Client_Dest_commitment_bytes_def)
qed (simp add: Dest_commitment_bytes_def Client_Dest_commitment_bytes_def)

end

lemma receiver_agree:
  "Client_Dest_to_receiver_addr d = Dest_to_receiver_addr d"
  "Client_Dest_to_source_addr d = Dest_to_source_addr d"
  by (simp_all add: Client_Dest_to_receiver_addr_def Dest_to_receiver_addr_def
      Client_Dest_to_source_addr_def Dest_to_source_addr_def)

end
