(* ===== verification/Adapter.thy ===== *)
theory Adapter
  imports Client Header
begin

text \<open>
  How values of the \<^verbatim>\<open>bitcoin\<close> crate travel as text: \<^verbatim>\<open>adapter.rs\<close> of the contract and of the client, and
  the text form of \<^verbatim>\<open>Xpub\<close> in \<^verbatim>\<open>interface.rs\<close>. Both adapters write the consensus encoding of the value as a base64
  string, the contract through \<^verbatim>\<open>cosmwasm_std::Binary\<close>, the client through the \<^verbatim>\<open>base64\<close> crate. The rest of the
  development reads an \<^verbatim>\<open>Adapter<T>\<close> as the value it wraps, which \<^verbatim>\<open>Deref\<close> makes of it; here the wrapper is explicit.
  The encodings of the crates are arguments, and the locales say what is relied on of them.
\<close>

section \<open>The crates\<close>

text \<open>
  \<^verbatim>\<open>Encodable\<close> and \<^verbatim>\<open>Decodable\<close> of a type of the \<^verbatim>\<open>bitcoin\<close> crate: decoding reads a value from the front of
  a slice and leaves the rest of it.
\<close>

record 'a consensus =
  consensus_encode :: "'a \<Rightarrow> string + bytes"
  consensus_decode :: "bytes \<Rightarrow> string + 'a \<times> bytes"

text \<open>\<^verbatim>\<open>Serialize\<close> and \<^verbatim>\<open>Deserialize\<close> of \<^verbatim>\<open>Binary\<close> and of \<^verbatim>\<open>String\<close>, for values \<open>'v\<close> of a data format such as JSON.\<close>

record 'v serde =
  binary_serialize :: "bytes \<Rightarrow> string + 'v"
  binary_deserialize :: "'v \<Rightarrow> string + bytes"
  string_serialize :: "string \<Rightarrow> string + 'v"
  string_deserialize :: "'v \<Rightarrow> string + string"

text \<open>The operator \<^verbatim>\<open>?\<close> after \<^verbatim>\<open>map_err(Error::custom)\<close>, which keeps the message.\<close>

definition custom :: "string + 'a \<Rightarrow> ('a \<Rightarrow> string + 'b) \<Rightarrow> string + 'b" where
  "custom r f = (case r of Inl m \<Rightarrow> Inl m | Inr x \<Rightarrow> f x)"

lemma custom_simps [simp]: "custom (Inl m) f = Inl m" "custom (Inr x) f = f x"
  by (simp_all add: custom_def)

section \<open>Adapters of the contract\<close>

datatype 'a adapter = Adapter (ad_inner: 'a)

definition Adapter_new :: "'a \<Rightarrow> 'a adapter" where
  "Adapter_new inner = Adapter inner"

definition Adapter_into_inner :: "'a adapter \<Rightarrow> 'a" where
  "Adapter_into_inner self = ad_inner self"

definition Adapter_from :: "'a \<Rightarrow> 'a adapter" where
  "Adapter_from value = Adapter_new value"

definition Adapter_default :: "'a \<Rightarrow> 'a adapter" where
  "Adapter_default inner_default = Adapter inner_default"

definition Adapter_serialize :: "'v serde \<Rightarrow> 'a consensus \<Rightarrow> 'a adapter \<Rightarrow> string + 'v" where
  "Adapter_serialize S K self =
     custom (consensus_encode K (ad_inner self)) (\<lambda>dest. binary_serialize S dest)"

definition Adapter_deserialize :: "'v serde \<Rightarrow> 'a consensus \<Rightarrow> 'v \<Rightarrow> string + 'a adapter" where
  "Adapter_deserialize S K deserializer =
     custom (binary_deserialize S deserializer) (\<lambda>v.
     custom (consensus_decode K v) (\<lambda>(inner, _). Inr (Adapter_from inner)))"

text \<open>\<^verbatim>\<open>WrappedBinary\<close>, a newtype whose derived instances are those of the value it wraps.\<close>

datatype 'a wrapped_binary = WrappedBinary 'a

definition WrappedBinary_serialize :: "('a \<Rightarrow> string + 'v) \<Rightarrow> 'a wrapped_binary \<Rightarrow> string + 'v" where
  "WrappedBinary_serialize serialize self = (case self of WrappedBinary x \<Rightarrow> serialize x)"

definition WrappedBinary_deserialize :: "('v \<Rightarrow> string + 'a) \<Rightarrow> 'v \<Rightarrow> string + 'a wrapped_binary" where
  "WrappedBinary_deserialize deserialize deserializer =
     custom (deserialize deserializer) (\<lambda>x. Inr (WrappedBinary x))"

section \<open>Extended public keys\<close>

text \<open>\<^verbatim>\<open>Xpub\<close> wraps an \<^verbatim>\<open>ExtendedPubKey\<close> of the crate, for which the record \<^typ>\<open>xpub\<close> stands.\<close>

definition Xpub_new :: "xpub \<Rightarrow> xpub" where
  "Xpub_new key = key"

definition Xpub_from :: "xpub \<Rightarrow> xpub" where
  "Xpub_from key = key"

definition Xpub_serialize :: "'v serde \<Rightarrow> 'x ext_scheme \<Rightarrow> xpub \<Rightarrow> string + 'v" where
  "Xpub_serialize S E self = (let dest = xpub_encode E self in binary_serialize S dest)"

definition Xpub_deserialize :: "'v serde \<Rightarrow> (bytes \<Rightarrow> string + xpub) \<Rightarrow> 'v \<Rightarrow> string + xpub" where
  "Xpub_deserialize S xpub_decode deserializer =
     custom (binary_deserialize S deserializer) (\<lambda>v.
     custom (xpub_decode v) (\<lambda>inner. Inr (Xpub_from inner)))"

section \<open>Adapters of the client\<close>

definition Client_Adapter_new :: "'a \<Rightarrow> 'a adapter" where
  "Client_Adapter_new inner = Adapter inner"

definition Client_Adapter_from :: "'a \<Rightarrow> 'a adapter" where
  "Client_Adapter_from value = Client_Adapter_new value"

definition Client_Adapter_default :: "'a \<Rightarrow> 'a adapter" where
  "Client_Adapter_default inner_default = Adapter inner_default"

definition Client_Adapter_serialize ::
  "'x client_ext_scheme \<Rightarrow> 'v serde \<Rightarrow> 'a consensus \<Rightarrow> 'a adapter \<Rightarrow> string + 'v"
where
  "Client_Adapter_serialize C S K self =
     custom (consensus_encode K (ad_inner self)) (\<lambda>dest. string_serialize S (base64_encode C dest))"

definition Client_Adapter_deserialize ::
  "'x client_ext_scheme \<Rightarrow> 'v serde \<Rightarrow> 'a consensus \<Rightarrow> 'v \<Rightarrow> string + 'a adapter"
where
  "Client_Adapter_deserialize C S K deserializer =
     custom (string_deserialize S deserializer) (\<lambda>v.
     custom (base64_decode C v) (\<lambda>bytes.
     custom (consensus_decode K bytes) (\<lambda>(inner, _). Inr (Client_Adapter_from inner))))"

section \<open>What the two sides exchange\<close>

text \<open>
  The text forms: a string is written and read back, the base64 of the client is undone by its decoder, and a \<^verbatim>\<open>Binary\<close>
  is a string in the same base64. Only bytes are ever encoded.
\<close>

abbreviation byte_list :: "bytes \<Rightarrow> bool" where
  "byte_list b \<equiv> list_all (\<lambda>x. x < 256) b"

locale text_form =
  fixes C :: "'x client_ext_scheme" and S :: "'v serde"
  assumes string_written: "\<exists>v. string_serialize S s = Inr v"
    and string_read: "string_serialize S s = Inr v \<Longrightarrow> string_deserialize S v = Inr s"
    and base64_read: "byte_list b \<Longrightarrow> base64_decode C (base64_encode C b) = Inr b"
    and binary_written: "byte_list b \<Longrightarrow> binary_serialize S b = string_serialize S (base64_encode C b)"
    and binary_read: "byte_list b \<Longrightarrow> binary_serialize S b = Inr v \<Longrightarrow> binary_deserialize S v = Inr b"
begin

text \<open>The text of some bytes, and that both sides read the bytes from it.\<close>

lemma text_of_bytes:
  assumes "byte_list b"
  obtains v where "string_serialize S (base64_encode C b) = Inr v" "binary_serialize S b = Inr v"
    "string_deserialize S v = Inr (base64_encode C b)" "base64_decode C (base64_encode C b) = Inr b"
    "binary_deserialize S v = Inr b"
proof -
  obtain v where v: "string_serialize S (base64_encode C b) = Inr v" using string_written by blast
  then show thesis
    using that [of v] string_read [OF v] base64_read [OF assms] binary_written [OF assms] binary_read [OF assms] by simp
qed

end

text \<open>The consensus encoding of the valid values of a type: bytes from which the value is read, whatever follows them.\<close>

locale consensus_form =
  fixes K :: "'a consensus" and valid :: "'a \<Rightarrow> bool"
  assumes encoded: "valid x \<Longrightarrow> \<exists>b. consensus_encode K x = Inr b \<and> byte_list b"
    and decoded: "valid x \<Longrightarrow> consensus_encode K x = Inr b \<Longrightarrow> consensus_decode K (b @ rest) = Inr (x, rest)"
begin

lemma encodedE:
  assumes "valid x"
  obtains b where "consensus_encode K x = Inr b" "byte_list b" "\<And>rest. consensus_decode K (b @ rest) = Inr (x, rest)"
  using encoded [OF assms] decoded [OF assms] by blast

end

locale adapter_form = text_form C S + consensus_form K valid
  for C :: "'x client_ext_scheme" and S :: "'v serde" and K :: "'a consensus" and valid :: "'a \<Rightarrow> bool"
begin

lemma adapters_agree:
  assumes "valid x"
  shows "\<exists>v. Adapter_serialize S K (Adapter x) = Inr v \<and> Client_Adapter_serialize C S K (Adapter x) = Inr v \<and>
    bnd (toBase64 C (consensus_encode K) x) (\<lambda>s. from_lib Client_Io (string_serialize S s)) = Ok v \<and>
    Adapter_deserialize S K v = Inr (Adapter x) \<and> Client_Adapter_deserialize C S K v = Inr (Adapter x)"
proof -
  obtain b where b: "consensus_encode K x = Inr b" "byte_list b" "consensus_decode K (b @ []) = Inr (x, [])"
    using assms by (rule encodedE) blast
  from b(2) show ?thesis
    by (rule text_of_bytes)
      (use b in \<open>simp add: Adapter_serialize_def Client_Adapter_serialize_def toBase64_def Adapter_deserialize_def
        Client_Adapter_deserialize_def Adapter_from_def Adapter_new_def Client_Adapter_from_def Client_Adapter_new_def\<close>)
qed

lemma trailing_bytes_ignored:
  assumes "valid x" and "consensus_encode K x = Inr b" and "byte_list b" and "byte_list rest"
  shows "\<exists>v. binary_serialize S (b @ rest) = Inr v \<and>
    Adapter_deserialize S K v = Inr (Adapter x) \<and> Client_Adapter_deserialize C S K v = Inr (Adapter x)"
proof -
  have "byte_list (b @ rest)" using assms(3,4) by simp
  then show ?thesis
    by (rule text_of_bytes)
      (use decoded [OF assms(1,2)] in \<open>simp add: Adapter_deserialize_def
        Client_Adapter_deserialize_def Adapter_from_def Adapter_new_def Client_Adapter_from_def Client_Adapter_new_def\<close>)
qed

end

text \<open>
  C23: What one side writes, the other side reads. For a value that its consensus encoding can carry, the adapter of the contract,
  the adapter of the client and the client's \<^verbatim>\<open>toBase64\<close> functions all write the same text, and the adapters of both sides
  read the value back from it; they read the same value also from a text with bytes behind the encoding, which both ignore. An
  extended key that the client encodes with \<^verbatim>\<open>encodeXpub\<close> is the text the contract writes for it, and the contract reads the
  same key from it.
\<close>

theorem adapter_interop:
  assumes "text_form C S" and "consensus_form K valid" and "valid x" and "byte_list rest"
    and "byte_list (xpub_encode C k)" and "xpub_encode E k = xpub_encode C k" and "xpub_decode (xpub_encode E k) = Inr k"
  shows "(\<exists>v. Adapter_serialize S K (Adapter_new x) = Inr v \<and> Client_Adapter_serialize C S K (Client_Adapter_new x) = Inr v \<and>
      bnd (toBase64 C (consensus_encode K) x) (\<lambda>s. from_lib Client_Io (string_serialize S s)) = Ok v \<and>
      Adapter_deserialize S K v = Inr (Adapter_new x) \<and> Client_Adapter_deserialize C S K v = Inr (Client_Adapter_new x)) \<and>
    (\<exists>b v. consensus_encode K x = Inr b \<and> binary_serialize S (b @ rest) = Inr v \<and>
      Adapter_deserialize S K v = Inr (Adapter_new x) \<and> Client_Adapter_deserialize C S K v = Inr (Client_Adapter_new x)) \<and>
    (\<exists>v. string_serialize S (encodeXpub C k) = Inr v \<and> WrappedBinary_serialize (Xpub_serialize S E) (WrappedBinary k) = Inr v \<and>
      WrappedBinary_deserialize (Xpub_deserialize S xpub_decode) v = Inr (WrappedBinary k))"
proof -
  have form: "adapter_form C S K valid" using assms(1,2) by (simp add: adapter_form_def)
  note agree = adapter_form.adapters_agree [OF form assms(3)]
  obtain b where b: "consensus_encode K x = Inr b" "byte_list b"
    using consensus_form.encoded [OF assms(2,3)] by blast
  note rest = adapter_form.trailing_bytes_ignored [OF form assms(3) b assms(4)]
  from assms(1,5) have "\<exists>v. string_serialize S (encodeXpub C k) = Inr v \<and>
      WrappedBinary_serialize (Xpub_serialize S E) (WrappedBinary k) = Inr v \<and>
      WrappedBinary_deserialize (Xpub_deserialize S xpub_decode) v = Inr (WrappedBinary k)"
    by (rule text_form.text_of_bytes)
      (use assms(6,7) in \<open>simp add: encodeXpub_def WrappedBinary_serialize_def WrappedBinary_deserialize_def
        Xpub_serialize_def Xpub_deserialize_def Xpub_from_def\<close>)
  then show ?thesis using agree rest b(1) by (simp add: Adapter_new_def Client_Adapter_new_def)
qed

end
