(* ===== verification/ClientSignatory.thy ===== *)
theory ClientSignatory
  imports Client Script
begin

text \<open>
  \<^verbatim>\<open>signatory.rs\<close> and \<^verbatim>\<open>Pubkey\<close> of \<^verbatim>\<open>threshold_sig.rs\<close> of the client: its copies of the signatory
  sets, of the redeem script and of the parser that reads a set back from a script, which
  \<^verbatim>\<open>newSignatorySet\<close> exports to JavaScript. The last section shows that the copies did not drift: each
  of them agrees with the contract's function of the same name.
\<close>

section \<open>Data\<close>

text \<open>The client's structs have the fields of the contract's, with which they are exchanged as JSON.\<close>

type_synonym client_signatory = signatory
type_synonym client_signatory_set = signatory_set

section \<open>Public keys\<close>

definition Client_Pubkey_default :: pubkey where
  "Client_Pubkey_default = replicate PUBLIC_KEY_SIZE 0"

definition Client_Pubkey_new :: "'x client_ext_scheme \<Rightarrow> bytes \<Rightarrow> pubkey client_result" where
  "Client_Pubkey_new C pubkey =
     (case public_key_from_slice C pubkey of
        Inl err \<Rightarrow> Err (Client_App (''Error deserializing public key from slice: '' @ err))
      | Inr _ \<Rightarrow> Ok pubkey)"

definition Client_Pubkey_try_from_slice :: "'x client_ext_scheme \<Rightarrow> bytes \<Rightarrow> pubkey client_result" where
  "Client_Pubkey_try_from_slice C bytes =
     (if length bytes \<noteq> PUBLIC_KEY_SIZE then Err (Client_App ''Incorrect length'')
      else Client_Pubkey_new C bytes)"

section \<open>Signatory sets\<close>

definition Client_SignatorySet_insert :: "client_signatory_set \<Rightarrow> client_signatory \<Rightarrow> client_signatory_set client_result" where
  "Client_SignatorySet_insert self s =
     bnd (add_u64 (ss_present_vp self) (sg_voting_power s)) (\<lambda>vp.
     Ok (self\<lparr>ss_present_vp := vp, ss_signatories := ss_signatories self @ [s]\<rparr>))"

definition Client_SignatorySet_sort_and_truncate :: "client_signatory_set \<Rightarrow> client_signatory_set client_result" where
  "Client_SignatorySet_sort_and_truncate self =
     (let sorted_sigs = rev (sort (ss_signatories self))
      in if length sorted_sigs > Client_MAX_SIGNATORIES
         then bnd (fold_r (\<lambda>removed vp. sub_w vp (sg_voting_power removed))
                     (drop Client_MAX_SIGNATORIES sorted_sigs) (ss_present_vp self)) (\<lambda>vp.
              Ok (self\<lparr>ss_present_vp := vp, ss_signatories := take Client_MAX_SIGNATORIES sorted_sigs\<rparr>))
         else Ok (self\<lparr>ss_signatories := sorted_sigs\<rparr>))"

definition Client_SignatorySet_signature_threshold :: "client_signatory_set \<Rightarrow> u64 \<times> u64 \<Rightarrow> u64 client_result" where
  "Client_SignatorySet_signature_threshold self ratio =
     bnd (mul_w 128 (ss_present_vp self) (fst ratio)) (\<lambda>p.
     bnd (div_r p (snd ratio)) (\<lambda>q.
     Ok (as_u64 q)))"

definition Client_SignatorySet_quorum_threshold :: "client_signatory_set \<Rightarrow> u64" where
  "Client_SignatorySet_quorum_threshold self = ss_possible_vp self div 2"

definition Client_SignatorySet_present_vp :: "client_signatory_set \<Rightarrow> u64" where
  "Client_SignatorySet_present_vp self = ss_present_vp self"

definition Client_SignatorySet_possible_vp :: "client_signatory_set \<Rightarrow> u64" where
  "Client_SignatorySet_possible_vp self = ss_possible_vp self"

definition Client_SignatorySet_has_quorum :: "client_signatory_set \<Rightarrow> bool" where
  "Client_SignatorySet_has_quorum self \<longleftrightarrow> Client_SignatorySet_quorum_threshold self \<le> ss_present_vp self"

definition Client_SignatorySet_len :: "client_signatory_set \<Rightarrow> nat" where
  "Client_SignatorySet_len self = length (ss_signatories self)"

definition Client_SignatorySet_is_empty :: "client_signatory_set \<Rightarrow> bool" where
  "Client_SignatorySet_is_empty self \<longleftrightarrow> Client_SignatorySet_len self = 0"

definition Client_SignatorySet_get_truncation :: "client_signatory_set \<Rightarrow> u32 \<Rightarrow> u32" where
  "Client_SignatorySet_get_truncation self target_precision =
     saturating_sub (bit_len (ss_present_vp self)) target_precision"

definition Client_SignatorySet_create_time :: "client_signatory_set \<Rightarrow> u64" where
  "Client_SignatorySet_create_time self = ss_create_time self"

definition Client_SignatorySet_index :: "client_signatory_set \<Rightarrow> u32" where
  "Client_SignatorySet_index self = ss_index self"

definition Client_SignatorySet_iter :: "client_signatory_set \<Rightarrow> client_signatory list" where
  "Client_SignatorySet_iter self = ss_signatories self"

definition Client_SignatorySet_est_witness_vsize :: "client_signatory_set \<Rightarrow> u64 client_result" where
  "Client_SignatorySet_est_witness_vsize self =
     bnd (mul_u64 (length (ss_signatories self)) 79) (\<lambda>n. add_u64 n 39)"

section \<open>The redeem script\<close>

definition Client_first_signatory_items :: "nat \<Rightarrow> client_signatory \<Rightarrow> script_item list" where
  "Client_first_signatory_items truncation s =
     [SBytes (sg_pubkey s), SOp OP_CHECKSIG,
      SOp OP_IF,
        SInt (as_i64 (sg_voting_power s div 2 ^ truncation)),
      SOp OP_ELSE,
        SInt 0,
      SOp OP_ENDIF]"

definition Client_nth_signatory_items :: "nat \<Rightarrow> client_signatory \<Rightarrow> script_item list" where
  "Client_nth_signatory_items truncation s =
     [SOp OP_SWAP,
      SBytes (sg_pubkey s), SOp OP_CHECKSIG,
      SOp OP_IF,
        SInt (as_i64 (sg_voting_power s div 2 ^ truncation)), SOp OP_ADD,
      SOp OP_ENDIF]"

definition Client_SignatorySet_redeem_script ::
  "'x client_ext_scheme \<Rightarrow> client_signatory_set \<Rightarrow> bytes \<Rightarrow> u64 \<times> u64 \<Rightarrow> script client_result"
where
  "Client_SignatorySet_redeem_script C self dest threshold =
     (let truncation = Client_SignatorySet_get_truncation self 23
      in case ss_signatories self of
           [] \<Rightarrow> Err (Client_App ''Cannot create redeem script for empty signatory set'')
         | signatory # iter \<Rightarrow>
             (let bytes = build_script C (Client_first_signatory_items truncation signatory)
                  @ concat (map (\<lambda>s. build_script C (Client_nth_signatory_items truncation s)) iter)
              in bnd (Client_SignatorySet_signature_threshold self threshold) (\<lambda>t.
                 Ok (bytes
                   @ build_script C [SInt (as_i64 (t div 2 ^ truncation)), SOp OP_GREATERTHAN]
                   @ build_script C [SBytes dest, SOp OP_DROP]))))"

definition Client_SignatorySet_output_script ::
  "'x client_ext_scheme \<Rightarrow> client_signatory_set \<Rightarrow> bytes \<Rightarrow> u64 \<times> u64 \<Rightarrow> script client_result"
where
  "Client_SignatorySet_output_script C self dest threshold =
     bnd (Client_SignatorySet_redeem_script C self dest threshold) (\<lambda>s. Ok (to_v0_p2wsh C s))"

section \<open>Reading a set back from a script\<close>

definition Client_take_instruction :: "instrs \<Rightarrow> (instruction \<times> instrs) client_result" where
  "Client_take_instruction ins =
     (case ins of
        [] \<Rightarrow> Err (Client_App ''Unexpected end of script'')
      | None # _ \<Rightarrow> Err (Client_App ''Failed to read script'')
      | Some i # rest \<Rightarrow> Ok (i, rest))"

definition Client_take_bytes :: "instrs \<Rightarrow> (bytes \<times> instrs) client_result" where
  "Client_take_bytes ins =
     bnd (Client_take_instruction ins) (\<lambda>(instruction, ins).
     case instruction of
       PushBytes bytes \<Rightarrow> Ok (bytes, ins)
     | Op _ \<Rightarrow> Err (Client_App ''Expected OP_PUSHBYTES''))"

definition Client_take_key :: "'x client_ext_scheme \<Rightarrow> instrs \<Rightarrow> (pubkey \<times> instrs) client_result" where
  "Client_take_key C ins =
     bnd (Client_take_bytes ins) (\<lambda>(bytes, ins).
     if length bytes \<noteq> 33 then Err (Client_App ''Expected 33 bytes'')
     else bnd (Client_Pubkey_try_from_slice C bytes) (\<lambda>k. Ok (k, ins)))"

definition Client_take_number :: "'x client_ext_scheme \<Rightarrow> instrs \<Rightarrow> (i64 \<times> instrs) client_result" where
  "Client_take_number C ins =
     bnd (Client_take_bytes ins) (\<lambda>(bytes, ins).
     bnd (ok_or (Client_App ''Failed to read scriptint'') (read_scriptint C bytes)) (\<lambda>n. Ok (n, ins)))"

definition Client_take_op :: "'x client_ext_scheme \<Rightarrow> nat \<Rightarrow> instrs \<Rightarrow> instrs client_result" where
  "Client_take_op C expected_op ins =
     bnd (Client_take_instruction ins) (\<lambda>(instruction, ins).
     let expected = Err (Client_App (''Expected '' @ opcode_debug C expected_op))
     in case instruction of
          Op op \<Rightarrow> (if op \<noteq> expected_op then expected else Ok ins)
        | PushBytes [] \<Rightarrow> (if OP_FALSE \<noteq> expected_op then expected else Ok ins)
        | PushBytes _ \<Rightarrow> expected)"

definition Client_take_first_signatory ::
  "'x client_ext_scheme \<Rightarrow> instrs \<Rightarrow> (client_signatory \<times> instrs) client_result"
where
  "Client_take_first_signatory C ins =
     bnd (Client_take_key C ins) (\<lambda>(pubkey, ins).
     bnd (Client_take_op C OP_CHECKSIG ins) (\<lambda>ins.
     bnd (Client_take_op C OP_IF ins) (\<lambda>ins.
     bnd (Client_take_number C ins) (\<lambda>(voting_power, ins).
     bnd (Client_take_op C OP_ELSE ins) (\<lambda>ins.
     bnd (Client_take_op C OP_FALSE ins) (\<lambda>ins.
     bnd (Client_take_op C OP_ENDIF ins) (\<lambda>ins.
     Ok (Signatory (i64_as_u64 voting_power) pubkey, ins))))))))"

definition Client_take_nth_signatory ::
  "'x client_ext_scheme \<Rightarrow> instrs \<Rightarrow> (client_signatory \<times> instrs) client_result"
where
  "Client_take_nth_signatory C ins =
     bnd (Client_take_op C OP_SWAP ins) (\<lambda>ins.
     bnd (Client_take_key C ins) (\<lambda>(pubkey, ins).
     bnd (Client_take_op C OP_CHECKSIG ins) (\<lambda>ins.
     bnd (Client_take_op C OP_IF ins) (\<lambda>ins.
     bnd (Client_take_number C ins) (\<lambda>(voting_power, ins).
     bnd (Client_take_op C OP_ADD ins) (\<lambda>ins.
     bnd (Client_take_op C OP_ENDIF ins) (\<lambda>ins.
     Ok (Signatory (i64_as_u64 voting_power) pubkey, ins))))))))"

definition Client_take_threshold :: "'x client_ext_scheme \<Rightarrow> instrs \<Rightarrow> (u64 \<times> instrs) client_result" where
  "Client_take_threshold C ins =
     bnd (Client_take_number C ins) (\<lambda>(threshold, ins).
     bnd (Client_take_op C OP_GREATERTHAN ins) (\<lambda>ins.
     Ok (i64_as_u64 threshold, ins)))"

definition Client_take_commitment :: "'x client_ext_scheme \<Rightarrow> instrs \<Rightarrow> (bytes \<times> instrs) client_result" where
  "Client_take_commitment C ins =
     bnd (Client_take_bytes ins) (\<lambda>(bytes, ins).
     bnd (Client_take_op C OP_DROP ins) (\<lambda>ins.
     Ok (bytes, ins)))"

text \<open>
  Each of these functions consumes instructions. This is shown by agreement with the contract's
  functions under the client's own crates, for which the lemmas exist already.
\<close>

lemma take_instruction_agree [agree_intros]: "agree (take_instruction ins) (Client_take_instruction ins)"
  by (auto simp: take_instruction_def Client_take_instruction_def split: list.splits option.splits)

lemma take_bytes_agree [agree_intros]: "agree (take_bytes ins) (Client_take_bytes ins)"
  unfolding take_bytes_def Client_take_bytes_def
  by (rule agree_bnd [OF take_instruction_agree]) (auto split: prod.splits instruction.splits)

lemma Pubkey_agree [agree_intros]:
  "public_key_from_slice C = public_key_from_slice E \<Longrightarrow>
     agree (Pubkey_try_from_slice E bytes) (Client_Pubkey_try_from_slice C bytes)"
  by (auto simp: Pubkey_try_from_slice_def Client_Pubkey_try_from_slice_def Pubkey_new_def Client_Pubkey_new_def
      split: sum.splits)

lemma take_key_agree [agree_intros]:
  "public_key_from_slice C = public_key_from_slice E \<Longrightarrow> agree (take_key E ins) (Client_take_key C ins)"
  unfolding take_key_def Client_take_key_def
  by (auto intro!: agree_intros split: prod.splits)

lemma take_number_agree [agree_intros]:
  "read_scriptint C = read_scriptint E \<Longrightarrow> agree (take_number E ins) (Client_take_number C ins)"
  unfolding take_number_def Client_take_number_def
  by (auto intro!: agree_intros split: prod.splits)

lemma take_op_agree [agree_intros]:
  "opcode_debug C = opcode_debug E \<Longrightarrow> agree (take_op E opc ins) (Client_take_op C opc ins)"
  unfolding take_op_def Client_take_op_def Let_def
  by (auto intro!: agree_intros split: prod.splits instruction.splits list.splits)

lemma take_first_signatory_agree [agree_intros]:
  assumes "public_key_from_slice C = public_key_from_slice E" "read_scriptint C = read_scriptint E"
    "opcode_debug C = opcode_debug E"
  shows "agree (take_first_signatory E ins) (Client_take_first_signatory C ins)"
  unfolding take_first_signatory_def Client_take_first_signatory_def using assms
  by (auto intro!: agree_intros split: prod.splits)

lemma take_nth_signatory_agree [agree_intros]:
  assumes "public_key_from_slice C = public_key_from_slice E" "read_scriptint C = read_scriptint E"
    "opcode_debug C = opcode_debug E"
  shows "agree (take_nth_signatory E ins) (Client_take_nth_signatory C ins)"
  unfolding take_nth_signatory_def Client_take_nth_signatory_def using assms
  by (auto intro!: agree_intros split: prod.splits)

lemma Client_take_nth_signatory_shorter:
  assumes "Client_take_nth_signatory C ins = Inr p"
  shows "length (snd p) < length ins"
proof -
  have "agree (take_nth_signatory C ins) (Client_take_nth_signatory C ins)"
    by (rule take_nth_signatory_agree) simp_all
  then show ?thesis
    using assms take_nth_signatory_shorter [of C ins "fst p" "snd p"] by simp
qed

function Client_take_signatories ::
  "'x client_ext_scheme \<Rightarrow> instrs \<Rightarrow> client_signatory list \<Rightarrow> (client_signatory list \<times> instrs) client_result"
where
  "Client_take_signatories C ins sigs =
     (case ins of
        [] \<Rightarrow> Err (Client_App ''Unexpected end of script'')
      | None # _ \<Rightarrow> Err (Client_App ''Failed to read script'')
      | Some next # _ \<Rightarrow>
          if next = Op OP_SWAP
          then bnd (Client_take_nth_signatory C ins) (\<lambda>p. Client_take_signatories C (snd p) (sigs @ [fst p]))
          else Ok (sigs, ins))"
  by pat_completeness auto
termination
  by (relation "measure (\<lambda>(C, ins, sigs). length ins)")
    (auto dest: Client_take_nth_signatory_shorter)

declare Client_take_signatories.simps [simp del]

fun Client_adjust_present_vp ::
  "nat \<Rightarrow> u64 \<times> u64 \<Rightarrow> u64 \<Rightarrow> client_signatory_set \<Rightarrow> client_signatory_set client_result"
where
  "Client_adjust_present_vp 0 ratio expected sigset = Ok sigset"
| "Client_adjust_present_vp (Suc n) ratio expected sigset =
     bnd (Client_SignatorySet_signature_threshold sigset ratio) (\<lambda>actual.
     if actual = expected then Ok sigset
     else if actual < expected then
       bnd (add_u64 (ss_present_vp sigset) 1) (\<lambda>vp.
       bnd (add_u64 (ss_possible_vp sigset) 1) (\<lambda>pvp.
       Client_adjust_present_vp n ratio expected (sigset\<lparr>ss_present_vp := vp, ss_possible_vp := pvp\<rparr>)))
     else
       bnd (sub_w (ss_present_vp sigset) 1) (\<lambda>vp.
       bnd (sub_w (ss_possible_vp sigset) 1) (\<lambda>pvp.
       Client_adjust_present_vp n ratio expected (sigset\<lparr>ss_present_vp := vp, ss_possible_vp := pvp\<rparr>))))"

definition Client_SignatorySet_from_script ::
  "'x client_ext_scheme \<Rightarrow> script \<Rightarrow> u64 \<times> u64 \<Rightarrow> (client_signatory_set \<times> bytes) client_result"
where
  "Client_SignatorySet_from_script C script threshold_ratio =
     bnd (Client_take_first_signatory C (script_instructions C script)) (\<lambda>(first, ins).
     bnd (Client_take_signatories C ins [first]) (\<lambda>(sigs, ins).
     bnd (Client_take_threshold C ins) (\<lambda>(expected_threshold, ins).
     bnd (Client_take_commitment C ins) (\<lambda>(commitment, ins).
     bnd (assert_r (ins = [])) (\<lambda>_.
     bnd (sum_u64 0 (map sg_voting_power sigs)) (\<lambda>total_vp.
     bnd (Client_adjust_present_vp 100 threshold_ratio expected_threshold
            \<lparr>ss_create_time = 0, ss_present_vp = total_vp, ss_possible_vp = total_vp,
             ss_index = 0, ss_signatories = sigs\<rparr>) (\<lambda>sigset.
     bnd (Client_SignatorySet_signature_threshold sigset threshold_ratio) (\<lambda>t.
     bnd (assert_r (t = expected_threshold)) (\<lambda>_.
     bnd (Client_SignatorySet_redeem_script C sigset commitment threshold_ratio) (\<lambda>s.
     bnd (assert_r (s = script)) (\<lambda>_.
     Ok (sigset, commitment))))))))))))"

definition newSignatorySet ::
  "'x client_ext_scheme \<Rightarrow> string \<Rightarrow> u64 \<Rightarrow> u64 \<Rightarrow> client_signatory_set client_result"
where
  "newSignatorySet C hex_script num den =
     bnd (from_lib Client_BitcoinHashes (script_from_hex C hex_script)) (\<lambda>script.
     bnd (Client_SignatorySet_from_script C script (num, den)) (\<lambda>(signatory_set, _).
     Ok signatory_set))"

section \<open>The copies agree with the contract\<close>

lemma signature_threshold_agree [agree_intros]:
  "agree (SignatorySet_signature_threshold s r) (Client_SignatorySet_signature_threshold s r)"
  unfolding SignatorySet_signature_threshold_def Client_SignatorySet_signature_threshold_def
  by (intro agree_intros)

lemma adjust_present_vp_agree [agree_intros]:
  "agree (adjust_present_vp n r t s) (Client_adjust_present_vp n r t s)"
  by (induction n arbitrary: s) (auto intro!: agree_intros)

lemma insert_agree: "agree (SignatorySet_insert s x) (Client_SignatorySet_insert s x)"
  unfolding SignatorySet_insert_def Client_SignatorySet_insert_def by (intro agree_intros)

lemma sort_and_truncate_agree:
  "agree (SignatorySet_sort_and_truncate s) (Client_SignatorySet_sort_and_truncate s)"
  unfolding SignatorySet_sort_and_truncate_def Client_SignatorySet_sort_and_truncate_def Let_def
    MAX_SIGNATORIES_def Client_MAX_SIGNATORIES_def
  by (intro agree_intros)

lemma est_witness_vsize_agree:
  "agree (SignatorySet_est_witness_vsize s) (Client_SignatorySet_est_witness_vsize s)"
  unfolding SignatorySet_est_witness_vsize_def Client_SignatorySet_est_witness_vsize_def by (intro agree_intros)

lemma quorum_agree: "Client_SignatorySet_has_quorum s = SignatorySet_has_quorum s"
  by (simp add: Client_SignatorySet_has_quorum_def SignatorySet_has_quorum_def
      Client_SignatorySet_quorum_threshold_def SignatorySet_quorum_threshold_def)

lemmas items_agree =
  Client_first_signatory_items_def [folded first_signatory_items_def]
  Client_nth_signatory_items_def [folded nth_signatory_items_def]
  Client_SignatorySet_get_truncation_def [folded SignatorySet_get_truncation_def]

context same_crates
begin

lemma redeem_script_agree:
  "agree (SignatorySet_redeem_script E s d t) (Client_SignatorySet_redeem_script C s d t)"
  unfolding SignatorySet_redeem_script_def Client_SignatorySet_redeem_script_def items_agree Let_def build_script
  by (cases "ss_signatories s") (auto intro!: agree_intros)

lemma output_script_agree:
  "agree (SignatorySet_output_script E s d t) (Client_SignatorySet_output_script C s d t)"
  unfolding SignatorySet_output_script_def Client_SignatorySet_output_script_def
  by (auto intro!: agree_intros redeem_script_agree)

lemma take_signatories_agree:
  "agree (take_signatories E ins sigs) (Client_take_signatories C ins sigs)"
proof (induction ins arbitrary: sigs rule: length_induct)
  case (1 ins)
  have nth: "agree (take_nth_signatory E is) (Client_take_nth_signatory C is)" for "is"
    by (rule take_nth_signatory_agree) simp_all
  have rest: "agree (take_signatories E (snd p) sigs') (Client_take_signatories C (snd p) sigs')"
    if "take_nth_signatory E ins = Ok p" for p sigs'
    using "1.IH" take_nth_signatory_shorter [of E ins "fst p" "snd p"] that by simp
  show ?case
    unfolding take_signatories.simps [of E ins] Client_take_signatories.simps [of C ins]
    by (auto intro!: agree_bnd nth rest split: list.splits option.splits)
qed

lemma from_script_agree:
  "agree (SignatorySet_from_script E script r) (Client_SignatorySet_from_script C script r)"
proof -
  have threshold: "agree (take_threshold E ins) (Client_take_threshold C ins)"
    and commitment: "agree (take_commitment E ins) (Client_take_commitment C ins)" for ins
    unfolding take_threshold_def Client_take_threshold_def take_commitment_def Client_take_commitment_def
    by (auto intro!: agree_intros split: prod.splits)
  show ?thesis
    unfolding SignatorySet_from_script_def Client_SignatorySet_from_script_def script_instructions
    by (auto intro!: agree_intros take_signatories_agree threshold commitment redeem_script_agree split: prod.splits)
qed

end

text \<open>
  C30: Client and contract mean the same scripts. When both crates link libraries that agree, every
  signatory set has the same redeem script and the same output script on both sides, for every
  commitment and threshold; every script is read back as the same set and commitment; and every
  destination has the same commitment. Where one side fails, so does the other, with the same message.
\<close>

theorem client_scripts_agree:
  assumes "same_crates C E"
  shows "agree (SignatorySet_redeem_script E s commitment t) (Client_SignatorySet_redeem_script C s commitment t) \<and>
    agree (SignatorySet_output_script E s commitment t) (Client_SignatorySet_output_script C s commitment t) \<and>
    agree (SignatorySet_from_script E script t) (Client_SignatorySet_from_script C script t) \<and>
    agree (Dest_commitment_bytes E d) (commitmentBytes C d)"
  using same_crates.redeem_script_agree [OF assms] same_crates.output_script_agree [OF assms]
    same_crates.from_script_agree [OF assms] same_crates.commitment_agree [OF assms]
  by (simp add: commitmentBytes_def)

text \<open>
  JavaScript can recover a signatory set from the redeem script the contract publishes. For a set
  whose voting powers fit in 23 bits and are, like the threshold, not between 1 and 16,
  \<^verbatim>\<open>newSignatorySet\<close> of the hexadecimal form of its redeem script returns its signatories in their
  order with their total voting power.
\<close>

lemma client_reads_redeem_script:
  assumes "same_crates C E" and "script_laws E" and "script_from_hex C (script_to_hex C script) = Inr script"
    and "SignatorySet_redeem_script E s dest (num, den) = Ok script"
    and "sum_list (map sg_voting_power (ss_signatories s)) = ss_present_vp s" and "ss_present_vp s < 2 ^ 23"
    and "num \<le> den" and "0 < length dest" and "length dest \<le> 75"
    and "\<And>g. g \<in> set (ss_signatories s) \<Longrightarrow> readable (sg_voting_power g) \<and> readable_key E (sg_pubkey g)"
    and "readable (ss_present_vp s * num div den)"
  shows "newSignatorySet C (script_to_hex C script) num den =
    Ok \<lparr>ss_create_time = 0, ss_present_vp = ss_present_vp s, ss_possible_vp = ss_present_vp s, ss_index = 0,
        ss_signatories = ss_signatories s\<rparr>"
proof -
  have "SignatorySet_from_script E script (num, den) =
      Ok (\<lparr>ss_create_time = 0, ss_present_vp = ss_present_vp s, ss_possible_vp = ss_present_vp s, ss_index = 0,
           ss_signatories = ss_signatories s\<rparr>, dest)"
    by (rule script_laws.from_script_redeem_script [OF assms(2,4-6)]) (simp_all add: assms(7-11) del: length_greater_0_conv)
  then show ?thesis
    using same_crates.from_script_agree [OF assms(1), of script "(num, den)"] assms(3)
    by (simp add: newSignatorySet_def)
qed

end
