(* ===== verification/Relayer.thy ===== *)
theory Relayer
  imports ClientSignatory App
begin

text \<open>
  \<^verbatim>\<open>relayer.rs\<close> and \<^verbatim>\<open>deposit_index.rs\<close> of the client: the collection of watched deposit scripts, the
  file that keeps track of them, the raw form of a signatory set for JavaScript, and the index of
  seen deposits. The clock, the file system and the base64 encoding are arguments.
\<close>

section \<open>Raw signatory sets\<close>

record raw_signatory =
  rs_voting_power :: u64
  rs_pubkey :: bytes

text \<open>The fee rates are floating point numbers that are passed on unchanged.\<close>

record 'f raw_signatory_set =
  rss_signatories :: "raw_signatory list"
  rss_index :: u32
  rss_bridge_fee_rate :: 'f
  rss_miner_fee_rate :: 'f
  rss_deposits_enabled :: bool
  rss_threshold :: "u64 \<times> u64"

definition RawSignatory_from :: "client_signatory \<Rightarrow> raw_signatory" where
  "RawSignatory_from sig = \<lparr>rs_voting_power = sg_voting_power sig, rs_pubkey = sg_pubkey sig\<rparr>"

definition RawSignatorySet_new :: "client_signatory_set \<Rightarrow> 'f \<Rightarrow> 'f \<Rightarrow> bool \<Rightarrow> 'f raw_signatory_set" where
  "RawSignatorySet_new sigset bridge_fee_rate miner_fee_rate deposits_enabled =
     \<lparr>rss_signatories = map RawSignatory_from (Client_SignatorySet_iter sigset),
      rss_index = Client_SignatorySet_index sigset,
      rss_bridge_fee_rate = bridge_fee_rate,
      rss_miner_fee_rate = miner_fee_rate,
      rss_deposits_enabled = deposits_enabled,
      rss_threshold = Client_SIGSET_THRESHOLD\<rparr>"

definition newRawSignatorySet :: "client_signatory_set \<Rightarrow> 'f \<Rightarrow> 'f \<Rightarrow> bool \<Rightarrow> 'f raw_signatory_set" where
  "newRawSignatorySet sigset bridge_fee_rate miner_fee_rate deposits_enabled =
     RawSignatorySet_new sigset bridge_fee_rate miner_fee_rate deposits_enabled"

text \<open>Nothing a script depends on is lost in the raw form but the total voting power.\<close>

lemma raw_signatories:
  "map (\<lambda>r. Signatory (rs_voting_power r) (rs_pubkey r)) (rss_signatories (newRawSignatorySet s b m e)) = ss_signatories s"
  by (simp add: newRawSignatorySet_def RawSignatorySet_new_def RawSignatory_from_def Client_SignatorySet_iter_def
      comp_def)

section \<open>Watched scripts\<close>

text \<open>
  A \<^verbatim>\<open>HashMap\<close> from the hexadecimal form of a script, and a \<^verbatim>\<open>BTreeMap\<close> in ascending order. A
  \<^verbatim>\<open>HashMap\<close> is traversed in an unspecified order; the model takes the ascending one, and nothing
  that is shown depends on it.
\<close>

record watched_scripts =
  ws_scripts :: "(string \<times> dest \<times> u32) list"
  ws_sigsets :: "(u32 \<times> signatory_set \<times> dest list) list"

definition WatchedScripts_new :: watched_scripts where
  "WatchedScripts_new = \<lparr>ws_scripts = [], ws_sigsets = []\<rparr>"

definition WatchedScripts_get ::
  "'x client_ext_scheme \<Rightarrow> watched_scripts \<Rightarrow> script \<Rightarrow> (dest \<times> u32) option"
where
  "WatchedScripts_get C self script = map_of (ws_scripts self) (script_to_hex C script)"

definition WatchedScripts_has :: "'x client_ext_scheme \<Rightarrow> watched_scripts \<Rightarrow> script \<Rightarrow> bool" where
  "WatchedScripts_has C self script \<longleftrightarrow> map_of (ws_scripts self) (script_to_hex C script) \<noteq> None"

definition WatchedScripts_len :: "watched_scripts \<Rightarrow> nat" where
  "WatchedScripts_len self = length (ws_scripts self)"

definition WatchedScripts_is_empty :: "watched_scripts \<Rightarrow> bool" where
  "WatchedScripts_is_empty self \<longleftrightarrow> ws_scripts self = []"

definition WatchedScripts_derive_script ::
  "'x client_ext_scheme \<Rightarrow> dest \<Rightarrow> client_signatory_set \<Rightarrow> u64 \<times> u64 \<Rightarrow> script client_result"
where
  "WatchedScripts_derive_script C dest sigset threshold =
     bnd (Client_Dest_commitment_bytes C dest) (\<lambda>bytes. Client_SignatorySet_output_script C sigset bytes threshold)"

text \<open>The new entry of a signatory set: \<^verbatim>\<open>entry(index).or_insert((sigset, vec![]))\<close>, then \<^verbatim>\<open>push\<close>.\<close>

definition watch_dest ::
  "client_signatory_set \<Rightarrow> dest \<Rightarrow> (u32 \<times> client_signatory_set \<times> dest list) list \<Rightarrow> (u32 \<times> client_signatory_set \<times> dest list) list"
where
  "watch_dest sigset dest sigsets =
     (let index = Client_SignatorySet_index sigset
      in case map_of sigsets index of
           Some (old, dests) \<Rightarrow> omap_save index (old, dests @ [dest]) sigsets
         | None \<Rightarrow> omap_save index (sigset, [dest]) sigsets)"

definition WatchedScripts_insert ::
  "'x client_ext_scheme \<Rightarrow> watched_scripts \<Rightarrow> dest \<Rightarrow> client_signatory_set \<Rightarrow> (bool \<times> watched_scripts) client_result"
where
  "WatchedScripts_insert C self dest sigset =
     bnd (WatchedScripts_derive_script C dest sigset Client_SIGSET_THRESHOLD) (\<lambda>script.
     if WatchedScripts_has C self script then Ok (False, self)
     else Ok (True,
       self\<lparr>ws_scripts := omap_save (script_to_hex C script) (dest, Client_SignatorySet_index sigset) (ws_scripts self),
            ws_sigsets := watch_dest sigset dest (ws_sigsets self)\<rparr>))"

text \<open>
  \<^verbatim>\<open>remove_expired\<close>: the loop over the destinations of an expired set, and the one over the
  sets. An error stops the loops, and what was removed before stays removed.
\<close>

fun remove_dests ::
  "'x client_ext_scheme \<Rightarrow> client_signatory_set \<Rightarrow> dest list \<Rightarrow> watched_scripts \<Rightarrow> unit client_result \<times> watched_scripts"
where
  "remove_dests C sigset [] self = (Ok (), self)"
| "remove_dests C sigset (dest # dests) self =
     (case WatchedScripts_derive_script C dest sigset Client_SIGSET_THRESHOLD of
        Inl e \<Rightarrow> (Inl e, self)
      | Inr script \<Rightarrow>
          remove_dests C sigset dests (self\<lparr>ws_scripts := omap_remove (script_to_hex C script) (ws_scripts self)\<rparr>))"

fun remove_expired_sets ::
  "'x client_ext_scheme \<Rightarrow> u64 \<Rightarrow> u64 \<Rightarrow> (u32 \<times> client_signatory_set \<times> dest list) list \<Rightarrow>
   watched_scripts \<Rightarrow> unit client_result \<times> watched_scripts"
where
  "remove_expired_sets C now max_age [] self = (Ok (), self)"
| "remove_expired_sets C now max_age ((_, sigset, dests) # rest) self =
     (case add_u64 (Client_SignatorySet_create_time sigset) max_age of
        Inl e \<Rightarrow> (Inl e, self)
      | Inr expiry \<Rightarrow>
          if now < expiry then (Ok (), self)
          else (case remove_dests C sigset dests self of
                  (Inl e, self) \<Rightarrow> (Inl e, self)
                | (Inr _, self) \<Rightarrow> remove_expired_sets C now max_age rest self))"

definition WatchedScripts_remove_expired ::
  "'x client_ext_scheme \<Rightarrow> u64 \<Rightarrow> watched_scripts \<Rightarrow> u64 \<Rightarrow> unit client_result \<times> watched_scripts"
where
  "WatchedScripts_remove_expired C now self max_age =
     remove_expired_sets C now max_age (ws_sigsets self) self"

section \<open>Watched scripts are deposit scripts of the contract\<close>

text \<open>The states of the collection, when the sets that are inserted are those of \<open>sets\<close>.\<close>

inductive watching ::
  "'x client_ext_scheme \<Rightarrow> (u32 \<Rightarrow> signatory_set) \<Rightarrow> watched_scripts \<Rightarrow> bool"
for C sets where
  start: "watching C sets WatchedScripts_new"
| insert: "watching C sets ws \<Longrightarrow> sets (ss_index sigset) = sigset \<Longrightarrow>
    WatchedScripts_insert C ws dest sigset = Ok (b, ws') \<Longrightarrow> watching C sets ws'"
| expire: "watching C sets ws \<Longrightarrow> WatchedScripts_remove_expired C now ws max_age = (r, ws') \<Longrightarrow>
    watching C sets ws'"

definition watched_ok ::
  "'x client_ext_scheme \<Rightarrow> (u32 \<Rightarrow> client_signatory_set) \<Rightarrow> watched_scripts \<Rightarrow> bool"
where
  "watched_ok C sets ws \<longleftrightarrow> (\<forall>h dest i. map_of (ws_scripts ws) h = Some (dest, i) \<longrightarrow>
     (\<exists>script. h = script_to_hex C script \<and>
        WatchedScripts_derive_script C dest (sets i) Client_SIGSET_THRESHOLD = Ok script))"

lemma insert_Ok_iff:
  "WatchedScripts_insert C ws dest sigset = Ok (b, ws') \<longleftrightarrow>
     (\<exists>script. WatchedScripts_derive_script C dest sigset Client_SIGSET_THRESHOLD = Ok script \<and>
        (b \<longleftrightarrow> \<not> WatchedScripts_has C ws script) \<and>
        ws' = (if WatchedScripts_has C ws script then ws
               else ws\<lparr>ws_scripts := omap_save (script_to_hex C script) (dest, ss_index sigset) (ws_scripts ws),
                       ws_sigsets := watch_dest sigset dest (ws_sigsets ws)\<rparr>))"
  by (auto simp: WatchedScripts_insert_def Client_SignatorySet_index_def ok_simps)

lemma remove_dests_sub:
  "remove_dests C sigset dests ws = (r, ws') \<Longrightarrow> map_of (ws_scripts ws') \<subseteq>\<^sub>m map_of (ws_scripts ws)"
proof (induction dests arbitrary: ws)
  case (Cons d ds)
  show ?case
  proof (cases "WatchedScripts_derive_script C d sigset Client_SIGSET_THRESHOLD")
    case (Inl e)
    then show ?thesis using Cons.prems by simp
  next
    case (Inr script)
    then have "map_of (ws_scripts ws') \<subseteq>\<^sub>m map_of (omap_remove (script_to_hex C script) (ws_scripts ws))"
      using Cons.prems Cons.IH by fastforce
    then show ?thesis by (rule map_le_trans) (simp add: map_le_def map_of_omap_remove)
  qed
qed simp

lemma remove_expired_sets_sub:
  "remove_expired_sets C now max_age sets ws = (r, ws') \<Longrightarrow> map_of (ws_scripts ws') \<subseteq>\<^sub>m map_of (ws_scripts ws)"
proof (induction sets arbitrary: ws)
  case (Cons s ss)
  obtain i sigset dests where s: "s = (i, sigset, dests)" by (cases s)
  from Cons.prems show ?case
    by (auto simp: s split: sum.splits if_splits prod.splits dest!: remove_dests_sub Cons.IH intro: map_le_trans)
qed simp

lemma watched_ok_sub:
  "watched_ok C sets ws \<Longrightarrow> map_of (ws_scripts ws') \<subseteq>\<^sub>m map_of (ws_scripts ws) \<Longrightarrow> watched_ok C sets ws'"
  unfolding watched_ok_def map_le_def by (metis domI)

lemma watching_ok: "watching C sets ws \<Longrightarrow> watched_ok C sets ws"
proof (induction rule: watching.induct)
  case start
  then show ?case by (simp add: watched_ok_def WatchedScripts_new_def)
next
  case (insert ws sigset dest b ws')
  then show ?case
    by (auto simp: insert_Ok_iff watched_ok_def split: if_splits)
next
  case (expire ws now max_age r ws')
  then show ?case
    unfolding WatchedScripts_remove_expired_def by (blast intro: watched_ok_sub remove_expired_sets_sub)
qed

context same_crates
begin

lemma derive_script_agree:
  "agree (bnd (Dest_commitment_bytes E d) (\<lambda>bytes. SignatorySet_output_script E s bytes t))
     (WatchedScripts_derive_script C d s t)"
  unfolding WatchedScripts_derive_script_def by (intro agree_bnd commitment_agree output_script_agree)

end

text \<open>
  C32: What the relayer watches is what the contract accepts. Suppose that the crates of both sides
  agree, that a script is found in the collection under the index of a checkpoint the contract still
  holds and whose signatory set was the one that was inserted, and that the owner has left the
  contract's threshold at the constant the client uses. Then for every transaction that is
  proved to be in a confirmed block, and every output of it, relaying the output as a deposit with that
  index and the destination the script is filed under passes all checks up to the
  comparison of the scripts if the output has the watched script, and is refused because of its
  script if it has any other. (With another threshold configured, the client, which has its own
  constant, watches scripts that the contract does not accept.)
\<close>

theorem watched_script_accepted:
  assumes crates: "same_crates C E" and hex: "inj (script_to_hex C)" and run: "watching C sets ws"
    and found: "WatchedScripts_get C ws script = Some (dest, i)"
    and cp: "CheckpointQueue_get E st i = Ok cp" "cp_sigset cp = sets i"
    and config: "st_checkpoint_config st = Some config" "cc_sigset_threshold config = Client_SIGSET_THRESHOLD"
    and bitcoin: "st_bitcoin_config st = Some btc_config"
    and included: "verify_inclusion E st h proof (bc_min_confirmations btc_config) = Ok (tx_txid E tx)"
      "vout < length (btx_output tx)"
  shows "if txo_script_pubkey (btx_output tx ! vout) = script
    then \<exists>bytes. deposit_checks E st tx h proof vout i dest = Ok (btc_config, cp, bytes, config)
    else Bitcoin_relay_deposit E env st tx h proof vout i dest = Err (App ''Output script does not match signature set'')"
proof -
  have "map_of (ws_scripts ws) (script_to_hex C script) = Some (dest, i)" using found by (simp add: WatchedScripts_get_def)
  then obtain script' where "script_to_hex C script = script_to_hex C script'"
      and s': "WatchedScripts_derive_script C dest (sets i) Client_SIGSET_THRESHOLD = Ok script'"
    using watching_ok [OF run] unfolding watched_ok_def by blast
  then have "script' = script" using hex by (simp add: inj_def)
  then obtain bytes where "Dest_commitment_bytes E dest = Ok bytes"
      "SignatorySet_output_script E (cp_sigset cp) bytes (cc_sigset_threshold config) = Ok script"
    using s' same_crates.derive_script_agree [OF crates, of dest "sets i" Client_SIGSET_THRESHOLD]
    by (auto simp: ok_simps cp(2) config(2))
  then show ?thesis
    using cp(1) config(1) bitcoin included
    by (simp add: Bitcoin_relay_deposit_def deposit_checks_def Bitcoin_config_def CheckpointQueue_config_def Let_def throw_if_def)
qed

section \<open>The index of deposits\<close>

record deposit =
  de_txid :: txid
  de_vout :: u32
  de_amount :: u64
  de_height :: "u64 option"

record deposit_info =
  di_deposit :: deposit
  di_confirmations :: u64

definition Deposit_new :: "txid \<Rightarrow> u32 \<Rightarrow> u64 \<Rightarrow> u64 option \<Rightarrow> deposit" where
  "Deposit_new txid vout amount height = \<lparr>de_txid = txid, de_vout = vout, de_amount = amount, de_height = height\<rparr>"

definition Deposit_key :: "(bytes \<Rightarrow> string) \<Rightarrow> txid \<Rightarrow> u32 \<Rightarrow> string" where
  "Deposit_key base64 txid vout = base64 (txid @ be32 vout)"

text \<open>
  The nested \<^verbatim>\<open>HashMap\<close>s, by receiver, address and key. A \<^verbatim>\<open>HashMap\<close> is traversed in an
  unspecified order; the model takes the ascending one, and what is shown is about the set of the results.
\<close>

type_synonym address_index = "(string \<times> (string \<times> deposit) list) list"
type_synonym deposit_index = "(string \<times> address_index) list"

definition or_default :: "('k \<times> 'v list) list \<Rightarrow> 'k \<Rightarrow> 'v list" where
  "or_default m k = (case map_of m k of Some v \<Rightarrow> v | None \<Rightarrow> [])"

definition DepositIndex_new :: deposit_index where
  "DepositIndex_new = []"

definition DepositIndex_insert_deposit ::
  "(bytes \<Rightarrow> string) \<Rightarrow> deposit_index \<Rightarrow> string \<Rightarrow> string \<Rightarrow> deposit \<Rightarrow> deposit_index"
where
  "DepositIndex_insert_deposit base64 self receiver address d =
     (let by_address = or_default self receiver;
          by_key = or_default by_address address
      in omap_save receiver
           (omap_save address (omap_save (Deposit_key base64 (de_txid d) (de_vout d)) d by_key) by_address) self)"

definition DepositIndex_remove_deposit ::
  "(bytes \<Rightarrow> string) \<Rightarrow> deposit_index \<Rightarrow> string \<Rightarrow> string \<Rightarrow> txid \<Rightarrow> u32 \<Rightarrow> deposit_index"
where
  "DepositIndex_remove_deposit base64 self receiver address txid vout =
     (case map_of self receiver of
        None \<Rightarrow> self
      | Some by_address \<Rightarrow>
          (case map_of by_address address of
             None \<Rightarrow> self
           | Some by_key \<Rightarrow>
               omap_save receiver
                 (omap_save address (omap_remove (Deposit_key base64 txid vout) by_key) by_address) self))"

definition deposit_confirmations :: "u64 \<Rightarrow> deposit \<Rightarrow> u64 result" where
  "deposit_confirmations current_btc_height d =
     (case de_height d of
        Some height \<Rightarrow> add_u64 (saturating_sub current_btc_height height) 1
      | None \<Rightarrow> Ok 0)"

definition DepositIndex_get_deposits_by_receiver ::
  "deposit_index \<Rightarrow> string \<Rightarrow> u64 \<Rightarrow> deposit_info list result"
where
  "DepositIndex_get_deposits_by_receiver self receiver current_btc_height =
     map_r (\<lambda>d. bnd (deposit_confirmations current_btc_height d) (\<lambda>n.
         Ok \<lparr>di_deposit = d, di_confirmations = n\<rparr>))
       (concat (map (map snd \<circ> snd) (or_default self receiver)))"

text \<open>
  The function that gives JavaScript an index: it is filled with a deposit for a receiver of the author's. The address
  is read by the \<^verbatim>\<open>bitcoin\<close> crate, which is an argument.
\<close>

definition newDepositIndex :: "(bytes \<Rightarrow> string) \<Rightarrow> (string \<Rightarrow> string + string) \<Rightarrow> deposit_index client_result" where
  "newDepositIndex base64 address_from_str =
     bnd (unwrap_res (from_lib Client_App (address_from_str ''bc1q7vdh8ttns5k2u5acel8yddjw0shens4zmyun4n06gd5mjeq3y4kq9lhw09''))) (\<lambda>address.
     Ok (DepositIndex_insert_deposit base64 DepositIndex_new ''thanhtu'' address
           (Deposit_new (replicate 32 0) 1 10 (Some 1000))))"

lemma new_index_not_empty:
  assumes "newDepositIndex base64 address_from_str = Inr index"
  shows "DepositIndex_get_deposits_by_receiver index ''thanhtu'' 1000 =
    Ok [\<lparr>di_deposit = Deposit_new (replicate 32 0) 1 10 (Some 1000), di_confirmations = 1\<rparr>]"
  using assms
  by (auto simp: newDepositIndex_def ok_simps DepositIndex_new_def DepositIndex_insert_deposit_def or_default_def
      DepositIndex_get_deposits_by_receiver_def deposit_confirmations_def Deposit_new_def add_w_def)

text \<open>The index as a function.\<close>

definition lookup_deposit :: "deposit_index \<Rightarrow> string \<Rightarrow> string \<Rightarrow> string \<Rightarrow> deposit option" where
  "lookup_deposit self receiver address key = map_of (or_default (or_default self receiver) address) key"

definition index_ok :: "deposit_index \<Rightarrow> bool" where
  "index_ok self \<longleftrightarrow> omap_ok self \<and> (\<forall>receiver. omap_ok (or_default self receiver) \<and>
     (\<forall>address. omap_ok (or_default (or_default self receiver) address)))"

lemma omap_ok_Nil [simp]: "omap_ok []"
  by (simp add: omap_ok_def)

lemma omap_ok_map_of: "omap_ok m \<Longrightarrow> map_of m k = Some v \<longleftrightarrow> (k, v) \<in> set m"
  by (simp add: omap_ok_def strict_sorted_iff)

lemma or_default_simps [simp]:
  "or_default (omap_save k v m) k' = (if k' = k then v else or_default m k')"
  "or_default [] k = []"
  by (auto simp: or_default_def)

lemma lookup_insert:
  "lookup_deposit (DepositIndex_insert_deposit base64 self r a d) r' a' k =
     (if r' = r \<and> a' = a \<and> k = Deposit_key base64 (de_txid d) (de_vout d) then Some d else lookup_deposit self r' a' k)"
  by (simp add: lookup_deposit_def DepositIndex_insert_deposit_def Let_def)

lemma lookup_remove:
  "lookup_deposit (DepositIndex_remove_deposit base64 self r a txid vout) r' a' k =
     (if r' = r \<and> a' = a \<and> k = Deposit_key base64 txid vout then None else lookup_deposit self r' a' k)"
  by (auto simp: lookup_deposit_def DepositIndex_remove_deposit_def or_default_def map_of_omap_remove split: option.splits)

lemma index_ok_insert: "index_ok self \<Longrightarrow> index_ok (DepositIndex_insert_deposit base64 self r a d)"
  by (auto simp: index_ok_def DepositIndex_insert_deposit_def Let_def intro!: omap_ok_save)

lemma index_ok_remove: "index_ok self \<Longrightarrow> index_ok (DepositIndex_remove_deposit base64 self r a txid vout)"
  by (auto simp: index_ok_def DepositIndex_remove_deposit_def or_default_def intro!: omap_ok_save omap_ok_remove
      split: option.splits)

lemma get_deposits_set:
  assumes "index_ok self" and "DepositIndex_get_deposits_by_receiver self r h = Inr infos"
  shows "di_deposit ` set infos = {d. \<exists>a k. lookup_deposit self r a k = Some d}"
    and "\<And>i. i \<in> set infos \<Longrightarrow> deposit_confirmations h (di_deposit i) = Inr (di_confirmations i)"
proof -
  let ?ds = "concat (map (map snd \<circ> snd) (or_default self r))"
  have infos: "map_r (\<lambda>d. bnd (deposit_confirmations h d) (\<lambda>n. Ok \<lparr>di_deposit = d, di_confirmations = n\<rparr>)) ?ds = Inr infos"
    using assms(2) by (simp add: DepositIndex_get_deposits_by_receiver_def)
  have nth: "di_deposit (infos ! j) = ?ds ! j \<and> deposit_confirmations h (?ds ! j) = Inr (di_confirmations (infos ! j))"
    if "j < length ?ds" for j
    using map_r_Inr_nth [OF infos that] by (cases "infos ! j") (auto simp: ok_simps)
  then have "map di_deposit infos = ?ds"
    using map_r_length [OF infos] by (intro nth_equalityI) auto
  then have "di_deposit ` set infos = set ?ds" by (metis set_map)
  moreover have "d \<in> set ?ds \<longleftrightarrow> (\<exists>a k. lookup_deposit self r a k = Some d)" for d
  proof -
    have ok: "omap_ok (or_default self r)" "omap_ok (or_default (or_default self r) a)" for a
      using assms(1) by (simp_all add: index_ok_def)
    have "d \<in> set ?ds \<longleftrightarrow> (\<exists>a m k. map_of (or_default self r) a = Some m \<and> (k, d) \<in> set m)"
      by (force simp: omap_ok_map_of [OF ok(1)])
    also have "\<dots> \<longleftrightarrow> (\<exists>a k. (k, d) \<in> set (or_default (or_default self r) a))"
      unfolding or_default_def [of "or_default self r"] by (auto split: option.splits) metis+
    finally show ?thesis by (simp add: lookup_deposit_def omap_ok_map_of [OF ok(2)])
  qed
  ultimately show "di_deposit ` set infos = {d. \<exists>a k. lookup_deposit self r a k = Some d}" by blast
  show "deposit_confirmations h (di_deposit i) = Inr (di_confirmations i)" if "i \<in> set infos" for i
    using that nth map_r_length [OF infos] by (metis in_set_conv_nth)
qed

text \<open>
  C35: The index of deposits is a map. After a deposit was inserted for an address of a receiver, the
  deposits of the receiver are the new one and all those under other addresses or keys; after one
  was removed, exactly those under other addresses or keys are left.
\<close>

theorem deposit_index_spec:
  assumes "index_ok self"
  shows "(\<forall>infos. DepositIndex_get_deposits_by_receiver (DepositIndex_insert_deposit base64 self r a d) r h = Ok infos \<longrightarrow>
      di_deposit ` set infos = insert d {d'. \<exists>a' k. (a', k) \<noteq> (a, Deposit_key base64 (de_txid d) (de_vout d)) \<and>
        lookup_deposit self r a' k = Some d'}) \<and>
    (\<forall>infos. DepositIndex_get_deposits_by_receiver (DepositIndex_remove_deposit base64 self r a txid vout) r h = Ok infos \<longrightarrow>
      di_deposit ` set infos = {d'. \<exists>a' k. (a', k) \<noteq> (a, Deposit_key base64 txid vout) \<and> lookup_deposit self r a' k = Some d'})"
proof (intro conjI allI impI)
  fix infos
  assume "DepositIndex_get_deposits_by_receiver (DepositIndex_insert_deposit base64 self r a d) r h = Ok infos"
  from get_deposits_set(1) [OF index_ok_insert [OF assms] this]
  show "di_deposit ` set infos = insert d {d'. \<exists>a' k. (a', k) \<noteq> (a, Deposit_key base64 (de_txid d) (de_vout d)) \<and>
      lookup_deposit self r a' k = Some d'}"
    by (auto simp: lookup_insert split: if_splits)
next
  fix infos
  assume "DepositIndex_get_deposits_by_receiver (DepositIndex_remove_deposit base64 self r a txid vout) r h = Ok infos"
  from get_deposits_set(1) [OF index_ok_remove [OF assms] this]
  show "di_deposit ` set infos = {d'. \<exists>a' k. (a', k) \<noteq> (a, Deposit_key base64 txid vout) \<and> lookup_deposit self r a' k = Some d'}"
    by (auto simp: lookup_remove split: if_splits)
qed

end
