(* ===== verification/WatchedStore.thy ===== *)
theory WatchedStore
  imports Relayer
begin

text \<open>
  \<^verbatim>\<open>WatchedScriptStore\<close> of \<^verbatim>\<open>relayer.rs\<close>: the watched scripts with the file that lists them. The file
  system is an argument: a state and the operations of \<^verbatim>\<open>std::fs\<close> the store calls, each of which
  may fail with a message. What a successful operation does to the contents of the files is the
  locale \<open>file_laws\<close>; nothing is assumed about a failed one.
\<close>

section \<open>The file system\<close>

record 'fs file_ops =
  \<comment> \<open>\<^verbatim>\<open>Path::join\<close> and \<^verbatim>\<open>Path::with_file_name\<close>\<close>
  fo_join :: "string \<Rightarrow> string \<Rightarrow> string"
  fo_with_file_name :: "string \<Rightarrow> string \<Rightarrow> string"
  \<comment> \<open>\<^verbatim>\<open>File::create\<close>, \<^verbatim>\<open>File::options().append(true).create(true).open\<close>, \<^verbatim>\<open>writeln!\<close>, \<^verbatim>\<open>flush\<close>,
     \<^verbatim>\<open>std::fs::rename\<close>; an open file is named by its path\<close>
  fo_create :: "string \<Rightarrow> 'fs \<Rightarrow> (string + unit) \<times> 'fs"
  fo_open_append :: "string \<Rightarrow> 'fs \<Rightarrow> (string + unit) \<times> 'fs"
  fo_write :: "string \<Rightarrow> string \<Rightarrow> 'fs \<Rightarrow> (string + unit) \<times> 'fs"
  fo_flush :: "string \<Rightarrow> 'fs \<Rightarrow> (string + unit) \<times> 'fs"
  fo_rename :: "string \<Rightarrow> string \<Rightarrow> 'fs \<Rightarrow> (string + unit) \<times> 'fs"

text \<open>An operation followed by the \<^verbatim>\<open>?\<close> operator; what it did to the files stays when a later one fails.\<close>

definition io ::
  "(string + 'a) \<times> 'fs \<Rightarrow> ('fs \<Rightarrow> 'b client_result \<times> 'fs) \<Rightarrow> 'b client_result \<times> 'fs"
where
  "io m f = (case m of (Inl e, fs) \<Rightarrow> (Err (Client_Io e), fs) | (Inr _, fs) \<Rightarrow> f fs)"

lemma io_Ok_iff: "io m f = (Ok y, fs') \<longleftrightarrow> (\<exists>x fs. m = (Inr x, fs) \<and> f fs = (Ok y, fs'))"
  by (auto simp: io_def split: prod.splits sum.splits)

section \<open>The store\<close>

record watched_script_store =
  wss_scripts :: watched_scripts
  wss_file_path :: string

definition newline :: string where
  "newline = [char_of (10 :: nat)]"

definition csv_line :: "dest \<times> u32 \<Rightarrow> string" where
  "csv_line entry = Client_Dest_to_receiver_addr (fst entry) @ '','' @ nat_to_string (snd entry) @ newline"

definition WatchedScriptStore_write ::
  "'fs file_ops \<Rightarrow> string \<Rightarrow> dest \<Rightarrow> u32 \<Rightarrow> 'fs \<Rightarrow> unit client_result \<times> 'fs"
where
  "WatchedScriptStore_write F file dest sigset_index fs =
     io (fo_write F file (csv_line (dest, sigset_index)) fs) (\<lambda>fs.
     io (fo_flush F file fs) (\<lambda>fs.
     (Ok (), fs)))"

text \<open>The loop of \<^verbatim>\<open>open\<close> over the values of the collection, which it has just created.\<close>

fun write_entries ::
  "'fs file_ops \<Rightarrow> string \<Rightarrow> (string \<times> dest \<times> u32) list \<Rightarrow> 'fs \<Rightarrow> unit client_result \<times> 'fs"
where
  "write_entries F file [] fs = (Ok (), fs)"
| "write_entries F file ((_, addr, sigset_index) # rest) fs =
     (case WatchedScriptStore_write F file addr sigset_index fs of
        (Inl e, fs) \<Rightarrow> (Inl e, fs)
      | (Inr _, fs) \<Rightarrow> write_entries F file rest fs)"

definition WatchedScriptStore_open ::
  "'fs file_ops \<Rightarrow> string \<Rightarrow> 'fs \<Rightarrow> watched_script_store client_result \<times> 'fs"
where
  "WatchedScriptStore_open F dir fs =
     (let path = fo_join F dir ''watched-addrs.csv'';
          scripts = WatchedScripts_new;
          tmp_path = fo_with_file_name F path ''watched-addrs-tmp.csv''
      in io (fo_create F tmp_path fs) (\<lambda>fs.
         case write_entries F tmp_path (ws_scripts scripts) fs of
           (Inl e, fs) \<Rightarrow> (Inl e, fs)
         | (Inr _, fs) \<Rightarrow>
             io (fo_flush F tmp_path fs) (\<lambda>fs.
             io (fo_rename F tmp_path path fs) (\<lambda>fs.
             (Ok \<lparr>wss_scripts = scripts, wss_file_path = path\<rparr>, fs)))))"

definition WatchedScriptStore_insert ::
  "'fs file_ops \<Rightarrow> 'x client_ext_scheme \<Rightarrow> watched_script_store \<Rightarrow> dest \<Rightarrow> signatory_set \<Rightarrow> 'fs \<Rightarrow>
   unit client_result \<times> watched_script_store \<times> 'fs"
where
  "WatchedScriptStore_insert F C self dest sigset fs =
     (case WatchedScripts_insert C (wss_scripts self) dest sigset of
        Inl e \<Rightarrow> (Inl e, self, fs)
      | Inr (inserted, scripts) \<Rightarrow>
          (let self = self\<lparr>wss_scripts := scripts\<rparr>
           in if inserted
              then (case io (fo_open_append F (wss_file_path self) fs)
                           (WatchedScriptStore_write F (wss_file_path self) dest (Client_SignatorySet_index sigset)) of
                      (r, fs) \<Rightarrow> (r, self, fs))
              else (Ok (), self, fs)))"

section \<open>The file lists the watched scripts\<close>

text \<open>The contents of the files, and what the operations do to them when they succeed.\<close>

locale file_laws =
  fixes F :: "'fs file_ops" and content :: "'fs \<Rightarrow> string \<Rightarrow> string option"
  assumes tmp_name: "fo_with_file_name F p ''watched-addrs-tmp.csv'' \<noteq> fo_join F dir ''watched-addrs.csv''"
    and create: "fo_create F p fs = (Inr (), fs') \<Longrightarrow> content fs' = (content fs)(p \<mapsto> '''')"
    and open_append: "fo_open_append F p fs = (Inr (), fs') \<Longrightarrow>
      content fs' = (content fs)(p \<mapsto> (case content fs p of None \<Rightarrow> '''' | Some t \<Rightarrow> t))"
    and written: "fo_write F p text fs = (Inr (), fs') \<Longrightarrow> content fs p = Some t \<Longrightarrow>
      content fs' = (content fs)(p \<mapsto> t @ text)"
    and flush: "fo_flush F p fs = (Inr (), fs') \<Longrightarrow> content fs' = content fs"
    and rename: "fo_rename F p q fs = (Inr (), fs') \<Longrightarrow> p \<noteq> q \<Longrightarrow> content fs p = Some t \<Longrightarrow>
      content fs' = (content fs)(p := None, q \<mapsto> t)"
begin

lemma open_content:
  assumes "WatchedScriptStore_open F dir fs = (Ok self, fs')"
  shows "content fs' (wss_file_path self) = Some ''''" and "wss_scripts self = WatchedScripts_new"
    and "wss_file_path self = fo_join F dir ''watched-addrs.csv''"
proof -
  let ?p = "fo_join F dir ''watched-addrs.csv''"
  let ?t = "fo_with_file_name F ?p ''watched-addrs-tmp.csv''"
  obtain fs1 fs2 where 1: "fo_create F ?t fs = (Inr (), fs1)" and 2: "fo_flush F ?t fs1 = (Inr (), fs2)"
      and 3: "fo_rename F ?t ?p fs2 = (Inr (), fs')" and self: "self = \<lparr>wss_scripts = WatchedScripts_new, wss_file_path = ?p\<rparr>"
    using assms by (auto simp: WatchedScriptStore_open_def WatchedScripts_new_def Let_def io_Ok_iff)
  have "content fs2 ?t = Some ''''" using create [OF 1] flush [OF 2] by simp
  from rename [OF 3 tmp_name this] show "content fs' (wss_file_path self) = Some ''''"
    by (simp add: self)
  show "wss_scripts self = WatchedScripts_new" "wss_file_path self = ?p" by (simp_all add: self)
qed

lemma append_content:
  assumes "io (fo_open_append F p fs) (WatchedScriptStore_write F p dest i) = (Ok u, fs')" and "content fs p = Some t"
  shows "content fs' p = Some (t @ csv_line (dest, i))"
proof -
  obtain fs1 fs2 where 1: "fo_open_append F p fs = (Inr (), fs1)" and 2: "fo_write F p (csv_line (dest, i)) fs1 = (Inr (), fs2)"
      and 3: "fo_flush F p fs2 = (Inr (), fs')"
    using assms(1) by (auto simp: WatchedScriptStore_write_def io_Ok_iff)
  have "content fs1 p = Some t" using open_append [OF 1] assms(2) by simp
  from written [OF 2 this] flush [OF 3] show ?thesis by simp
qed

end

text \<open>The states of the store, as long as nothing fails and nobody else writes the file.\<close>

inductive tracking ::
  "'fs file_ops \<Rightarrow> 'x client_ext_scheme \<Rightarrow> watched_script_store \<Rightarrow> 'fs \<Rightarrow> bool" for F C where
  open_store: "WatchedScriptStore_open F dir fs = (Ok self, fs') \<Longrightarrow> tracking F C self fs'"
| insert: "tracking F C self fs \<Longrightarrow> WatchedScriptStore_insert F C self dest sigset fs = (Ok (), self', fs') \<Longrightarrow>
    tracking F C self' fs'"

lemma mset_omap_save: "map_of m k = None \<Longrightarrow> mset (omap_save k v m) = add_mset (k, v) (mset m)"
  by (induction m) (auto split: if_splits)

context file_laws
begin

lemma tracking_listed:
  assumes "tracking F C self fs"
  shows "\<exists>es. mset es = mset (map snd (ws_scripts (wss_scripts self))) \<and>
    content fs (wss_file_path self) = Some (concat (map csv_line es))"
  using assms
proof induction
  case (open_store dir fs self fs')
  show ?case
    using open_content [OF open_store] by (simp add: WatchedScripts_new_def)
next
  case (insert self fs dest sigset self' fs')
  then obtain es where es: "mset es = mset (map snd (ws_scripts (wss_scripts self)))"
      and t: "content fs (wss_file_path self) = Some (concat (map csv_line es))" by blast
  obtain b scripts where i: "WatchedScripts_insert C (wss_scripts self) dest sigset = Ok (b, scripts)"
      and self': "self' = self\<lparr>wss_scripts := scripts\<rparr>"
      and wr: "if b then io (fo_open_append F (wss_file_path self) fs)
          (WatchedScriptStore_write F (wss_file_path self) dest (ss_index sigset)) = (Ok (), fs') else fs' = fs"
    using insert.hyps(2) by (auto simp: WatchedScriptStore_insert_def Let_def Client_SignatorySet_index_def
        split: sum.splits prod.splits if_splits)
  show ?case
  proof (cases b)
    case False
    then have "scripts = wss_scripts self" using i by (auto simp: insert_Ok_iff)
    then show ?thesis using es t wr False self' by auto
  next
    case True
    then obtain script where new: "map_of (ws_scripts (wss_scripts self)) (script_to_hex C script) = None"
        and scripts: "ws_scripts scripts = omap_save (script_to_hex C script) (dest, ss_index sigset) (ws_scripts (wss_scripts self))"
      using i unfolding insert_Ok_iff WatchedScripts_has_def by (auto simp del: not_None_eq)
    have "content fs' (wss_file_path self) = Some (concat (map csv_line es) @ csv_line (dest, ss_index sigset))"
      using wr True by (intro append_content [OF _ t]) simp
    then show ?thesis
      using es mset_omap_save [OF new] by (intro exI [of _ "es @ [(dest, ss_index sigset)]"]) (simp add: self' scripts)
  qed
qed

end

text \<open>
  C33: The file of the relayer lists what it watches. As long as no operation on the file fails, the
  file of the store holds exactly one line per watched script, in some order: the receiver of the
  destination and the index of the signatory set the script is filed under.
\<close>

theorem watched_file_lists_scripts:
  assumes "file_laws F content" and "tracking F C self fs"
  shows "\<exists>es. mset es = mset (map snd (ws_scripts (wss_scripts self))) \<and>
    content fs (wss_file_path self) = Some (concat (map (\<lambda>(dest, i).
      Client_Dest_to_receiver_addr dest @ '','' @ nat_to_string i @ newline) es))"
  using file_laws.tracking_listed [OF assms] by (simp add: csv_line_def [abs_def] case_prod_unfold)

text \<open>
  What a relayer watched is gone after a restart. Opening the store replaces the file by an empty
  one and starts with an empty collection, whatever the file listed before.
\<close>

lemma reopened_store_forgets:
  assumes "file_laws F content" and "WatchedScriptStore_open F dir fs = (Ok self, fs')"
  shows "content fs' (wss_file_path self) = Some '''' \<and> wss_file_path self = fo_join F dir ''watched-addrs.csv'' \<and>
    (\<forall>script. WatchedScripts_get C (wss_scripts self) script = None)"
  using file_laws.open_content [OF assms] by (simp add: WatchedScripts_get_def WatchedScripts_new_def)

end
