(* ===== verification/ClientThresholdSig.thy ===== *)
theory ClientThresholdSig
  imports ClientSignatory
begin

text \<open>
  \<^verbatim>\<open>threshold_sig.rs\<close> of the client: the signing state a signer builds from the shares the contract
  hands out. It verifies signatures with the secp256k1 library instead of the host of the contract,
  and everything else is a copy. The last section shows that collecting signatures with the client
  is a run of the contract's own signing states.
\<close>

section \<open>Operations\<close>

text \<open>The struct and the entries have the fields of the contract's.\<close>

type_synonym client_share = share
type_synonym client_threshold_sig = threshold_sig

definition Client_ThresholdSig_new :: client_threshold_sig where
  "Client_ThresholdSig_new =
     \<lparr>ts_threshold = 0, ts_signed = 0, ts_message = replicate 32 0, ts_len = 0, ts_sigs = []\<rparr>"

definition Client_ThresholdSig_len :: "client_threshold_sig \<Rightarrow> u16" where
  "Client_ThresholdSig_len self = ts_len self"

definition Client_ThresholdSig_set_message :: "client_threshold_sig \<Rightarrow> message \<Rightarrow> client_threshold_sig" where
  "Client_ThresholdSig_set_message self m = self\<lparr>ts_message := m\<rparr>"

definition Client_ThresholdSig_clear_sigs :: "client_threshold_sig \<Rightarrow> client_threshold_sig" where
  "Client_ThresholdSig_clear_sigs self =
     self\<lparr>ts_signed := 0, ts_sigs := map (\<lambda>(k, sh). (k, sh\<lparr>sh_sig := None\<rparr>)) (ts_sigs self)\<rparr>"

definition Client_ThresholdSig_message :: "client_threshold_sig \<Rightarrow> message" where
  "Client_ThresholdSig_message self = ts_message self"

definition Client_sigset_threshold_of :: "u64 \<Rightarrow> u64 client_result" where
  "Client_sigset_threshold_of total_vp =
     bnd (mul_w 128 total_vp (fst Client_SIGSET_THRESHOLD)) (\<lambda>p.
     bnd (div_r p (snd Client_SIGSET_THRESHOLD)) (\<lambda>q. Ok (as_u64 q)))"

definition Client_from_sigset_step ::
  "client_signatory \<Rightarrow> client_threshold_sig \<times> u64 \<Rightarrow> (client_threshold_sig \<times> u64) client_result"
where
  "Client_from_sigset_step s st =
     (case st of (ts, total_vp) \<Rightarrow>
        bnd (add_u16 (ts_len ts) 1) (\<lambda>n.
        bnd (add_u64 total_vp (sg_voting_power s)) (\<lambda>vp.
        Ok (ts\<lparr>ts_sigs := ts_sigs ts @ [(sg_pubkey s, \<lparr>sh_power = sg_voting_power s, sh_sig = None\<rparr>)],
               ts_len := n\<rparr>, vp))))"

definition Client_ThresholdSig_from_sigset :: "client_signatory_set \<Rightarrow> client_threshold_sig client_result" where
  "Client_ThresholdSig_from_sigset signatories =
     bnd (fold_r Client_from_sigset_step (Client_SignatorySet_iter signatories) (Client_ThresholdSig_new, 0))
       (\<lambda>(ts, total_vp).
     bnd (Client_sigset_threshold_of total_vp) (\<lambda>t.
     Ok (ts\<lparr>ts_threshold := t\<rparr>)))"

definition Client_from_shares_step ::
  "pubkey \<times> client_share \<Rightarrow> client_threshold_sig \<times> u64 \<times> u16 \<Rightarrow> (client_threshold_sig \<times> u64 \<times> u16) client_result"
where
  "Client_from_shares_step entry st =
     (case st of (ts, total_vp, n) \<Rightarrow>
        bnd (assert_r (sh_sig (snd entry) = None)) (\<lambda>_.
        bnd (add_u64 total_vp (sh_power (snd entry))) (\<lambda>vp.
        bnd (add_u16 n 1) (\<lambda>n.
        Ok (ts\<lparr>ts_sigs := ts_sigs ts @ [entry]\<rparr>, vp, n)))))"

definition Client_ThresholdSig_from_shares :: "(pubkey \<times> client_share) list \<Rightarrow> client_threshold_sig client_result" where
  "Client_ThresholdSig_from_shares shares =
     bnd (fold_r Client_from_shares_step shares (Client_ThresholdSig_new, 0, 0)) (\<lambda>(ts, total_vp, n).
     bnd (Client_sigset_threshold_of total_vp) (\<lambda>t.
     Ok (ts\<lparr>ts_threshold := t, ts_len := n\<rparr>)))"

definition newThresholdSig :: "(pubkey \<times> client_share) list \<Rightarrow> client_threshold_sig client_result" where
  "newThresholdSig shares = Client_ThresholdSig_from_shares shares"

definition Client_ThresholdSig_signed :: "client_threshold_sig \<Rightarrow> bool" where
  "Client_ThresholdSig_signed self \<longleftrightarrow> ts_signed self > ts_threshold self"

definition Client_ThresholdSig_sigs :: "client_threshold_sig \<Rightarrow> (pubkey \<times> signature) list" where
  "Client_ThresholdSig_sigs self =
     List.map_filter (\<lambda>(k, sh). map_option (Pair k) (sh_sig sh)) (ts_sigs self)"

definition Client_ThresholdSig_shares :: "client_threshold_sig \<Rightarrow> (pubkey \<times> client_share) list" where
  "Client_ThresholdSig_shares self = ts_sigs self"

definition Client_ThresholdSig_contains_key :: "client_threshold_sig \<Rightarrow> pubkey \<Rightarrow> bool" where
  "Client_ThresholdSig_contains_key self pubkey \<longleftrightarrow> list_ex (\<lambda>(k, _). pubkey = k) (ts_sigs self)"

definition Client_ThresholdSig_needs_sig :: "client_threshold_sig \<Rightarrow> pubkey \<Rightarrow> bool" where
  "Client_ThresholdSig_needs_sig self pubkey \<longleftrightarrow>
     (case find (\<lambda>(k, _). pubkey = k) (ts_sigs self) of
        None \<Rightarrow> False
      | Some (_, sh) \<Rightarrow> sh_sig sh = None)"

text \<open>Unlike the contract, the client parses the key and the signature before it checks them.\<close>

definition Client_ThresholdSig_secp_verify ::
  "'x client_ext_scheme \<Rightarrow> message \<Rightarrow> pubkey \<Rightarrow> signature \<Rightarrow> unit client_result"
where
  "Client_ThresholdSig_secp_verify C msg pubkey sig =
     bnd (from_lib Client_Secp (public_key_from_slice C pubkey)) (\<lambda>pubkey.
     bnd (from_lib Client_Secp (signature_from_compact C sig)) (\<lambda>sig.
     from_lib Client_Secp (verify_ecdsa C msg sig pubkey)))"

definition Client_ThresholdSig_verify ::
  "'x client_ext_scheme \<Rightarrow> client_threshold_sig \<Rightarrow> pubkey \<Rightarrow> signature \<Rightarrow> unit client_result"
where
  "Client_ThresholdSig_verify C self pubkey sig =
     bnd (from_lib Client_Secp (message_from_slice C (ts_message self))) (\<lambda>msg.
     Client_ThresholdSig_secp_verify C msg pubkey sig)"

definition Client_ThresholdSig_sign ::
  "'x client_ext_scheme \<Rightarrow> client_threshold_sig \<Rightarrow> pubkey \<Rightarrow> signature \<Rightarrow> client_threshold_sig client_result"
where
  "Client_ThresholdSig_sign C self pubkey sig =
     bnd (unwrap (key_position pubkey (ts_sigs self))) (\<lambda>i.
     let share = snd (ts_sigs self ! i)
     in bnd (throw_if (sh_sig share \<noteq> None) (Client_App ''Pubkey already signed'')) (\<lambda>_.
        bnd (from_lib Client_Secp (message_from_slice C (ts_message self))) (\<lambda>msg.
        bnd (Client_ThresholdSig_secp_verify C msg pubkey sig) (\<lambda>_.
        bnd (add_u64 (ts_signed self) (sh_power share)) (\<lambda>n.
        Ok (self\<lparr>ts_sigs := (ts_sigs self)[i := (fst (ts_sigs self ! i), share\<lparr>sh_sig := Some sig\<rparr>)],
                 ts_signed := n\<rparr>))))))"

definition Client_share_witness :: "'x client_ext_scheme \<Rightarrow> pubkey \<times> client_share \<Rightarrow> bytes client_result" where
  "Client_share_witness C entry =
     (case sh_sig (snd entry) of
        None \<Rightarrow> Ok []
      | Some sig \<Rightarrow>
          bnd (from_lib Client_Secp (signature_from_compact C sig)) (\<lambda>sig.
          Ok (signature_serialize_der C sig @ [EcdsaSighashType_All])))"

definition Client_ThresholdSig_to_witness ::
  "'x client_ext_scheme \<Rightarrow> client_threshold_sig \<Rightarrow> bytes list client_result"
where
  "Client_ThresholdSig_to_witness C self =
     (if \<not> Client_ThresholdSig_signed self then Ok []
      else map_r (Client_share_witness C) (sort_key (\<lambda>(k, sh). (sh_power sh, k)) (ts_sigs self)))"

section \<open>Signing with the client is signing with the contract\<close>

lemma sigset_threshold_of_agree [agree_intros]:
  "agree (sigset_threshold_of n) (Client_sigset_threshold_of n)"
  unfolding sigset_threshold_of_def Client_sigset_threshold_of_def SIGSET_THRESHOLD_def Client_SIGSET_THRESHOLD_def
  by (intro agree_intros)

lemma from_sigset_agree: "agree (ThresholdSig_from_sigset ss) (Client_ThresholdSig_from_sigset ss)"
  unfolding ThresholdSig_from_sigset_def Client_ThresholdSig_from_sigset_def from_sigset_step_def
    Client_from_sigset_step_def ThresholdSig_new_def Client_ThresholdSig_new_def Client_SignatorySet_iter_def
  by (auto intro!: agree_intros split: prod.splits)

lemma from_shares_agree: "agree (ThresholdSig_from_shares es) (Client_ThresholdSig_from_shares es)"
  unfolding ThresholdSig_from_shares_def Client_ThresholdSig_from_shares_def from_shares_step_def
    Client_from_shares_step_def ThresholdSig_new_def Client_ThresholdSig_new_def
  by (auto intro!: agree_intros split: prod.splits)

lemma needs_sig_agree: "Client_ThresholdSig_needs_sig = ThresholdSig_needs_sig"
  by (intro ext) (simp add: Client_ThresholdSig_needs_sig_def ThresholdSig_needs_sig_def)

lemma signed_agree: "Client_ThresholdSig_signed = ThresholdSig_signed"
  by (intro ext) (simp add: Client_ThresholdSig_signed_def ThresholdSig_signed_def)

text \<open>
  What the two signature libraries have in common: the host of the contract accepts what the
  secp256k1 library accepts (not the other way round, since the library refuses signatures that are
  not in normal form), and both read compact signatures in the same way.
\<close>

locale same_signatures = same_crates C E
  for C :: "'x client_ext_scheme" and E :: "'y iface_ext_scheme" +
  assumes host_accepts: "message_from_slice C m = Inr m' \<Longrightarrow> public_key_from_slice C k = Inr pk \<Longrightarrow>
      signature_from_compact C sig = Inr s \<Longrightarrow> verify_ecdsa C m' s pk = Inr () \<Longrightarrow>
      secp256k1_verify E m sig k = Ok True"
    and der: "signature_der E sig =
      (case signature_from_compact C sig of
         Inl e \<Rightarrow> Err (Secp e) | Inr s \<Rightarrow> Ok (signature_serialize_der C s))"
begin

lemma verify_accepted:
  assumes "message_from_slice C m = Inr msg" and "Client_ThresholdSig_secp_verify C msg k sig = Ok u"
  shows "secp256k1_verify E m sig k = Ok True"
  using assms host_accepts [OF assms(1), of k _ sig]
  by (auto simp: Client_ThresholdSig_secp_verify_def ok_simps)

lemma sign_accepted:
  assumes "Client_ThresholdSig_sign C ts k sig = Ok ts'"
  shows "ThresholdSig_sign E ts k sig = Ok ts'"
  using assms
  by (auto simp: ThresholdSig_sign_Inr_iff Client_ThresholdSig_sign_def Let_def ok_simps
      dest: key_position_SomeD verify_accepted)

lemma share_witness_agree [agree_intros]: "agree (share_witness E e) (Client_share_witness C e)"
  by (auto simp: share_witness_def Client_share_witness_def der split: option.splits sum.splits)

lemma to_witness_agree: "agree (ThresholdSig_to_witness E ts) (Client_ThresholdSig_to_witness C ts)"
  unfolding ThresholdSig_to_witness_def Client_ThresholdSig_to_witness_def signed_agree
  by (intro agree_intros)

end

text \<open>
  The states a signer goes through: a state made from shares, with the message to sign, and then
  the signatures the client accepts.
\<close>

inductive client_signing ::
  "'x client_ext_scheme \<Rightarrow> (pubkey \<times> share) list \<Rightarrow> threshold_sig \<Rightarrow> bool" for C shares where
  start: "newThresholdSig shares = Ok ts \<Longrightarrow>
    client_signing C shares (Client_ThresholdSig_set_message ts m)"
| sign: "client_signing C shares ts \<Longrightarrow> Client_ThresholdSig_sign C ts k sig = Ok ts' \<Longrightarrow>
    client_signing C shares ts'"

lemma client_signing_reachable:
  assumes crates: "same_signatures C E" and fresh: "ThresholdSig_from_sigset ss = Ok ts0"
    and "client_signing C (Client_ThresholdSig_shares ts0) ts"
  shows "ts_reachable E ss ts"
  using assms(3)
proof induction
  case (start ts m)
  then have "ThresholdSig_from_shares (ts_sigs ts0) = Ok ts"
    using from_shares_agree [of "ts_sigs ts0"] by (simp add: newThresholdSig_def Client_ThresholdSig_shares_def)
  then have "ts = ts0" by (rule from_shares_fresh [OF fresh])
  then show ?case
    using ts_reachable.start [OF fresh, of E m]
    by (simp add: Client_ThresholdSig_set_message_def ThresholdSig_set_message_def)
next
  case (sign ts k sig ts')
  then show ?case
    using same_signatures.sign_accepted [OF crates] by (blast intro: ts_reachable.sign)
qed

text \<open>
  C31: Signing with the client is signing with the contract. When the client builds its state from
  the shares of a fresh input and collects signatures it accepts, the state is one the contract
  could have reached for the same signatory set, both count it as signed or not in the same way,
  the contract would take the next signature the client takes, and both build the same witness.
\<close>

theorem client_signing_refines:
  assumes "same_signatures C E" and "ThresholdSig_from_sigset ss = Ok ts0"
    and "client_signing C (Client_ThresholdSig_shares ts0) ts"
  shows "ts_reachable E ss ts \<and> (Client_ThresholdSig_signed ts \<longleftrightarrow> ThresholdSig_signed ts) \<and>
    (\<forall>k sig ts'. Client_ThresholdSig_sign C ts k sig = Ok ts' \<longrightarrow> ThresholdSig_sign E ts k sig = Ok ts') \<and>
    agree (ThresholdSig_to_witness E ts) (Client_ThresholdSig_to_witness C ts)"
  using client_signing_reachable [OF assms] same_signatures.sign_accepted [OF assms(1)]
    same_signatures.to_witness_agree [OF assms(1)]
  by (simp add: signed_agree)

end
