(* ===== verification/ClientHeader.thy ===== *)
theory ClientHeader
  imports Client HeaderQueue
begin

text \<open>
  \<^verbatim>\<open>header_queue.rs\<close> of the client: the header types with their accessors, and the functions that
  make a header configuration and its first work header for JavaScript. The configurations and
  headers have the fields of the contract's structs, whose records are used here.
\<close>

section \<open>Headers\<close>

type_synonym client_header_config = header_config
type_synonym client_work_header = work_header
type_synonym client_wrapped_header = wrapped_header

definition Client_WrappedHeader_new :: "block_header \<Rightarrow> u32 \<Rightarrow> client_wrapped_header" where
  "Client_WrappedHeader_new header height = \<lparr>wh_height = height, wh_header = header\<rparr>"

definition Client_WrappedHeader_from_header :: "block_header \<Rightarrow> u32 \<Rightarrow> client_wrapped_header" where
  "Client_WrappedHeader_from_header header height = \<lparr>wh_height = height, wh_header = header\<rparr>"

definition Client_WrappedHeader_time :: "client_wrapped_header \<Rightarrow> u32" where
  "Client_WrappedHeader_time self = bh_time (wh_header self)"

definition Client_WrappedHeader_target :: "'x client_ext_scheme \<Rightarrow> client_wrapped_header \<Rightarrow> u256" where
  "Client_WrappedHeader_target C self = u256_from_compact_target C (bh_bits (wh_header self))"

definition Client_WrappedHeader_block_hash :: "'x client_ext_scheme \<Rightarrow> client_wrapped_header \<Rightarrow> block_hash" where
  "Client_WrappedHeader_block_hash C self = block_hash C (wh_header self)"

definition Client_WrappedHeader_prev_blockhash :: "client_wrapped_header \<Rightarrow> block_hash" where
  "Client_WrappedHeader_prev_blockhash self = bh_prev_blockhash (wh_header self)"

definition Client_WrappedHeader_work :: "'x client_ext_scheme \<Rightarrow> client_wrapped_header \<Rightarrow> u256" where
  "Client_WrappedHeader_work C self = header_work C (wh_header self)"

definition Client_WrappedHeader_height :: "client_wrapped_header \<Rightarrow> u32" where
  "Client_WrappedHeader_height self = wh_height self"

definition Client_WrappedHeader_bits :: "client_wrapped_header \<Rightarrow> u32" where
  "Client_WrappedHeader_bits self = bh_bits (wh_header self)"

definition Client_WrappedHeader_u256_from_compact :: "'x client_ext_scheme \<Rightarrow> u32 \<Rightarrow> u256" where
  "Client_WrappedHeader_u256_from_compact C compact = u256_from_compact_target C compact"

definition Client_WrappedHeader_compact_target_from_u256 :: "'x client_ext_scheme \<Rightarrow> u256 \<Rightarrow> u32" where
  "Client_WrappedHeader_compact_target_from_u256 C target = compact_target_from_u256 C target"

definition Client_WrappedHeader_u32_to_u256 :: "u32 \<Rightarrow> u256" where
  "Client_WrappedHeader_u32_to_u256 value =
     (let bytes = be32 value
      in from_be_bytes (replicate (32 - length bytes) 0 @ bytes))"

text \<open>The proof-of-work check of the crate; its error becomes a \<^verbatim>\<open>Bitcoin\<close> error.\<close>

definition Client_WrappedHeader_validate_pow ::
  "(block_header \<Rightarrow> u256 \<Rightarrow> string + block_hash) \<Rightarrow> client_wrapped_header \<Rightarrow> u256 \<Rightarrow> block_hash client_result"
where
  "Client_WrappedHeader_validate_pow validate_pow self required_target =
     from_lib Client_Bitcoin (validate_pow (wh_header self) required_target)"

definition Client_WorkHeader_new :: "client_wrapped_header \<Rightarrow> u256 \<Rightarrow> client_work_header" where
  "Client_WorkHeader_new header chain_work = \<lparr>kh_chain_work = chain_work, kh_header = header\<rparr>"

definition Client_WorkHeader_time :: "client_work_header \<Rightarrow> u32" where
  "Client_WorkHeader_time self = Client_WrappedHeader_time (kh_header self)"

definition Client_WorkHeader_block_hash :: "'x client_ext_scheme \<Rightarrow> client_work_header \<Rightarrow> block_hash" where
  "Client_WorkHeader_block_hash C self = Client_WrappedHeader_block_hash C (kh_header self)"

definition Client_WorkHeader_work :: "'x client_ext_scheme \<Rightarrow> client_work_header \<Rightarrow> u256" where
  "Client_WorkHeader_work C self = Client_WrappedHeader_work C (kh_header self)"

definition Client_WorkHeader_height :: "client_work_header \<Rightarrow> u32" where
  "Client_WorkHeader_height self = Client_WrappedHeader_height (kh_header self)"

definition Client_WorkHeader_merkle_root :: "client_work_header \<Rightarrow> merkle_root" where
  "Client_WorkHeader_merkle_root self = bh_merkle_root (wh_header (kh_header self))"

section \<open>The functions exported to JavaScript\<close>

definition newWrappedHeader :: "block_header \<Rightarrow> u32 \<Rightarrow> client_wrapped_header" where
  "newWrappedHeader header height = Client_WrappedHeader_new header height"

text \<open>\<^verbatim>\<open>serde_wasm_bindgen::from_value\<close> reads the header from a JavaScript value; it is an argument.\<close>

definition newHeaderConfig ::
  "('j \<Rightarrow> string + block_header) \<Rightarrow> u32 \<Rightarrow> 'j \<Rightarrow> client_header_config client_result"
where
  "newHeaderConfig from_value height block_header =
     bnd (from_lib Client_Wasm (from_value block_header)) (\<lambda>header.
     Ok \<lparr>hc_max_length = Client_MAX_LENGTH,
         hc_max_time_increase = Client_MAX_TIME_INCREASE,
         hc_trusted_height = height,
         hc_retarget_interval = Client_RETARGET_INTERVAL,
         hc_target_spacing = Client_TARGET_SPACING,
         hc_target_timespan = Client_TARGET_TIMESPAN,
         hc_max_target = Client_MAX_TARGET,
         hc_retargeting = True,
         hc_min_difficulty_blocks = False,
         hc_trusted_header = header\<rparr>)"

definition newWorkHeader :: "'x client_ext_scheme \<Rightarrow> client_header_config \<Rightarrow> client_work_header" where
  "newWorkHeader C header_config =
     (let wrapped_header = Client_WrappedHeader_new (hc_trusted_header header_config) (hc_trusted_height header_config)
      in Client_WorkHeader_new wrapped_header (Client_WrappedHeader_work C wrapped_header))"

section \<open>The contract starts from what the client makes\<close>

lemma newHeaderConfig_Ok:
  "from_value js = Inr header \<Longrightarrow> newHeaderConfig from_value height js = Ok (HeaderConfig_from_bytes (height, header))"
  by (simp add: newHeaderConfig_def HeaderConfig_from_bytes_def MAX_LENGTH_def MAX_TIME_INCREASE_def RETARGET_INTERVAL_def
      TARGET_SPACING_def TARGET_TIMESPAN_def MAX_TARGET_def Client_MAX_LENGTH_def Client_MAX_TIME_INCREASE_def
      Client_RETARGET_INTERVAL_def Client_TARGET_SPACING_def Client_TARGET_TIMESPAN_def Client_MAX_TARGET_def)

context same_crates
begin

lemma newWorkHeader_agree: "newWorkHeader C c = HeaderConfig_work_header E c"
  by (simp add: newWorkHeader_def HeaderConfig_work_header_def Client_WrappedHeader_new_def WrappedHeader_new_def
      Client_WorkHeader_new_def WorkHeader_new_def Client_WrappedHeader_work_def WrappedHeader_work_def)

end

text \<open>
  C34: The contract starts from what the client makes. A header JavaScript can hand over gives a
  configuration with the contract's own constants; when the contract is configured with it, its
  queue holds exactly the work header the client computes, at the given height, a valid chain from
  which every header sent later is checked, and the work it counts is the one of this header.
\<close>

theorem client_header_config_starts_chain:
  assumes "same_crates C E" and "contract_deques E" and "dq_ok (st_headers st)" and "from_value js = Inr header"
  shows "\<exists>c. newHeaderConfig from_value height js = Ok c \<and> c = HeaderConfig_from_bytes (height, header) \<and>
    header_items (HeaderQueue_configure E st c) = [newWorkHeader C c] \<and>
    HeaderQueue_height E (HeaderQueue_configure E st c) = height \<and>
    st_current_work (HeaderQueue_configure E st c) = Some (kh_chain_work (newWorkHeader C c)) \<and>
    headers_inv E (HeaderQueue_configure E st c)"
proof -
  let ?c = "HeaderConfig_from_bytes (height, header)"
  let ?st = "HeaderQueue_configure E st ?c"
  have work: "newWorkHeader C ?c = HeaderConfig_work_header E ?c"
    by (rule same_crates.newWorkHeader_agree [OF assms(1)])
  have len: "0 < hc_max_length ?c" "hc_max_length ?c < 2 ^ 31"
    by (simp_all add: HeaderConfig_from_bytes_def MAX_LENGTH_def)
  note conf = contract_deques.configure_inv [OF assms(2) len assms(3)]
  have "HeaderQueue_height E ?st = height"
    using conf contract_deques.header_reads(1) [OF assms(2), of ?st]
    by (simp add: headers_inv_def HeaderConfig_work_header_def WorkHeader_height_def WorkHeader_new_def
        WrappedHeader_new_def HeaderConfig_from_bytes_def Let_def)
  moreover have "st_current_work ?st = Some (kh_chain_work (HeaderConfig_work_header E ?c))"
    by (simp add: HeaderQueue_configure_def HeaderConfig_work_header_def Let_def)
  ultimately show ?thesis
    using newHeaderConfig_Ok [of from_value js header height, OF assms(4)] conf work by simp
qed

end
