(* ===== verification/ClientInstance.thy ===== *)
theory ClientInstance
  imports Witnesses WatchedStore ClientThresholdSig ClientHeader
begin

text \<open>
  A concrete client: the crates of the concrete contract library with the functions only the client
  calls, and a file system of strings. The interpretations show that the agreements between the two
  crates and the laws of the file system can be kept; the properties of the client are applied to
  concrete states of the client below.
\<close>

section \<open>A client that keeps the agreements\<close>

definition std_client :: client_ext where
  "std_client = iface_ext.extend (iface_ext.truncate std_ext)
     (client_ext.fields
       (\<lambda>fs. Inr (write_json fs))
       Inr
       Inr
       (\<lambda>sig. sig)
       (\<lambda>m sig k. if sig = m @ k then Inr () else Inl ''signature failed verification'')
       (\<lambda>s. Inr (unary_decode 0 s))
       unary_encode
       (\<lambda>s. Inr (unary_decode 0 s))
       (\<lambda>b. Inl ''parse failed'')
       unary_encode
       unary_encode
       (\<lambda>s. Inr (unary_decode 0 s)))"

lemmas std_client_defs = std_client_def iface_ext.defs client_ext.defs

lemma std_client_sels:
  "json_to_vec std_client = (\<lambda>fs. Inr (write_json fs))"
  "message_from_slice std_client = Inr"
  "signature_from_compact std_client = Inr"
  "signature_serialize_der std_client = (\<lambda>sig. sig)"
  "verify_ecdsa std_client = (\<lambda>m sig k. if sig = m @ k then Inr () else Inl ''signature failed verification'')"
  "script_to_hex std_client = unary_encode"
  "public_key_from_slice std_client = public_key_from_slice std_ext"
  by (simp_all add: std_client_defs)

interpretation std_crates: same_crates std_client std_ext
  by unfold_locales (simp_all add: std_client_defs std_sels)

interpretation std_signatures: same_signatures std_client std_ext
  by unfold_locales (auto simp: std_client_sels std_sels std_ext_def split: if_splits)

text \<open>Files as a map from paths to contents.\<close>

definition std_files :: "(string \<Rightarrow> string option) file_ops" where
  "std_files =
     \<lparr>fo_join = (\<lambda>dir name. dir @ ''/'' @ name),
      fo_with_file_name = (\<lambda>path name. rev (dropWhile (\<lambda>c. c \<noteq> CHR ''/'') (rev path)) @ name),
      fo_create = (\<lambda>p fs. (Inr (), fs(p \<mapsto> ''''))),
      fo_open_append = (\<lambda>p fs. (Inr (), fs(p \<mapsto> (case fs p of None \<Rightarrow> '''' | Some t \<Rightarrow> t)))),
      fo_write = (\<lambda>p text fs. case fs p of
         None \<Rightarrow> (Inl ''not found'', fs) | Some t \<Rightarrow> (Inr (), fs(p \<mapsto> t @ text))),
      fo_flush = (\<lambda>p fs. (Inr (), fs)),
      fo_rename = (\<lambda>p q fs. case fs p of
         None \<Rightarrow> (Inl ''not found'', fs) | Some t \<Rightarrow> (Inr (), fs(p := None, q \<mapsto> t)))\<rparr>"

lemma suffix_neq: "length u = length v \<Longrightarrow> u \<noteq> v \<Longrightarrow> xs @ u \<noteq> ys @ v"
  by simp

interpretation std_files: file_laws std_files "\<lambda>fs. fs"
proof
  fix p dir :: string
  have "fo_with_file_name std_files p ''watched-addrs-tmp.csv'' =
      (rev (dropWhile (\<lambda>c. c \<noteq> CHR ''/'') (rev p)) @ ''watched-addrs'') @ ''-tmp.csv''"
    and "fo_join std_files dir ''watched-addrs.csv'' = (dir @ ''/watched-'') @ ''addrs.csv''"
    by (simp_all add: std_files_def)
  then show "fo_with_file_name std_files p ''watched-addrs-tmp.csv'' \<noteq> fo_join std_files dir ''watched-addrs.csv''"
    by (simp only: suffix_neq [of "''-tmp.csv''" "''addrs.csv''"]) simp
qed (auto simp: std_files_def split: option.splits)

section \<open>Instances of the properties\<close>

lemma unary_inj: "inj unary_encode"
  by (rule inj_on_inverseI [of _ "unary_decode 0"]) (rule unary_roundtrip)

lemma demo_output_script: "\<exists>s. SignatorySet_output_script std_ext demo_set (as_bytes ''u'') SIGSET_THRESHOLD = Ok s"
  using demo_threshold by (simp add: SignatorySet_output_script_def SignatorySet_redeem_script_def Let_def demo_set_def)

theorem client_scripts_agree_witness:
  "\<exists>script. SignatorySet_output_script std_ext demo_set (as_bytes ''u'') SIGSET_THRESHOLD = Ok script \<and>
     Client_SignatorySet_output_script std_client demo_set (as_bytes ''u'') SIGSET_THRESHOLD = Ok script"
  using demo_output_script client_scripts_agree [OF std_crates.same_crates_axioms, of demo_set "as_bytes ''u''" SIGSET_THRESHOLD]
  by auto

lemma demo_client_start: "client_signing std_client (ts_sigs (demo_ts {})) (demo_ts {})"
proof -
  have "newThresholdSig (ts_sigs (demo_ts {})) = Ok (demo_ts {}\<lparr>ts_message := replicate 32 0\<rparr>)"
    by (simp add: newThresholdSig_def Client_ThresholdSig_from_shares_def Client_from_shares_step_def demo_ts_def Let_def
        Client_ThresholdSig_new_def Client_sigset_threshold_of_def Client_SIGSET_THRESHOLD_def add_w_def mul_w_def div_r_def as_u64_def)
  from client_signing.start [OF this, of std_client "[5]"] show ?thesis
    by (simp add: Client_ThresholdSig_set_message_def demo_ts_def Let_def)
qed

lemma demo_client_sign:
  "n \<in> {1, 2, 3} \<Longrightarrow> n \<notin> S \<Longrightarrow>
     Client_ThresholdSig_sign std_client (demo_ts S) (demo_key n) ([5] @ demo_key n) = Ok (demo_ts (insert n S))"
  by (auto simp: Client_ThresholdSig_sign_def demo_ts_def Let_def Client_ThresholdSig_secp_verify_def std_client_sels std_sels
      add_w_def)

theorem client_signing_refines_witness:
  "client_signing std_client (ts_sigs (demo_ts {})) (demo_ts {3, 2}) \<and> ts_reachable std_ext demo_set (demo_ts {3, 2}) \<and>
     Client_ThresholdSig_signed (demo_ts {3, 2}) \<and>
     ThresholdSig_sign std_ext (demo_ts {3, 2}) (demo_key 1) ([5] @ demo_key 1) = Ok (demo_ts {1, 3, 2})"
proof -
  have "client_signing std_client (ts_sigs (demo_ts {})) (demo_ts {2})"
    by (rule client_signing.sign [OF demo_client_start demo_client_sign]) simp_all
  from client_signing.sign [OF this demo_client_sign, of 3]
  have run: "client_signing std_client (ts_sigs (demo_ts {})) (demo_ts {3, 2})" by simp
  have "Client_ThresholdSig_shares (demo_ts {}\<lparr>ts_message := replicate 32 0\<rparr>) = ts_sigs (demo_ts {})"
    by (simp add: Client_ThresholdSig_shares_def)
  from client_signing_refines [OF std_signatures.same_signatures_axioms demo_from_sigset, unfolded this, OF run]
  show ?thesis
    using run demo_signed(2) demo_client_sign [of 1 "{3, 2}"] by simp
qed

theorem client_header_config_starts_chain_witness:
  "\<exists>c. newHeaderConfig Inr 802368 (snd checkpoint_json) = Ok c \<and> c = HeaderConfig_mainnet \<and>
     header_items (HeaderQueue_configure std_ext empty_store c) = [newWorkHeader std_client c] \<and>
     HeaderQueue_height std_ext (HeaderQueue_configure std_ext empty_store c) = 802368"
proof -
  have "dq_ok (st_headers empty_store)" by (simp add: empty_store_def)
  moreover have "HeaderConfig_mainnet = HeaderConfig_from_bytes (802368, snd checkpoint_json)"
    by (simp add: HeaderConfig_mainnet_def checkpoint_json_def)
  ultimately show ?thesis
    using client_header_config_starts_chain [OF std_crates.same_crates_axioms std.contract_deques_axioms,
        of empty_store Inr "snd checkpoint_json" "snd checkpoint_json" 802368]
    by auto
qed

text \<open>The relayer watches the script of a user for the set of the checkpoint.\<close>

lemma demo_insert:
  obtains s ws where "SignatorySet_output_script std_ext demo_set (as_bytes ''u'') SIGSET_THRESHOLD = Ok s"
    and "WatchedScripts_insert std_client WatchedScripts_new (Dest_Address ''u'') demo_set = Ok (True, ws)"
    and "ws_scripts ws = [(unary_encode s, Dest_Address ''u'', 0)]"
proof -
  obtain s where s: "SignatorySet_output_script std_ext demo_set (as_bytes ''u'') SIGSET_THRESHOLD = Ok s"
    using demo_output_script by blast
  then have "Client_SignatorySet_output_script std_client demo_set (as_bytes ''u'') Client_SIGSET_THRESHOLD = Ok s"
    using std_crates.output_script_agree [of demo_set "as_bytes ''u''" SIGSET_THRESHOLD]
    by (simp add: SIGSET_THRESHOLD_def Client_SIGSET_THRESHOLD_def)
  then have derive: "WatchedScripts_derive_script std_client (Dest_Address ''u'') demo_set Client_SIGSET_THRESHOLD = Ok s"
    by (simp add: WatchedScripts_derive_script_def Client_Dest_commitment_bytes_def)
  have index: "Client_SignatorySet_index demo_set = 0" by (simp add: Client_SignatorySet_index_def demo_set_def)
  let ?ws = "WatchedScripts_new\<lparr>ws_scripts := [(unary_encode s, Dest_Address ''u'', 0)],
      ws_sigsets := watch_dest demo_set (Dest_Address ''u'') (ws_sigsets WatchedScripts_new)\<rparr>"
  have "WatchedScripts_insert std_client WatchedScripts_new (Dest_Address ''u'') demo_set = Ok (True, ?ws)"
    using derive index by (simp add: WatchedScripts_insert_def WatchedScripts_has_def WatchedScripts_new_def std_client_sels)
  then show thesis by (rule that [OF s]) simp
qed

text \<open>The bridge in operation holds the watched set as its checkpoint 0.\<close>

theorem watched_script_accepted_witness:
  "\<exists>script ws bytes. watching std_client (\<lambda>_. demo_set) ws \<and>
     WatchedScripts_get std_client ws script = Some (Dest_Address ''u'', 0) \<and>
     deposit_checks std_ext demo_live (demo_tx script) 802369 [1, 1] 0 0 (Dest_Address ''u'') =
       Ok (BitcoinConfig_bitcoin\<lparr>bc_min_withdrawal_checkpoints := 1\<rparr>, demo_cp Building {}, bytes, CheckpointConfig_default) \<and>
     Bitcoin_relay_deposit std_ext (demo_env 2000) demo_live (demo_tx (7 # script)) 802369 [1, 1] 0 0 (Dest_Address ''u'') =
       Err (App ''Output script does not match signature set'')"
proof -
  obtain s ws where ws: "WatchedScripts_insert std_client WatchedScripts_new (Dest_Address ''u'') demo_set = Ok (True, ws)"
      and scripts: "ws_scripts ws = [(unary_encode s, Dest_Address ''u'', 0)]"
    by (rule demo_insert)
  have get: "WatchedScripts_get std_client ws s = Some (Dest_Address ''u'', 0)"
    by (simp add: WatchedScripts_get_def scripts std_client_sels)
  have run: "watching std_client (\<lambda>_. demo_set) ws"
    by (rule watching.insert [OF watching.start _ ws]) simp
  have hex: "inj (script_to_hex std_client)" by (simp add: std_client_sels unary_inj)
  let ?c = "BitcoinConfig_bitcoin\<lparr>bc_min_withdrawal_checkpoints := 1\<rparr>"
  have cp: "CheckpointQueue_get std_ext demo_live 0 = Ok (demo_cp Building {})" "cp_sigset (demo_cp Building {}) = demo_set"
    by (simp add: std.get_unpruned [OF demo_live_unpruned] demo_live_queue) (simp add: demo_cp_def)
  have threshold: "cc_sigset_threshold CheckpointConfig_default = Client_SIGSET_THRESHOLD"
    by (simp add: CheckpointConfig_default_def SIGSET_THRESHOLD_def Client_SIGSET_THRESHOLD_def)
  have "bc_min_confirmations ?c = 1" by (simp add: fee_consts)
  then have inc: "verify_inclusion std_ext demo_live 802369 [1, 1] (bc_min_confirmations ?c) = Ok (tx_txid std_ext (demo_tx t))"
      "0 < length (btx_output (demo_tx t))" for t
    using demo_inclusion [of demo_live 1] by (simp_all add: demo_live_def std_sels demo_tx_def)
  note W = watched_script_accepted [OF std_crates.same_crates_axioms hex run get cp demo_live_config(2) threshold demo_live_config(1) inc]
  have "\<exists>bytes. deposit_checks std_ext demo_live (demo_tx s) 802369 [1, 1] 0 0 (Dest_Address ''u'') =
      Ok (?c, demo_cp Building {}, bytes, CheckpointConfig_default)"
    using W [of s] by (simp add: demo_tx_def)
  moreover have "Bitcoin_relay_deposit std_ext (demo_env 2000) demo_live (demo_tx (7 # s)) 802369 [1, 1] 0 0 (Dest_Address ''u'') =
      Err (App ''Output script does not match signature set'')"
    using W [of "7 # s" "demo_env 2000"] by (simp add: demo_tx_def)
  ultimately show ?thesis using run get by blast
qed

theorem watched_file_lists_scripts_witness:
  "\<exists>self fs. tracking std_files std_client self fs \<and> fs ''d/watched-addrs.csv'' = Some (''u,0'' @ newline) \<and>
     map snd (ws_scripts (wss_scripts self)) = [(Dest_Address ''u'', 0)]"
proof -
  obtain s ws where ws: "WatchedScripts_insert std_client WatchedScripts_new (Dest_Address ''u'') demo_set = Ok (True, ws)"
      and scripts: "ws_scripts ws = [(unary_encode s, Dest_Address ''u'', 0)]"
    by (rule demo_insert)
  let ?p = "''d/watched-addrs.csv''"
  let ?self = "\<lparr>wss_scripts = WatchedScripts_new, wss_file_path = ?p\<rparr>"
  obtain fs where open_store: "WatchedScriptStore_open std_files ''d'' (\<lambda>_. None) = (Ok ?self, fs)" and fs: "fs ?p = Some []"
    by (simp add: WatchedScriptStore_open_def WatchedScripts_new_def std_files_def Let_def io_def)
  obtain fs' where "WatchedScriptStore_insert std_files std_client ?self (Dest_Address ''u'') demo_set fs =
      (Ok (), ?self\<lparr>wss_scripts := ws\<rparr>, fs')"
    using fs by (simp add: WatchedScriptStore_insert_def ws WatchedScriptStore_write_def std_files_def io_def Let_def)
  from tracking.insert [OF tracking.open_store [OF open_store] this]
  have run: "tracking std_files std_client (?self\<lparr>wss_scripts := ws\<rparr>) fs'" .
  from watched_file_lists_scripts [OF std_files.file_laws_axioms run]
  obtain es where es: "mset es = {#(Dest_Address ''u'', 0)#}" and c: "fs' ?p = Some (concat (map (\<lambda>(dest, i).
      Client_Dest_to_receiver_addr dest @ '','' @ nat_to_string i @ newline) es))"
    by (auto simp: scripts)
  have "es = [(Dest_Address ''u'', 0)]" using es by simp
  with c have "fs' ?p = Some (''u,0'' @ newline)"
    by (simp add: Client_Dest_to_receiver_addr_def nat_to_string.simps char_of_def bit_0)
  with run scripts show ?thesis
    by (intro exI [of _ "?self\<lparr>wss_scripts := ws\<rparr>"] exI [of _ fs']) simp
qed

theorem deposit_index_spec_witness:
  "\<exists>infos. DepositIndex_get_deposits_by_receiver
      (DepositIndex_insert_deposit unary_encode [] ''r'' ''a'' \<lparr>de_txid = [1], de_vout = 0, de_amount = 10, de_height = Some 5\<rparr>) ''r'' 9
      = Ok infos \<and> di_deposit ` set infos = {\<lparr>de_txid = [1], de_vout = 0, de_amount = 10, de_height = Some 5\<rparr>}"
proof -
  let ?d = "\<lparr>de_txid = [1], de_vout = 0, de_amount = 10, de_height = Some 5\<rparr>"
  have "index_ok []" by (simp add: index_ok_def)
  moreover obtain infos where "DepositIndex_get_deposits_by_receiver (DepositIndex_insert_deposit unary_encode [] ''r'' ''a'' ?d) ''r'' 9
      = Ok infos"
    by (simp add: DepositIndex_get_deposits_by_receiver_def DepositIndex_insert_deposit_def or_default_def Let_def deposit_confirmations_def add_w_def)
  ultimately show ?thesis
    using deposit_index_spec [of "[]" unary_encode "''r''" "''a''" ?d 9] by (auto simp: lookup_deposit_def)
qed

end
