(* ===== verification/AdapterInstance.thy ===== *)
theory AdapterInstance
  imports Adapter ClientInstance
begin

text \<open>
  The encodings of the crates, written out: base64 with the standard alphabet and padding (RFC 4648), numbers in little-endian
  bytes, the 80 bytes of a block header and the 78 bytes of an extended key. They keep the laws of \<open>text_form\<close> and
  \<open>consensus_form\<close>, and the property of the adapters is applied to them.
\<close>

section \<open>Base64\<close>

definition b64_alphabet :: string where
  "b64_alphabet = ''ABCDEFGHIJKLMNOPQRSTUVWXYZabcdefghijklmnopqrstuvwxyz0123456789+/''"

definition b64_char :: "nat \<Rightarrow> char" where
  "b64_char n = b64_alphabet ! n"

fun index_of :: "'a \<Rightarrow> 'a list \<Rightarrow> nat option" where
  "index_of x [] = None"
| "index_of x (y # ys) = (if x = y then Some 0 else map_option Suc (index_of x ys))"

fun b64_encode :: "bytes \<Rightarrow> string" where
  "b64_encode [] = ''''"
| "b64_encode [a] = [b64_char (a div 4), b64_char (a mod 4 * 16), CHR ''='', CHR ''='']"
| "b64_encode [a, b] = [b64_char (a div 4), b64_char (a mod 4 * 16 + b div 16), b64_char (b mod 16 * 4), CHR ''='']"
| "b64_encode (a # b # c # bs) =
     [b64_char (a div 4), b64_char (a mod 4 * 16 + b div 16), b64_char (b mod 16 * 4 + c div 64), b64_char (c mod 64)] @
     b64_encode bs"

text \<open>A group of four characters stands for three bytes, or for fewer at the end of the text.\<close>

definition b64_value :: "char \<Rightarrow> nat option" where
  "b64_value c = index_of c b64_alphabet"

fun b64_decode :: "string \<Rightarrow> string + bytes" where
  "b64_decode [] = Inr []"
| "b64_decode (p # q # r # s # cs) =
     (case (b64_value p, b64_value q) of
        (Some w, Some x) \<Rightarrow>
          (case (b64_value r, b64_value s) of
             (Some y, Some z) \<Rightarrow>
               map_sum id (\<lambda>bs. (w * 4 + x div 16) # (x mod 16 * 16 + y div 4) # (y mod 4 * 64 + z) # bs) (b64_decode cs)
           | (Some y, None) \<Rightarrow>
               if s = CHR ''='' \<and> cs = [] then Inr [w * 4 + x div 16, x mod 16 * 16 + y div 4] else Inl ''invalid base64''
           | _ \<Rightarrow>
               if r = CHR ''='' \<and> s = CHR ''='' \<and> cs = [] then Inr [w * 4 + x div 16] else Inl ''invalid base64'')
      | _ \<Rightarrow> Inl ''invalid base64'')"
| "b64_decode _ = Inl ''invalid base64''"

lemma index_of_nth: "distinct xs \<Longrightarrow> n < length xs \<Longrightarrow> index_of (xs ! n) xs = Some n"
proof (induction xs arbitrary: n)
  case (Cons x xs)
  then show ?case by (cases n) (auto simp: nth_eq_iff_index_eq)
qed simp

lemma b64_alphabet: "distinct b64_alphabet" "length b64_alphabet = 64" "CHR ''='' \<notin> set b64_alphabet"
  by code_simp+

lemma b64_value_char [simp]: "n < 64 \<Longrightarrow> b64_value (b64_char n) = Some n"
  by (simp add: b64_value_def b64_char_def index_of_nth b64_alphabet)

lemma index_of_None: "x \<notin> set xs \<Longrightarrow> index_of x xs = None"
  by (induction xs) auto

lemma b64_value_pad [simp]: "b64_value (CHR ''='') = None"
  unfolding b64_value_def by (rule index_of_None) (rule b64_alphabet)

text \<open>The six-bit groups of three bytes, and the bytes they give back.\<close>

lemma sextets:
  assumes "(a :: nat) < 256" "b < 256" "c < 256"
  shows "a div 4 < 64" "a mod 4 * 16 < 64" "a mod 4 * 16 + b div 16 < 64" "b mod 16 * 4 < 64" "b mod 16 * 4 + c div 64 < 64"
    and "a div 4 * 4 + (a mod 4 * 16 + b div 16) div 16 = a" "a div 4 * 4 + (a mod 4 * 16) div 16 = a"
    and "(a mod 4 * 16 + b div 16) mod 16 * 16 + (b mod 16 * 4 + c div 64) div 4 = b"
    and "(a mod 4 * 16 + b div 16) mod 16 * 16 + (b mod 16 * 4) div 4 = b"
    and "(b mod 16 * 4 + c div 64) mod 4 * 64 + c mod 64 = c"
proof -
  have h: "a div 4 < 64" "b div 16 < 16" "c div 64 < 4" using assms by (simp_all add: less_mult_imp_div_less)
  have l: "a mod 4 < 4" "b mod 16 < 16" by simp_all
  show "a div 4 < 64" by (rule h)
  show "a mod 4 * 16 < 64" "a mod 4 * 16 + b div 16 < 64" "b mod 16 * 4 < 64" "b mod 16 * 4 + c div 64 < 64"
    using h l by linarith+
  have "(a mod 4 * 16 + b div 16) div 16 = a mod 4" "(a mod 4 * 16 + b div 16) mod 16 = b div 16"
      "(b mod 16 * 4 + c div 64) div 4 = b mod 16" "(b mod 16 * 4 + c div 64) mod 4 = c div 64"
    using h by simp_all
  then show "a div 4 * 4 + (a mod 4 * 16 + b div 16) div 16 = a" "a div 4 * 4 + (a mod 4 * 16) div 16 = a"
      "(a mod 4 * 16 + b div 16) mod 16 * 16 + (b mod 16 * 4 + c div 64) div 4 = b"
      "(a mod 4 * 16 + b div 16) mod 16 * 16 + (b mod 16 * 4) div 4 = b"
      "(b mod 16 * 4 + c div 64) mod 4 * 64 + c mod 64 = c"
    by simp_all
qed

lemma b64_roundtrip: "byte_list bs \<Longrightarrow> b64_decode (b64_encode bs) = Inr bs"
proof (induction bs rule: b64_encode.induct)
  case (2 a)
  then have "a < 256" by simp
  from sextets [OF this this this] show ?case by simp
next
  case (3 a b)
  then have "a < 256" "b < 256" by simp_all
  from sextets [OF this this(2)] show ?case by (simp only: b64_encode.simps b64_decode.simps b64_value_char b64_value_pad prod.case option.case if_True HOL.simp_thms)
next
  case (4 a b c bs)
  then have "a < 256" "b < 256" "c < 256" and IH: "b64_decode (b64_encode bs) = Inr bs" by simp_all
  from sextets [OF this(1-3)] show ?case
    by (simp only: b64_encode.simps append.simps b64_decode.simps b64_value_char prod.case option.case IH map_sum.simps mod_less_divisor zero_less_numeral)
qed simp

section \<open>Little-endian numbers\<close>

fun le_bytes :: "nat \<Rightarrow> nat \<Rightarrow> bytes" where
  "le_bytes 0 n = []"
| "le_bytes (Suc k) n = n mod 256 # le_bytes k (n div 256)"

fun le_value :: "bytes \<Rightarrow> nat" where
  "le_value [] = 0"
| "le_value (b # bs) = b + 256 * le_value bs"

lemma le_bytes_numeral: "le_bytes (numeral k) n = n mod 256 # le_bytes (pred_numeral k) (n div 256)"
  by (simp only: numeral_eq_Suc le_bytes.simps)

lemma le_bytes_length [simp]: "length (le_bytes k n) = k"
  by (induction k n rule: le_bytes.induct) simp_all

lemma le_bytes_byte_list [simp]: "byte_list (le_bytes k n)"
  by (induction k n rule: le_bytes.induct) simp_all

lemma le_roundtrip: "n < 256 ^ k \<Longrightarrow> le_value (le_bytes k n) = n"
  by (induction k n rule: le_bytes.induct) (simp_all add: less_mult_imp_div_less mult.commute)

text \<open>\<^verbatim>\<open>Uint256\<close>: 32 bytes.\<close>

definition take_exact :: "nat \<Rightarrow> bytes \<Rightarrow> string + bytes \<times> bytes" where
  "take_exact n b = (if n \<le> length b then Inr (take n b, drop n b) else Inl ''failed to fill whole buffer'')"

lemma take_exact_append: "length b = n \<Longrightarrow> take_exact n (b @ rest) = Inr (b, rest)"
  by (simp add: take_exact_def)

definition uint256_codec :: "u256 consensus" where
  "uint256_codec =
     \<lparr>consensus_encode = (\<lambda>n. Inr (le_bytes 32 n)),
      consensus_decode = (\<lambda>b. custom (take_exact 32 b) (\<lambda>(n, rest). Inr (le_value n, rest)))\<rparr>"

interpretation uint256: consensus_form uint256_codec "\<lambda>n. n < 2 ^ 256"
proof
  fix x :: u256
  assume "x < 2 ^ 256"
  moreover have "(2 :: nat) ^ 256 = 256 ^ 32" by simp
  ultimately show "consensus_encode uint256_codec x = Inr b \<Longrightarrow> consensus_decode uint256_codec (b @ rest) = Inr (x, rest)" for b rest
    using le_roundtrip [of x 32] by (auto simp: uint256_codec_def take_exact_append simp del: le_bytes.simps power_numeral)
qed (simp add: uint256_codec_def del: le_bytes.simps)

section \<open>Block headers\<close>

definition header_bytes :: "block_header \<Rightarrow> bytes" where
  "header_bytes h = le_bytes 4 (bh_version h) @ bh_prev_blockhash h @ bh_merkle_root h @ le_bytes 4 (bh_time h) @
     le_bytes 4 (bh_bits h) @ le_bytes 4 (bh_nonce h)"

definition header_of_bytes :: "bytes \<Rightarrow> string + block_header \<times> bytes" where
  "header_of_bytes b =
     custom (take_exact 4 b) (\<lambda>(version, b).
     custom (take_exact 32 b) (\<lambda>(prev, b).
     custom (take_exact 32 b) (\<lambda>(root, b).
     custom (take_exact 4 b) (\<lambda>(time, b).
     custom (take_exact 4 b) (\<lambda>(bits, b).
     custom (take_exact 4 b) (\<lambda>(nonce, b).
     Inr (\<lparr>bh_version = le_value version, bh_prev_blockhash = prev, bh_merkle_root = root, bh_time = le_value time,
           bh_bits = le_value bits, bh_nonce = le_value nonce\<rparr>, b)))))))"

definition header_codec :: "block_header consensus" where
  "header_codec = \<lparr>consensus_encode = (\<lambda>h. Inr (header_bytes h)), consensus_decode = header_of_bytes\<rparr>"

definition header_valid :: "block_header \<Rightarrow> bool" where
  "header_valid h \<longleftrightarrow> bh_version h < 2 ^ 32 \<and> length (bh_prev_blockhash h) = 32 \<and> byte_list (bh_prev_blockhash h) \<and>
     length (bh_merkle_root h) = 32 \<and> byte_list (bh_merkle_root h) \<and> bh_time h < 2 ^ 32 \<and> bh_bits h < 2 ^ 32 \<and> bh_nonce h < 2 ^ 32"

lemma le4_roundtrip: "n < 2 ^ 32 \<Longrightarrow> le_value (le_bytes 4 n) = n"
  using le_roundtrip [of n 4] by simp

interpretation header_form: consensus_form header_codec header_valid
proof
  fix h :: block_header
  assume h: "header_valid h"
  then show "\<exists>b. consensus_encode header_codec h = Inr b \<and> byte_list b"
    by (simp add: header_codec_def header_bytes_def header_valid_def)
  have "header_of_bytes (header_bytes h @ rest) = Inr (h, rest)" for rest
    using h le4_roundtrip
    by (simp add: header_of_bytes_def header_bytes_def header_valid_def take_exact_append del: le_bytes.simps)
  then show "consensus_encode header_codec h = Inr b \<Longrightarrow> consensus_decode header_codec (b @ rest) = Inr (h, rest)" for b rest
    by (auto simp: header_codec_def)
qed

section \<open>Extended keys\<close>

text \<open>The 78 bytes of BIP 32: version, depth, fingerprint of the parent, child number, chain code and public key.\<close>

definition bip32_bytes :: "xpub \<Rightarrow> bytes" where
  "bip32_bytes k = (if xp_network k = Mainnet then [0x04, 0x88, 0xB2, 0x1E] else [0x04, 0x35, 0x87, 0xCF]) @
     [xp_depth k] @ xp_parent_fingerprint k @ be32 (xp_child_number k) @ xp_chain_code k @ xp_public_key k"

definition bip32_decode :: "bytes \<Rightarrow> string + xpub" where
  "bip32_decode b =
     (if length b \<noteq> 78 then Inl ''wrong extended key length''
      else if take 4 b \<notin> {[0x04, 0x88, 0xB2, 0x1E], [0x04, 0x35, 0x87, 0xCF]} then Inl ''unknown version magic bytes''
      else Inr \<lparr>xp_network = (if take 4 b = [0x04, 0x88, 0xB2, 0x1E] then Mainnet else Testnet), xp_depth = b ! 4,
                xp_parent_fingerprint = take 4 (drop 5 b), xp_child_number = from_be_bytes (take 4 (drop 9 b)),
                xp_public_key = drop 45 b, xp_chain_code = take 32 (drop 13 b)\<rparr>)"

definition key_valid :: "xpub \<Rightarrow> bool" where
  "key_valid k \<longleftrightarrow> xp_network k \<in> {Mainnet, Testnet} \<and> xp_depth k < 256 \<and> length (xp_parent_fingerprint k) = 4 \<and>
     byte_list (xp_parent_fingerprint k) \<and> xp_child_number k < 2 ^ 32 \<and> length (xp_chain_code k) = 32 \<and>
     byte_list (xp_chain_code k) \<and> length (xp_public_key k) = 33 \<and> byte_list (xp_public_key k)"

lemma bip32_byte_list: "key_valid k \<Longrightarrow> byte_list (bip32_bytes k)"
  by (simp add: key_valid_def bip32_bytes_def be32_def)

lemma bip32_roundtrip:
  assumes "key_valid k"
  shows "bip32_decode (bip32_bytes k) = Inr k"
proof -
  have len: "length (be32 (xp_child_number k)) = 4" by (simp add: be32_def)
  have "from_be_bytes (be32 (xp_child_number k)) = xp_child_number k"
    using assms from_be_bytes_be32 by (simp add: key_valid_def)
  then show ?thesis
    using assms len by (cases k) (auto simp: key_valid_def bip32_bytes_def bip32_decode_def)
qed

section \<open>Text\<close>

datatype json = JString string | JNumber int | JNull

definition json_serde :: "json serde" where
  "json_serde =
     \<lparr>binary_serialize = (\<lambda>b. Inr (JString (b64_encode b))),
      binary_deserialize = (\<lambda>v. case v of JString s \<Rightarrow> b64_decode s | _ \<Rightarrow> Inl ''invalid type''),
      string_serialize = (\<lambda>s. Inr (JString s)),
      string_deserialize = (\<lambda>v. case v of JString s \<Rightarrow> Inr s | _ \<Rightarrow> Inl ''invalid type'')\<rparr>"

definition web_client :: client_ext where
  "web_client = std_client\<lparr>base64_encode := b64_encode, base64_decode := b64_decode, xpub_encode := bip32_bytes\<rparr>"

lemma web_client_sels [simp]: "base64_encode web_client = b64_encode" "base64_decode web_client = b64_decode"
  "xpub_encode web_client = bip32_bytes"
  by (simp_all add: web_client_def)

interpretation json: text_form web_client json_serde
  by unfold_locales (auto simp: json_serde_def b64_roundtrip)

section \<open>A header and a key\<close>

text \<open>The header of the first block of Bitcoin, whose text form begins with \<^verbatim>\<open>AQAAAAAA\<close>.\<close>

definition genesis :: block_header where
  "genesis = \<lparr>bh_version = 1, bh_prev_blockhash = replicate 32 0,
     bh_merkle_root = [0x3B, 0xA3, 0xED, 0xFD, 0x7A, 0x7B, 0x12, 0xB2, 0x7A, 0xC7, 0x2C, 0x3E, 0x67, 0x76, 0x8F, 0x61,
       0x7F, 0xC8, 0x1B, 0xC3, 0x88, 0x8A, 0x51, 0x32, 0x3A, 0x9F, 0xB8, 0xAA, 0x4B, 0x1E, 0x5E, 0x4A],
     bh_time = 1231006505, bh_bits = 0x1D00FFFF, bh_nonce = 2083236893\<rparr>"

definition web_key :: xpub where
  "web_key = \<lparr>xp_network = Mainnet, xp_depth = 0, xp_parent_fingerprint = replicate 4 0, xp_child_number = 0,
     xp_public_key = 2 # replicate 32 7, xp_chain_code = replicate 32 9\<rparr>"

lemma genesis_valid: "header_valid genesis"
  by (simp add: header_valid_def genesis_def list_all_iff)

lemma web_key_valid: "key_valid web_key"
  by (simp add: key_valid_def web_key_def list_all_iff)

theorem adapter_interop_witness:
  "\<exists>s. take 8 s = ''AQAAAAAA'' \<and> Adapter_serialize json_serde header_codec (Adapter_new genesis) = Inr (JString s) \<and>
     Client_Adapter_serialize web_client json_serde header_codec (Client_Adapter_new genesis) = Inr (JString s) \<and>
     Adapter_deserialize json_serde header_codec (JString s) = Inr (Adapter_new genesis) \<and>
     Client_Adapter_deserialize web_client json_serde header_codec (JString s) = Inr (Client_Adapter_new genesis) \<and>
     WrappedBinary_deserialize (Xpub_deserialize json_serde bip32_decode) (JString (encodeXpub web_client web_key)) = Inr (WrappedBinary web_key)"
proof -
  have "byte_list [1]" "byte_list (xpub_encode web_client web_key)"
      "xpub_encode (std_ext\<lparr>xpub_encode := bip32_bytes\<rparr>) web_key = xpub_encode web_client web_key"
      "bip32_decode (xpub_encode (std_ext\<lparr>xpub_encode := bip32_bytes\<rparr>) web_key) = Inr web_key"
    using bip32_byte_list [OF web_key_valid] bip32_roundtrip [OF web_key_valid] by simp_all
  note A = adapter_interop [where xpub_decode = bip32_decode, OF json.text_form_axioms header_form.consensus_form_axioms
      genesis_valid this]
  have "take 6 (header_bytes genesis) = [1, 0, 0, 0, 0, 0]"
    by (simp add: header_bytes_def genesis_def le_bytes_numeral take_replicate) (simp add: eval_nat_numeral)
  then obtain r where "header_bytes genesis = [1, 0, 0, 0, 0, 0] @ r" by (metis append_take_drop_id)
  then have 1: "take 8 (b64_encode (header_bytes genesis)) = ''AQAAAAAA''"
    by (simp only: append.simps b64_encode.simps) (simp add: b64_char_def b64_alphabet_def)
  have 2: "Adapter_serialize json_serde header_codec (Adapter_new genesis) = Inr (JString (b64_encode (header_bytes genesis)))"
      "string_serialize json_serde (encodeXpub web_client web_key) = Inr (JString (encodeXpub web_client web_key))"
    by (simp_all add: Adapter_serialize_def Adapter_new_def header_codec_def json_serde_def)
  show ?thesis
    by (rule exI [of _ "b64_encode (header_bytes genesis)"]) (use A 1 2 in \<open>simp only: sum.inject HOL.ex_simps HOL.simp_thms simp_thms\<close>)
qed

end
