(* ===== verification/Spec2Isabelle.thy ===== *)
theory Spec2Isabelle
  imports ExampleRun AdapterInstance
begin

text \<open>
  A model of \<^verbatim>\<open>cw-bitcoin\<close>, a Bitcoin bridge written as a CosmWasm contract
  (\<^verbatim>\<open>src/contracts/cw-bitcoin/src\<close>), and of the client crate \<^verbatim>\<open>src/wasm/src\<close> that relayers and
  signers run in JavaScript.

  \<^bold>\<open>The program.\<close> Validators register extended keys; from them the contract forms a signatory set
  per checkpoint. Users deposit to an output script of a set that commits to their destination;
  relayers prove the deposit against the contract's own light client of Bitcoin. Deposits become
  inputs, withdrawals outputs of the transaction of the checkpoint being built. At the end of a
  block the queue of checkpoints may advance: the checkpoint being built is frozen, the
  signatories sign it, and once it is signed the pending transfers are minted. The client has its
  own copies of the signatory sets, the signing states and the headers, with which signers check
  what they sign and relayers find deposits.

  \<^bold>\<open>Theories and sources.\<close>
  \<^item> Prelude: results with errors and panics, the checked arithmetic of the release profile
    (overflow checks are on, so an overflow is a panic), wrapping casts; the collection
    \<open>ok_simps\<close> says what a successful step implies. The outcome of a call takes the error type of its
    crate as a parameter.
  \<^item> Extern: types and functions of the libraries the contract calls (the bitcoin, bip32 and
    secp256k1 crates, the CosmWasm API). They are fields of the record \<open>ext\<close>, the first argument
    \<open>E\<close> of the definitions that use them.
  \<^item> Deque: \<^verbatim>\<open>DequeExtension\<close> of \<^verbatim>\<open>interface.rs\<close> over the library's deque, whose laws are the
    locale \<open>deque_laws\<close>; a ring buffer with 32-bit cursors interprets it.
  \<^item> Signatory, ThresholdSig, Script: \<^verbatim>\<open>signatory.rs\<close>, \<^verbatim>\<open>threshold_sig.rs\<close>, and an interpreter of
    the fragment of Bitcoin Script that redeem scripts use (locale \<open>script_laws\<close> for the builder
    and reader of the bitcoin crate). The interpreter takes the signature check as an argument, which also
    says whether a signature is encoded as consensus demands; a slot that is not makes a script fail.
  \<^item> Interface, Checkpoint, Header: \<^verbatim>\<open>constants.rs\<close>, the configurations and destinations of
    \<^verbatim>\<open>interface.rs\<close>, the transactions and checkpoints of \<^verbatim>\<open>checkpoint.rs\<close>, the header types of
    \<^verbatim>\<open>header.rs\<close>.
  \<^item> State: \<^verbatim>\<open>state.rs\<close>; the record \<open>store\<close> has one field per storage item, and the record
    \<open>contract_ext\<close> adds the three deques to the library functions (locale \<open>contract_deques\<close>).
  \<^item> HeaderQueue, CheckpointQueue, SignatoryKeys, OutpointSet, Fee, Recovery, App: the operations
    of \<^verbatim>\<open>header.rs\<close>, \<^verbatim>\<open>checkpoint.rs\<close>, \<^verbatim>\<open>signatory.rs\<close>, \<^verbatim>\<open>outpoint_set.rs\<close>, \<^verbatim>\<open>fee.rs\<close> and
    \<^verbatim>\<open>helper.rs\<close>, \<^verbatim>\<open>recovery.rs\<close>, \<^verbatim>\<open>app.rs\<close> on the store.
  \<^item> Entrypoints, Query: \<^verbatim>\<open>contract.rs\<close>, \<^verbatim>\<open>entrypoints/execute.rs\<close>, \<^verbatim>\<open>entrypoints/sudo.rs\<close>,
    \<^verbatim>\<open>entrypoints/query.rs\<close>, \<^verbatim>\<open>msg.rs\<close>, and \<^verbatim>\<open>change_rates\<close> of \<^verbatim>\<open>app.rs\<close>.
  \<^item> Contract: frames of the handlers (locale \<open>store_frame\<close>), the step relation of the contract
    and its runs. A locale \<open>xpub_encoding\<close> of SignatoryKeys, which gives a frame of its own here, says what is
    used of the encoding of extended keys.
  \<^item> Runs, Safety: runs of a contract in service, whose environment and messages are within their
    types and whose queue was not pruned (\<open>live\<close>); the scheme by which an invariant of checkpoints
    becomes one of runs (locale \<open>checkpoint_invariant\<close>), and its instances.
  \<^item> Ledger: what every operation does to the balance of the bridge, and the runs that log their deposits
    and messages (\<open>ledger\<close>). A state is \<open>auditable\<close> when the owner has left the units per satoshi as they were
    set and the checkpoint being built spends less than \<^verbatim>\<open>2^63\<close> units, so that no fee changes its sign in a cast.
  \<^item> Client: what the client's components share (\<^verbatim>\<open>error.rs\<close>, \<^verbatim>\<open>lib.rs\<close>, \<^verbatim>\<open>interface.rs\<close>, \<^verbatim>\<open>helpers.rs\<close>),
    and the agreement \<open>agree\<close> of a call of the contract with one of the client, with a rule for every
    construct of the model (\<open>agree_intros\<close>); the locale \<open>same_crates\<close> says that the crates the two
    sides link do the same.
  \<^item> ClientSignatory, ClientThresholdSig, ClientHeader: \<^verbatim>\<open>signatory.rs\<close>, \<^verbatim>\<open>threshold_sig.rs\<close> (locale
    \<open>same_signatures\<close> for the two signature checks) and \<^verbatim>\<open>header_queue.rs\<close> of the client.
  \<^item> Adapter: \<^verbatim>\<open>adapter.rs\<close> of both crates and the text form of \<^verbatim>\<open>Xpub\<close>; the locales \<open>text_form\<close> and
    \<open>consensus_form\<close> say what is relied on of base64, serde and the consensus encoding. Elsewhere an adapter is
    read as the value it wraps.
  \<^item> Relayer, WatchedStore: \<^verbatim>\<open>relayer.rs\<close> and \<^verbatim>\<open>deposit_index.rs\<close> of the client; the file system is an
    argument with the laws \<open>file_laws\<close>.
  \<^item> Instance, Witnesses, ExampleRun, ClientInstance, AdapterInstance: concrete libraries that satisfy every
    locale, among them base64, block headers and extended keys as their standards define them, the properties
    applied to concrete states, and a run of the contract from its instantiation to the payout of a deposit.

  A struct is a record, an enum a datatype; a method \<^verbatim>\<open>T::f\<close> is the definition \<open>T_f\<close>, which takes
  the store and returns a \<open>result\<close> with the new one. A failed transaction is rolled back by the
  chain, so an error carries no store. Unsigned integers are natural numbers whose operations
  check their width. A loop of the code is a recursive function over the list it consumes. The
  loop of \<^verbatim>\<open>pop_back_to\<close> has a fuel of one more than the length of the queue, which it cannot
  exhaust since every pass removes a header.

  \<^bold>\<open>What is shown.\<close>
  \<^item> Custody: a reachable signing state counts exactly the verified power; a signed state
    satisfies the redeem script; the script is a weighted threshold check and can be read back; a
    signing call takes exactly the signatures a key owes; the counters of a checkpoint are right.
  \<^item> Solvency: along every run in which nothing was pruned yet and whose states are auditable, the tokens in circulation, the pending transfers and the fee pool are covered by
    what the transaction of the checkpoint being built leaves, and no more is minted than was deposited.
  \<^item> Accounting: freezing a checkpoint conserves value and leaves every input and output what it was but for
    the reserve output; deposits and withdrawals are accounted for as long as nothing was pruned; an expired deposit is moved to the current signatory set; a fee is shared among the
    outputs; a block mints what is owed.
  \<^item> Safety along runs: a deposit is credited once and a block ended once whatever messages come
    between; only the owner changes the settings; no two validators hold the same signatory key; pending transfers are paid once as long as
    nothing was pruned; every complete checkpoint carries, for every input, verified signatures of
    more than two thirds of its signatory set on the transaction it stores; all stored integers stay
    within their types.
  \<^item> The light client: every reachable queue is a valid chain whose headers prove their work for the target that
    their predecessors determine by the retargeting formula, and only more work replaces headers. With
    minimum-difficulty blocks, the target of a header on time after such a block is not pinned.
  \<^item> The state machine of checkpoints: its shape along runs, pushing, pruning.
  \<^item> The client: its scripts and its reading of scripts agree with the contract's; signing with the
    client is signing with the contract; watched scripts are what the contract's \<^verbatim>\<open>relay_deposit\<close> asks
    for, while its threshold is the client's constant, and the file lists them; the header configuration it makes starts the contract's chain; the index of
    deposits is a map; what an adapter or \<^verbatim>\<open>encodeXpub\<close> writes, both sides read as the same value.
  \<^item> Deviations: after pruning, writes of checkpoints go to the wrong cell and pending transfers
    are paid again; the work counter drifts at reorganisations; a retargeting interval that ends before it began
    can not be passed; truncated
    and full thresholds can disagree; a small expired deposit becomes a transaction without
    outputs; the key of a punished validator stays taken; a restarted relayer forgets what it watched; a new
    index of deposits is not empty.

  \<^bold>\<open>Not modelled.\<close> The derived JSON forms of structs, but for the fields of \<^verbatim>\<open>IbcDest\<close> that commitments hash, and
  their schemas, with the schema binary; the attributes of
  responses except that of \<^verbatim>\<open>migrate\<close>, and the version record of cw2, which is an argument of \<^verbatim>\<open>migrate\<close>; the
  constant \<^verbatim>\<open>BRIDGE_FEE_RATE\<close>, the conversions of \<^verbatim>\<open>HeaderList\<close> and derived \<^verbatim>\<open>Debug\<close> output, which no
  operation uses; and the tests.
\<close>

end
